(* ===== verification/Prelude.thy ===== *)
theory Prelude
  imports Complex_Main "HOL-Library.Word" "HOL-Library.Monad_Syntax"
begin

text \<open>
  Shared vocabulary of the development.

  \<^item> Types. A \<open>rust_decimal::Decimal\<close> is identified with the rational number it denotes
    (\<open>decimal\<close>): its comparisons, \<open>abs\<close>, \<open>min\<close> and negation act on that number. An instant
    (\<open>chrono::DateTime<Utc>\<close>) is the number of nanoseconds since the Unix epoch. Machine
    integers are words of their width, with the wrap-around of a release build. A \<open>String\<close>
    that the code only formats and never inspects is a \<open>msg\<close>: the list of its pieces, with
    the values that \<open>format!\<close> would render kept as values.
  \<^item> Third-party code. The record \<open>ext\<close> holds the operations of the crates \<open>rust_decimal\<close>
    and \<open>chrono\<close> whose results are not determined by the source: the four arithmetic
    operators of \<open>Decimal\<close> (they round to 28 decimal places and panic on overflow and on
    division by zero; \<open>None\<close> is the panic), \<open>DateTime::timestamp_millis\<close>,
    \<open>Duration::num_seconds\<close> and \<open>Duration::num_milliseconds\<close>. Every definition that uses one takes the record as its first
    argument; what a theorem relies on is a named hypothesis about it.
  \<^item> Generic lemmas: the option monad, checked sums, \<open>min_by\<close> and \<open>max_by\<close> of iterators,
    and the closure of decimal grids under arithmetic.
\<close>

subsection \<open>Types\<close>

type_synonym decimal = rat
type_synonym datetime = int
type_synonym u16 = "16 word"
type_synonym u32 = "32 word"
type_synonym u64 = "64 word"
type_synonym usize = "64 word"

datatype piece = PStr string | PDec decimal | PInt int
type_synonym msg = "piece list"

abbreviation lit :: "string \<Rightarrow> msg" where
  "lit s \<equiv> [PStr s]"

definition em_dash :: string where
  "em_dash = [CHR 0xE2, CHR 0x80, CHR 0x94]"

named_theorems grid_intros \<open>closure of decimal grids under arithmetic\<close>
named_theorems exact_dests \<open>checked decimal operations that return the exact result\<close>

subsection \<open>Operations of third-party crates\<close>

record ext =
  dec_add :: "decimal \<Rightarrow> decimal \<Rightarrow> decimal option"
  dec_sub :: "decimal \<Rightarrow> decimal \<Rightarrow> decimal option"
  dec_mul :: "decimal \<Rightarrow> decimal \<Rightarrow> decimal option"
  dec_div :: "decimal \<Rightarrow> decimal \<Rightarrow> decimal option"
  num_seconds :: "int \<Rightarrow> int"
  num_milliseconds :: "int \<Rightarrow> int"
  timestamp_millis :: "datetime \<Rightarrow> int"

text \<open>
  A \<open>Decimal\<close> is a 96-bit mantissa with a scale between 0 and 28.
\<close>

definition representable :: "decimal \<Rightarrow> bool" where
  "representable x \<longleftrightarrow> (\<exists>s\<le>28. \<exists>m::int. \<bar>m\<bar> < 2 ^ 96 \<and> x = of_int m / 10 ^ s)"

text \<open>
  The documented behaviour of the operators: a result that is representable is returned
  exactly; division by zero panics.
\<close>

definition exact_arith :: "ext \<Rightarrow> bool" where
  "exact_arith X \<longleftrightarrow> (\<forall>a b. representable a \<longrightarrow> representable b \<longrightarrow>
     (representable (a + b) \<longrightarrow> dec_add X a b = Some (a + b)) \<and>
     (representable (a - b) \<longrightarrow> dec_sub X a b = Some (a - b)) \<and>
     (representable (a * b) \<longrightarrow> dec_mul X a b = Some (a * b)) \<and>
     (b \<noteq> 0 \<longrightarrow> representable (a / b) \<longrightarrow> dec_div X a b = Some (a / b)))"

definition div_zero_panics :: "ext \<Rightarrow> bool" where
  "div_zero_panics X \<longleftrightarrow> (\<forall>a. dec_div X a 0 = None)"

text \<open>
  A bound \<open>e\<close> on the rounding error of the divisions whose quotient is at most \<open>m\<close>. The mantissa of
  a quotient has 96 bits, hence 28 digits: for \<open>m = 10\<^sup>k\<close> with \<open>k \<le> 28\<close> the error is at most
  \<open>10\<^sup>k\<^sup>-\<^sup>2\<^sup>8\<close>.
\<close>

definition div_within :: "ext \<Rightarrow> decimal \<Rightarrow> decimal \<Rightarrow> bool" where
  "div_within X m e \<longleftrightarrow>
     (\<forall>a b q. b \<noteq> 0 \<longrightarrow> \<bar>a / b\<bar> \<le> m \<longrightarrow> dec_div X a b = Some q \<longrightarrow> \<bar>q - a / b\<bar> \<le> e)"

text \<open>\<open>Duration::num_seconds\<close> is the number of whole seconds, truncated towards zero.\<close>

definition trunc_div :: "int \<Rightarrow> int \<Rightarrow> int" where
  "trunc_div a b = sgn a * sgn b * (\<bar>a\<bar> div \<bar>b\<bar>)"

definition num_seconds_truncates :: "ext \<Rightarrow> bool" where
  "num_seconds_truncates X \<longleftrightarrow> (\<forall>d. num_seconds X d = trunc_div d 1000000000)"

text \<open>
  An instance of the record that satisfies these laws; witnesses instantiate \<open>ext\<close> by it.
\<close>

definition ideal_ext :: ext where
  "ideal_ext = \<lparr>
     dec_add = (\<lambda>a b. Some (a + b)),
     dec_sub = (\<lambda>a b. Some (a - b)),
     dec_mul = (\<lambda>a b. Some (a * b)),
     dec_div = (\<lambda>a b. if b = 0 then None else Some (a / b)),
     num_seconds = (\<lambda>d. trunc_div d 1000000000),
     num_milliseconds = (\<lambda>d. trunc_div d 1000000),
     timestamp_millis = (\<lambda>t. t div 1000000)\<rparr>"

lemma ideal_ext_simps [simp]:
  "dec_add ideal_ext a b = Some (a + b)"
  "dec_sub ideal_ext a b = Some (a - b)"
  "dec_mul ideal_ext a b = Some (a * b)"
  "dec_div ideal_ext a b = (if b = 0 then None else Some (a / b))"
  "num_seconds ideal_ext d = trunc_div d 1000000000"
  "num_milliseconds ideal_ext d = trunc_div d 1000000"
  "timestamp_millis ideal_ext t = t div 1000000"
  by (simp_all add: ideal_ext_def)

lemma ideal_ext_exact [simp]: "exact_arith ideal_ext"
  by (simp add: exact_arith_def)

lemma ideal_ext_div_zero [simp]: "div_zero_panics ideal_ext"
  by (simp add: div_zero_panics_def)

lemma ideal_ext_num_seconds [simp]: "num_seconds_truncates ideal_ext"
  by (simp add: num_seconds_truncates_def)

lemma exact_arithD [exact_dests]:
  assumes "exact_arith X" and "representable a" and "representable b"
  shows "representable (a + b) \<Longrightarrow> dec_add X a b = Some (a + b)"
    and "representable (a - b) \<Longrightarrow> dec_sub X a b = Some (a - b)"
    and "representable (a * b) \<Longrightarrow> dec_mul X a b = Some (a * b)"
    and "b \<noteq> 0 \<Longrightarrow> representable (a / b) \<Longrightarrow> dec_div X a b = Some (a / b)"
  using assms by (simp_all add: exact_arith_def)

subsection \<open>Decimal grids\<close>

text \<open>
  \<open>on_grid s B x\<close>: \<open>x\<close> is a multiple of \<open>10\<^sup>-\<^sup>s\<close> and \<open>\<bar>x\<bar> \<le> B / 10\<^sup>s\<close>. Quantities of one
  instrument share a lot size, prices a tick size; sums of grid values stay on the grid.
\<close>

definition on_grid :: "nat \<Rightarrow> int \<Rightarrow> decimal \<Rightarrow> bool" where
  "on_grid s B x \<longleftrightarrow> (\<exists>k::int. x = of_int k / 10 ^ s \<and> \<bar>k\<bar> \<le> B)"

lemma on_gridI: "x = of_int k / 10 ^ s \<Longrightarrow> \<bar>k\<bar> \<le> B \<Longrightarrow> on_grid s B x"
  by (auto simp: on_grid_def)

lemma on_gridE:
  assumes "on_grid s B x"
  obtains k where "x = of_int k / 10 ^ s" and "\<bar>k\<bar> \<le> B"
  using assms by (auto simp: on_grid_def)

lemma on_grid_mono: "on_grid s A x \<Longrightarrow> A \<le> B \<Longrightarrow> on_grid s B x"
  by (auto simp: on_grid_def)

lemma on_grid_zero [simp]: "0 \<le> B \<Longrightarrow> on_grid s B 0"
  by (rule on_gridI [where k = 0]) auto

lemma on_grid_add [grid_intros]:
  assumes "on_grid s A x" and "on_grid s B y"
  shows "on_grid s (A + B) (x + y)"
proof -
  from assms obtain k l where "x = of_int k / 10 ^ s" "\<bar>k\<bar> \<le> A" "y = of_int l / 10 ^ s" "\<bar>l\<bar> \<le> B"
    by (auto elim!: on_gridE)
  then show ?thesis by (intro on_gridI [where k = "k + l"]) (auto simp: add_divide_distrib)
qed

lemma on_grid_uminus [grid_intros]: "on_grid s B x \<Longrightarrow> on_grid s B (- x)"
  by (metis abs_minus_cancel minus_divide_left of_int_minus on_grid_def)

lemma on_grid_diff [grid_intros]:
  "on_grid s A x \<Longrightarrow> on_grid s B y \<Longrightarrow> on_grid s (A + B) (x - y)"
  using on_grid_add [of s A x B "- y"] on_grid_uminus by fastforce

lemma on_grid_le:
  assumes "on_grid s A x" and "\<bar>x\<bar> \<le> \<bar>y\<bar>" and "on_grid s B y"
  shows "on_grid s B x"
proof -
  from assms(1,3) obtain k l where k: "x = of_int k / 10 ^ s" and l: "y = of_int l / 10 ^ s" "\<bar>l\<bar> \<le> B"
    by (auto elim!: on_gridE)
  with assms(2) have "\<bar>of_int k\<bar> \<le> \<bar>of_int l :: rat\<bar>"
    by (simp add: divide_le_cancel)
  then have "\<bar>k\<bar> \<le> \<bar>l\<bar>" by linarith
  with k l show ?thesis by (intro on_gridI [where k = k]) auto
qed

lemma on_grid_half:
  assumes "on_grid s A x"
  shows "on_grid (Suc s) (5 * A) (x / 2)"
proof -
  from assms obtain k where "x = of_int k / 10 ^ s" "\<bar>k\<bar> \<le> A" by (elim on_gridE)
  then show ?thesis by (intro on_gridI [where k = "5 * k"]) (auto simp: field_simps)
qed

lemma on_grid_Suc:
  assumes "on_grid s A x"
  shows "on_grid (Suc s) (10 * A) x"
proof -
  from assms obtain k where "x = of_int k / 10 ^ s" "\<bar>k\<bar> \<le> A" by (elim on_gridE)
  then show ?thesis by (intro on_gridI [where k = "10 * k"]) auto
qed

lemma on_grid_mult [grid_intros]:
  assumes "on_grid s A x" and "on_grid t B y"
  shows "on_grid (s + t) (A * B) (x * y)"
proof -
  from assms obtain k l where k: "x = of_int k / 10 ^ s" "\<bar>k\<bar> \<le> A" "y = of_int l / 10 ^ t" "\<bar>l\<bar> \<le> B"
    by (auto elim!: on_gridE)
  then have "\<bar>k * l\<bar> \<le> A * B" by (simp add: abs_mult mult_mono)
  with k show ?thesis by (intro on_gridI [where k = "k * l"]) (auto simp: power_add)
qed

lemma on_grid_representable:
  "on_grid s B x \<Longrightarrow> s \<le> 28 \<Longrightarrow> B < 2 ^ 96 \<Longrightarrow> representable x"
  by (force simp: on_grid_def representable_def)

lemma representable_of_int: "\<bar>i\<bar> < 2 ^ 96 \<Longrightarrow> representable (of_int i)"
  by (rule on_grid_representable [of 0 "\<bar>i\<bar>"]) (auto intro!: on_gridI [where k = i])

lemma representable_numeral: "(numeral k :: int) < 2 ^ 96 \<Longrightarrow> representable (numeral k)"
  using representable_of_int [of "numeral k"] by simp

lemma representable_half: "representable (1 / 2)"
  by (rule on_grid_representable [of 1 5, OF on_gridI [where k = 5]]) simp_all

lemma representable_abs: "representable x \<Longrightarrow> representable \<bar>x\<bar>"
proof -
  assume "representable x"
  then obtain s m where "s \<le> 28" "\<bar>m\<bar> < 2 ^ 96" "x = of_int m / 10 ^ s"
    by (auto simp: representable_def)
  moreover from this have "\<bar>x\<bar> = of_int \<bar>m\<bar> / 10 ^ s" by simp
  ultimately show ?thesis unfolding representable_def by (metis abs_idempotent)
qed

lemma div_within_ideal [simp]: "div_within ideal_ext m 0"
  by (simp add: div_within_def)

subsection \<open>Checked sums\<close>

text \<open>\<open>iter().fold(init, |acc, x| acc + x)\<close> over decimals.\<close>

fun dec_sum :: "ext \<Rightarrow> decimal \<Rightarrow> decimal list \<Rightarrow> decimal option" where
  "dec_sum X acc [] = Some acc"
| "dec_sum X acc (x # xs) = do { a \<leftarrow> dec_add X acc x; dec_sum X a xs }"

lemma dec_sum_ideal [simp]: "dec_sum ideal_ext acc xs = Some (acc + sum_list xs)"
  by (induction xs arbitrary: acc) (simp_all add: add.assoc)

lemma dec_sum_append:
  "dec_sum X acc (xs @ ys) = do { a \<leftarrow> dec_sum X acc xs; dec_sum X a ys }"
  by (induction xs arbitrary: acc) (simp_all add: bind_assoc)

subsection \<open>Iterators\<close>

text \<open>
  \<open>Iterator::min_by\<close> returns the first of several minimal elements, \<open>Iterator::max_by\<close>
  the last of several maximal ones.
\<close>

fun min_by :: "('a \<Rightarrow> 'b::linorder) \<Rightarrow> 'a list \<Rightarrow> 'a option" where
  "min_by k [] = None"
| "min_by k (x # xs) = Some (fold (\<lambda>y best. if k y < k best then y else best) xs x)"

fun max_by :: "('a \<Rightarrow> 'b::linorder) \<Rightarrow> 'a list \<Rightarrow> 'a option" where
  "max_by k [] = None"
| "max_by k (x # xs) = Some (fold (\<lambda>y best. if k best \<le> k y then y else best) xs x)"

lemma fold_min_spec:
  "(let b = fold (\<lambda>y best. if k y < k best then y else best) xs x
    in b \<in> set (x # xs) \<and> (\<forall>y \<in> set (x # xs). k b \<le> (k y :: 'b::linorder)))"
  by (induction xs arbitrary: x) (fastforce simp: Let_def)+

lemma fold_max_spec:
  "(let b = fold (\<lambda>y best. if k best \<le> k y then y else best) xs x
    in b \<in> set (x # xs) \<and> (\<forall>y \<in> set (x # xs). (k y :: 'b::linorder) \<le> k b))"
  by (induction xs arbitrary: x) (fastforce simp: Let_def)+

lemma min_by_Some:
  assumes "min_by k xs = Some b"
  shows "b \<in> set xs" and "\<And>y. y \<in> set xs \<Longrightarrow> k b \<le> k y"
  using assms fold_min_spec [of k] by (cases xs; fastforce simp: Let_def)+

lemma max_by_Some:
  assumes "max_by k xs = Some b"
  shows "b \<in> set xs" and "\<And>y. y \<in> set xs \<Longrightarrow> k y \<le> k b"
  using assms fold_max_spec [of k] by (cases xs; fastforce simp: Let_def)+

lemma min_by_None [simp]: "min_by k xs = None \<longleftrightarrow> xs = []"
  by (cases xs) auto

lemma max_by_None [simp]: "max_by k xs = None \<longleftrightarrow> xs = []"
  by (cases xs) auto

subsection \<open>Fallible operations\<close>

text \<open>
  A fallible operation that may also panic has type \<open>('e + 'a) option\<close>: \<open>None\<close> is the panic,
  \<open>Inl\<close> the \<open>Err\<close>. \<open>try_then\<close> is the operator \<open>?\<close> followed by the rest of the function.
\<close>

definition try_then :: "('e + 'a) option \<Rightarrow> ('a \<Rightarrow> ('e + 'b) option) \<Rightarrow> ('e + 'b) option" where
  "try_then r f = (case r of
       None \<Rightarrow> None
     | Some (Inl e) \<Rightarrow> Some (Inl e)
     | Some (Inr x) \<Rightarrow> f x)"

lemma try_then_simps [simp]:
  "try_then None f = None"
  "try_then (Some (Inl e)) f = Some (Inl e)"
  "try_then (Some (Inr x)) f = f x"
  by (simp_all add: try_then_def)

lemma try_then_Inr:
  "try_then r f = Some (Inr y) \<longleftrightarrow> (\<exists>x. r = Some (Inr x) \<and> f x = Some (Inr y))"
  by (auto simp: try_then_def split: option.splits sum.splits)

lemma try_then_Inl:
  "try_then r f = Some (Inl e) \<longleftrightarrow> r = Some (Inl e) \<or> (\<exists>x. r = Some (Inr x) \<and> f x = Some (Inl e))"
  by (auto simp: try_then_def split: option.splits sum.splits)

lemma try_then_cong [fundef_cong]:
  "r = r' \<Longrightarrow> (\<And>x. r' = Some (Inr x) \<Longrightarrow> f x = g x) \<Longrightarrow> try_then r f = try_then r' g"
  by (auto simp: try_then_def split: option.splits sum.splits)

subsection \<open>The option monad\<close>

lemmas bind_Some_iff = Option.bind_eq_Some_conv

text \<open>Case distinctions on results under an existential, where a split rule does not apply.\<close>

lemma sum_case_iff:
  "(case r of Inl e \<Rightarrow> f e | Inr x \<Rightarrow> g x) = y \<longleftrightarrow>
   (\<exists>e. r = Inl e \<and> f e = y) \<or> (\<exists>x. r = Inr x \<and> g x = y)"
  by (cases r) auto

lemma option_case_iff:
  "(case r of None \<Rightarrow> d | Some x \<Rightarrow> f x) = y \<longleftrightarrow> r = None \<and> d = y \<or> (\<exists>x. r = Some x \<and> f x = y)"
  by (cases r) auto

lemma find_Some_mem: "List.find P xs = Some x \<Longrightarrow> x \<in> set xs \<and> P x"
  by (auto simp: find_Some_iff)

end
