(* ===== verification/Ids.thy ===== *)
theory Ids
  imports Prelude
begin

text \<open>
  Identifiers (\<open>src/crates/types/src/ids.rs\<close>): the newtype wrappers, the structured client
  order id with its parsers, the per-agent generator and the event sequence number, together
  with the string functions of Rust's standard library that they use. The lemmas show that
  the parsers invert the generator's format and that generated ids are distinct.
\<close>

subsection \<open>Strings of the standard library\<close>

definition digit_char :: "nat \<Rightarrow> char" where
  "digit_char d = char_of (48 + d)"

definition is_digit_char :: "char \<Rightarrow> bool" where
  "is_digit_char c \<longleftrightarrow> 48 \<le> (of_char c :: nat) \<and> (of_char c :: nat) \<le> 57"

definition digit_val :: "char \<Rightarrow> nat" where
  "digit_val c = of_char c - 48"

fun nat_str :: "nat \<Rightarrow> string" where
  "nat_str n = (if n < 10 then [digit_char n] else nat_str (n div 10) @ [digit_char (n mod 10)])"

declare nat_str.simps [simp del]

definition int_str :: "int \<Rightarrow> string" where
  "int_str i = (if i < 0 then CHR ''-'' # nat_str (nat (- i)) else nat_str (nat i))"

text \<open>\<open>{:0w}\<close>: pad with zeros on the left up to width \<open>w\<close>.\<close>

definition zero_pad :: "nat \<Rightarrow> string \<Rightarrow> string" where
  "zero_pad w s = replicate (w - length s) (CHR ''0'') @ s"

definition digits_val :: "string \<Rightarrow> nat" where
  "digits_val s = foldl (\<lambda>a c. 10 * a + digit_val c) 0 s"

text \<open>\<open>str::parse\<close> for an unsigned integer below \<open>bound\<close>: an optional plus sign, then digits.\<close>

definition parse_unsigned :: "nat \<Rightarrow> string \<Rightarrow> nat option" where
  "parse_unsigned bound s =
     (let ds = (case s of c # cs \<Rightarrow> if c = CHR ''+'' then cs else s | [] \<Rightarrow> [])
      in if ds \<noteq> [] \<and> list_all is_digit_char ds \<and> digits_val ds < bound
         then Some (digits_val ds) else None)"

text \<open>\<open>str::rsplit_once\<close>, \<open>str::rsplitn\<close> and \<open>str::strip_prefix\<close> with a character pattern.\<close>

definition rsplit_once :: "char \<Rightarrow> string \<Rightarrow> (string \<times> string) option" where
  "rsplit_once c s =
     (if c \<in> set s
      then Some (rev (tl (dropWhile (\<lambda>x. x \<noteq> c) (rev s))), rev (takeWhile (\<lambda>x. x \<noteq> c) (rev s)))
      else None)"

fun rsplitn :: "nat \<Rightarrow> char \<Rightarrow> string \<Rightarrow> string list" where
  "rsplitn 0 c s = []"
| "rsplitn (Suc 0) c s = [s]"
| "rsplitn (Suc (Suc n)) c s =
     (case rsplit_once c s of None \<Rightarrow> [s] | Some (p, t) \<Rightarrow> t # rsplitn (Suc n) c p)"

definition strip_prefix :: "char \<Rightarrow> string \<Rightarrow> string option" where
  "strip_prefix c s = (case s of [] \<Rightarrow> None | x # xs \<Rightarrow> if x = c then Some xs else None)"

subsection \<open>Identifier newtypes\<close>

datatype order_id = OrderId (order_id_str: string)
datatype venue_order_id = VenueOrderId (venue_order_id_str: string)
datatype agent_id = AgentId (agent_id_str: string)
datatype venue_id = VenueId (venue_id_str: string)
datatype account_id = AccountId (account_id_str: string)
datatype instrument_id = InstrumentId (instrument_id_str: string)
datatype market_id = MarketId (market_id_str: string)
datatype signal_id = SignalId (signal_id_str: string)
datatype message_id = MessageId (message_id_str: string)
datatype basket_id = BasketId (basket_id_str: string)
datatype client_order_id = ClientOrderId (client_order_id_str: string)

subsection \<open>Client order ids\<close>

definition split_suffix_parts :: "client_order_id \<Rightarrow> (string \<times> string \<times> string) option" where
  "split_suffix_parts i =
     (case rsplitn 3 (CHR ''-'') (client_order_id_str i) of
        restart # sequence # prefix # _ \<Rightarrow> Some (restart, sequence, prefix)
      | _ \<Rightarrow> None)"

definition parse_agent :: "client_order_id \<Rightarrow> agent_id option" where
  "parse_agent i = do {
     (_, _, prefix) \<leftarrow> split_suffix_parts i;
     (agent, _) \<leftarrow> rsplit_once (CHR ''-'') prefix;
     Some (AgentId agent) }"

definition parse_restart_epoch :: "client_order_id \<Rightarrow> u16 option" where
  "parse_restart_epoch i =
     (let last_part = (case rsplit_once (CHR ''-'') (client_order_id_str i) of
                         None \<Rightarrow> client_order_id_str i | Some (_, t) \<Rightarrow> t)
      in do { s \<leftarrow> strip_prefix (CHR ''r'') last_part;
              n \<leftarrow> parse_unsigned (2 ^ 16) s;
              Some (of_nat n) })"

definition parse_sequence :: "client_order_id \<Rightarrow> u64 option" where
  "parse_sequence i = do {
     (_, sequence, _) \<leftarrow> split_suffix_parts i;
     n \<leftarrow> parse_unsigned (2 ^ 64) sequence;
     Some (of_nat n) }"

record client_order_id_generator =
  agent_prefix :: string
  restart_epoch :: u16
  counter :: u64

definition with_start_seq :: "agent_id \<Rightarrow> u16 \<Rightarrow> u64 \<Rightarrow> client_order_id_generator" where
  "with_start_seq agent epoch start_seq =
     \<lparr>agent_prefix = agent_id_str agent, restart_epoch = epoch, counter = start_seq\<rparr>"

definition generator_new :: "agent_id \<Rightarrow> u16 \<Rightarrow> client_order_id_generator" where
  "generator_new agent epoch = with_start_seq agent epoch 0"

definition current_seq :: "client_order_id_generator \<Rightarrow> u64" where
  "current_seq g = counter g"

text \<open>The atomic counter wraps on overflow, as \<open>AtomicU64::fetch_add\<close> does.\<close>

definition generator_next ::
  "ext \<Rightarrow> client_order_id_generator \<Rightarrow> datetime \<Rightarrow> client_order_id \<times> client_order_id_generator"
where
  "generator_next X g now =
     (ClientOrderId (agent_prefix g @ ''-'' @ int_str (timestamp_millis X now) @ ''-'' @
        zero_pad 6 (nat_str (unat (counter g))) @ ''-r'' @
        zero_pad 2 (nat_str (unat (restart_epoch g)))),
      g\<lparr>counter := counter g + 1\<rparr>)"

text \<open>The ids a generator returns for a list of calls.\<close>

fun generator_run ::
  "ext \<Rightarrow> client_order_id_generator \<Rightarrow> datetime list \<Rightarrow> client_order_id list"
where
  "generator_run X g [] = []"
| "generator_run X g (t # ts) =
     (let (i, g') = generator_next X g t in i # generator_run X g' ts)"

subsection \<open>Sequence ids\<close>

type_synonym sequence_id = u64

definition seq_zero :: sequence_id where
  "seq_zero = 0"

definition seq_next :: "sequence_id \<Rightarrow> sequence_id" where
  "seq_next s = s + 1"

definition sequence_id_display :: "sequence_id \<Rightarrow> string" where
  "sequence_id_display s = ''seq:'' @ nat_str (unat s)"

subsection \<open>Facts about the string functions\<close>

lemma of_char_digit [simp]: "d < 10 \<Longrightarrow> (of_char (digit_char d) :: nat) = 48 + d"
  by (simp add: digit_char_def of_char_of take_bit_eq_mod)

lemma is_digit_digit [simp]: "d < 10 \<Longrightarrow> is_digit_char (digit_char d)"
  by (simp add: is_digit_char_def)

lemma digit_val_digit [simp]: "d < 10 \<Longrightarrow> digit_val (digit_char d) = d"
  by (simp add: digit_val_def)

lemma nat_str_digits: "list_all is_digit_char (nat_str n)"
proof (induction n rule: nat_str.induct)
  case (1 n)
  then show ?case by (cases "n < 10") (simp_all add: nat_str.simps [of n])
qed

lemma nat_str_nonempty [simp]: "nat_str n \<noteq> []"
  by (subst nat_str.simps) simp

lemma digits_val_append: "digits_val (s @ [c]) = 10 * digits_val s + digit_val c"
  by (simp add: digits_val_def)

lemma digits_val_nat_str [simp]: "digits_val (nat_str n) = n"
proof (induction n rule: nat_str.induct)
  case (1 n)
  show ?case
  proof (cases "n < 10")
    case True
    then show ?thesis by (simp add: nat_str.simps [of n] digits_val_def)
  next
    case False
    with 1 show ?thesis by (simp add: nat_str.simps [of n] digits_val_append)
  qed
qed

lemma foldl_zeros:
  "foldl (\<lambda>a c. 10 * a + digit_val c) 0 (replicate k (CHR ''0'')) = 0"
  by (induction k) (simp_all add: digit_val_def)

lemma digits_val_zero_pad [simp]: "digits_val (zero_pad w s) = digits_val s"
  by (simp add: digits_val_def zero_pad_def foldl_zeros)

lemma zero_pad_digits:
  "list_all is_digit_char s \<Longrightarrow> list_all is_digit_char (zero_pad w s)"
  by (auto simp: zero_pad_def list_all_iff is_digit_char_def)

lemma zero_pad_nonempty: "s \<noteq> [] \<Longrightarrow> zero_pad w s \<noteq> []"
  by (simp add: zero_pad_def)

lemma digit_not_special:
  assumes "is_digit_char c"
  shows "c \<noteq> CHR ''-''" and "c \<noteq> CHR ''+''"
  using assms by (auto simp: is_digit_char_def)

lemma digits_no_dash: "list_all is_digit_char s \<Longrightarrow> CHR ''-'' \<notin> set s"
  using digit_not_special by (auto simp: list_all_iff)

lemma parse_unsigned_digits:
  assumes "list_all is_digit_char s" and "s \<noteq> []" and "digits_val s < bound"
  shows "parse_unsigned bound s = Some (digits_val s)"
  using assms digit_not_special by (cases s) (auto simp: parse_unsigned_def)

lemma parse_zero_pad [simp]:
  "n < bound \<Longrightarrow> parse_unsigned bound (zero_pad w (nat_str n)) = Some n"
  by (subst parse_unsigned_digits)
     (simp_all add: zero_pad_digits nat_str_digits zero_pad_nonempty)

lemma rsplit_once_last:
  assumes "c \<notin> set t"
  shows "rsplit_once c (p @ c # t) = Some (p, t)"
proof -
  have "takeWhile (\<lambda>x. x \<noteq> c) (rev t @ c # rev p) = rev t"
    using assms by (subst takeWhile_append2) auto
  moreover have "dropWhile (\<lambda>x. x \<noteq> c) (rev t @ c # rev p) = c # rev p"
    using assms by (subst dropWhile_append2) auto
  ultimately show ?thesis by (simp add: rsplit_once_def)
qed

subsection \<open>The format and its parsers\<close>

lemma no_dash_zero_pad [simp]: "CHR ''-'' \<notin> set (zero_pad w (nat_str n))"
  by (intro digits_no_dash zero_pad_digits nat_str_digits)

lemma int_str_nonneg_no_dash: "0 \<le> i \<Longrightarrow> CHR ''-'' \<notin> set (int_str i)"
  by (simp add: int_str_def digits_no_dash nat_str_digits)

lemma split_suffix_parts_next:
  "split_suffix_parts (fst (generator_next X g now)) =
     Some (CHR ''r'' # zero_pad 2 (nat_str (unat (restart_epoch g))),
           zero_pad 6 (nat_str (unat (counter g))),
           agent_prefix g @ ''-'' @ int_str (timestamp_millis X now))"
proof -
  let ?m = "int_str (timestamp_millis X now)"
  let ?q = "zero_pad 6 (nat_str (unat (counter g)))"
  let ?r = "CHR ''r'' # zero_pad 2 (nat_str (unat (restart_epoch g)))"
  have 1: "rsplit_once (CHR ''-'') ((agent_prefix g @ ''-'' @ ?m @ ''-'' @ ?q) @ CHR ''-'' # ?r)
      = Some (agent_prefix g @ ''-'' @ ?m @ ''-'' @ ?q, ?r)"
    by (rule rsplit_once_last) simp
  have 2: "rsplit_once (CHR ''-'') ((agent_prefix g @ ''-'' @ ?m) @ CHR ''-'' # ?q)
      = Some (agent_prefix g @ ''-'' @ ?m, ?q)"
    by (rule rsplit_once_last) simp
  show ?thesis using 1 2
    by (simp add: split_suffix_parts_def generator_next_def numeral_3_eq_3)
qed

lemma parse_sequence_next: "parse_sequence (fst (generator_next X g now)) = Some (counter g)"
  using unsigned_less [of "counter g", where ?'a = nat]
  by (simp add: parse_sequence_def split_suffix_parts_next)

lemma parse_agent_next:
  assumes "0 \<le> timestamp_millis X now"
  shows "parse_agent (fst (generator_next X g now)) = Some (AgentId (agent_prefix g))"
  using rsplit_once_last [OF int_str_nonneg_no_dash [OF assms], of "agent_prefix g"]
  by (simp add: parse_agent_def split_suffix_parts_next)

lemma parse_restart_epoch_next:
  "parse_restart_epoch (fst (generator_next X g now)) = Some (restart_epoch g)"
proof -
  let ?p = "agent_prefix g @ ''-'' @ int_str (timestamp_millis X now) @ ''-'' @
     zero_pad 6 (nat_str (unat (counter g)))"
  let ?r = "CHR ''r'' # zero_pad 2 (nat_str (unat (restart_epoch g)))"
  have "rsplit_once (CHR ''-'') (?p @ CHR ''-'' # ?r) = Some (?p, ?r)"
    by (rule rsplit_once_last) simp
  then show ?thesis using unsigned_less [of "restart_epoch g", where ?'a = nat]
    by (simp add: parse_restart_epoch_def generator_next_def strip_prefix_def)
qed

lemma generator_next_snd [simp]:
  "counter (snd (generator_next X g now)) = counter g + 1"
  "agent_prefix (snd (generator_next X g now)) = agent_prefix g"
  "restart_epoch (snd (generator_next X g now)) = restart_epoch g"
  by (simp_all add: generator_next_def)

lemma generator_run_sequences:
  "map parse_sequence (generator_run X g ts)
     = map (\<lambda>k. Some (counter g + of_nat k)) [0..<length ts]"
proof (induction ts arbitrary: g)
  case Nil
  then show ?case by simp
next
  case (Cons t ts)
  have "map parse_sequence (generator_run X g (t # ts))
      = Some (counter g) # map (\<lambda>k. Some (counter g + 1 + of_nat k)) [0..<length ts]"
    using Cons [of "snd (generator_next X g t)"] parse_sequence_next [of X g t]
    by (simp add: case_prod_beta)
  also have "\<dots> = map (\<lambda>k. Some (counter g + of_nat k)) [0..<length (t # ts)]"
    by (simp add: upt_conv_Cons map_Suc_upt [symmetric] add.assoc del: upt_Suc)
  finally show ?case .
qed

subsection \<open>Properties\<close>

text \<open>
  C37: A generated client order id parses back to what it was built from: the agent (which
  may itself contain dashes), the sequence number and the restart epoch, for every instant
  at or after the Unix epoch.
\<close>

theorem client_order_id_roundtrip:
  assumes "0 \<le> timestamp_millis X now"
  shows "parse_agent (fst (generator_next X g now)) = Some (AgentId (agent_prefix g)) \<and>
    parse_sequence (fst (generator_next X g now)) = Some (counter g) \<and>
    parse_restart_epoch (fst (generator_next X g now)) = Some (restart_epoch g)"
  using assms by (simp add: parse_agent_next parse_sequence_next parse_restart_epoch_next)

theorem client_order_id_roundtrip_witness:
  "parse_agent (fst (generator_next ideal_ext (with_start_seq (AgentId ''a-b'') 3 41) 5000000))
     = Some (AgentId ''a-b'')"
  using client_order_id_roundtrip [of ideal_ext 5000000 "with_start_seq (AgentId ''a-b'') 3 41"]
  by (simp add: with_start_seq_def)

text \<open>
  The ids one generator hands out are pairwise distinct, whatever the clock says, as long
  as its 64-bit counter has not been exhausted.
\<close>

theorem client_order_ids_distinct:
  assumes "length ts \<le> 2 ^ 64"
  shows "distinct (generator_run X g ts)"
proof -
  have "inj_on (\<lambda>k. Some (counter g + of_nat k :: u64)) (set [0..<length ts])"
  proof (rule inj_onI)
    fix i j assume ij: "i \<in> set [0..<length ts]" "j \<in> set [0..<length ts]"
      and "Some (counter g + of_nat i :: u64) = Some (counter g + of_nat j)"
    then have "unat (of_nat i :: u64) = unat (of_nat j :: u64)" by simp
    with ij assms show "i = j" by (simp add: unat_of_nat)
  qed
  then have "distinct (map parse_sequence (generator_run X g ts))"
    by (simp add: generator_run_sequences distinct_map)
  then show ?thesis by (simp add: distinct_map)
qed

theorem client_order_ids_distinct_witness:
  "distinct (generator_run ideal_ext (generator_new (AgentId ''test'') 0) [7, 7, 7])"
  by (rule client_order_ids_distinct) simp

text \<open>
  Two generated ids are equal only if they come from the same agent, the same sequence
  number and the same restart epoch: agents never collide.
\<close>

theorem client_order_id_injective:
  assumes "fst (generator_next X g now) = fst (generator_next X h later)"
    and "0 \<le> timestamp_millis X now" and "0 \<le> timestamp_millis X later"
  shows "agent_prefix g = agent_prefix h \<and> counter g = counter h \<and>
    restart_epoch g = restart_epoch h"
  using assms parse_agent_next [of X now g] parse_agent_next [of X later h]
    parse_sequence_next [of X g now] parse_sequence_next [of X h later]
    parse_restart_epoch_next [of X g now] parse_restart_epoch_next [of X h later]
  by simp

theorem client_order_id_injective_witness:
  "fst (generator_next ideal_ext (generator_new (AgentId ''test'') 0) 1) =
     fst (generator_next ideal_ext (with_start_seq (AgentId ''test'') 0 0) 2) \<and>
   counter (generator_new (AgentId ''test'') 0) = counter (with_start_seq (AgentId ''test'') 0 0)"
proof -
  have eq: "fst (generator_next ideal_ext (generator_new (AgentId ''test'') 0) 1) =
      fst (generator_next ideal_ext (with_start_seq (AgentId ''test'') 0 0) 2)"
    by (simp add: generator_next_def generator_new_def with_start_seq_def)
  then show ?thesis using client_order_id_injective [OF eq] by simp
qed

text \<open>
  Before the Unix epoch the format is ambiguous: the sign of the timestamp is read as
  part of the agent's name, so \<open>parse_agent\<close> returns another agent.
\<close>

theorem parse_agent_before_epoch:
  assumes "timestamp_millis X now < 0"
  shows "parse_agent (fst (generator_next X g now)) = Some (AgentId (agent_prefix g @ ''-''))"
proof -
  let ?d = "nat_str (nat (- timestamp_millis X now))"
  have "rsplit_once (CHR ''-'') ((agent_prefix g @ ''-'') @ CHR ''-'' # ?d)
      = Some (agent_prefix g @ ''-'', ?d)"
    by (rule rsplit_once_last) (simp add: digits_no_dash nat_str_digits)
  with assms show ?thesis
    by (simp add: parse_agent_def split_suffix_parts_next int_str_def)
qed

theorem parse_agent_before_epoch_witness:
  "parse_agent (fst (generator_next ideal_ext (generator_new (AgentId ''a'') 0) (- 1)))
     = Some (AgentId ''a-'')"
  using parse_agent_before_epoch [of ideal_ext "- 1" "generator_new (AgentId ''a'') 0"]
  by (simp add: generator_new_def with_start_seq_def)

end
