(* ===== verification/Domain.thy ===== *)
theory Domain
  imports Ids
begin

text \<open>
  The passive data of the engine: signals (\<open>types/src/signal.rs\<close>), the firm book and its
  exposures (\<open>types/src/portfolio.rs\<close>), risk limits, violations and outcomes
  (\<open>types/src/risk.rs\<close>). One record per struct and one datatype per enum; a field carries a
  short prefix of its struct, because several structs share field names.
\<close>

subsection \<open>Signals\<close>

datatype side = Buy | Sell

datatype urgency = UrgencyLow | UrgencyNormal | UrgencyHigh | UrgencyImmediate

text \<open>\<open>sig_metadata\<close> is an uninterpreted JSON document, kept as its text.\<close>

record signal =
  sig_id :: signal_id
  sig_basket_id :: "basket_id option"
  sig_agent :: agent_id
  sig_instrument :: instrument_id
  sig_direction :: side
  sig_conviction :: decimal
  sig_sizing_hint :: "decimal option"
  sig_arb_type :: string
  sig_stop_loss :: decimal
  sig_take_profit :: "decimal option"
  sig_thesis :: string
  sig_urgency :: urgency
  sig_metadata :: string
  sig_created_at :: datetime

subsection \<open>Agent allocations and the firm book\<close>

datatype agent_status =
    AgentActive
  | AgentPaused (paused_reason: msg) (paused_since: datetime)
  | AgentDrawdownBreached
  | AgentHalted

fun agent_status_display :: "agent_status \<Rightarrow> string" where
  "agent_status_display AgentActive = ''active''"
| "agent_status_display (AgentPaused _ _) = ''paused''"
| "agent_status_display AgentDrawdownBreached = ''drawdown_breached''"
| "agent_status_display AgentHalted = ''halted''"

record agent_allocation =
  aa_allocated_capital :: decimal
  aa_used_capital :: decimal
  aa_free_capital :: decimal
  aa_realized_pnl :: decimal
  aa_unrealized_pnl :: decimal
  aa_current_drawdown :: decimal
  aa_max_drawdown_limit :: decimal
  aa_status :: agent_status

record venue_exposure =
  ve_venue :: venue_id
  ve_account :: account_id
  ve_net_qty :: decimal
  ve_notional_usd :: decimal

record agent_exposure =
  ae_agent :: agent_id
  ae_net_qty :: decimal
  ae_notional_usd :: decimal
  ae_pnl :: decimal

record instrument_exposure =
  ie_instrument :: instrument_id
  ie_net_qty :: decimal
  ie_gross_qty :: decimal
  ie_net_notional_usd :: decimal
  ie_gross_notional_usd :: decimal
  ie_by_venue :: "venue_exposure list"
  ie_by_agent :: "agent_exposure list"

record prediction_exposure_summary =
  pe_total_notional :: decimal
  pe_pct_of_nav :: decimal
  pe_unresolved_markets :: u32

record firm_book =
  fb_nav :: decimal
  fb_gross_notional :: decimal
  fb_net_notional :: decimal
  fb_realized_pnl :: decimal
  fb_unrealized_pnl :: decimal
  fb_daily_pnl :: decimal
  fb_hourly_pnl :: decimal
  fb_current_drawdown_pct :: decimal
  fb_allocated_capital :: decimal
  fb_cash_available :: decimal
  fb_total_fees_paid :: decimal
  fb_agent_allocations :: "agent_id \<rightharpoonup> agent_allocation"
  fb_instruments :: "instrument_exposure list"
  fb_prediction_exposure :: prediction_exposure_summary
  fb_as_of :: datetime

record tracked_position =
  tp_agent :: agent_id
  tp_venue :: venue_id
  tp_account :: account_id
  tp_instrument :: instrument_id
  tp_qty :: decimal
  tp_avg_entry_price :: decimal
  tp_unrealized_pnl :: decimal
  tp_realized_pnl :: decimal
  tp_total_fees_paid :: decimal
  tp_accumulated_funding :: decimal
  tp_fill_ids :: "(order_id \<times> u64) list"
  tp_signal_ids :: "signal_id list"
  tp_opened_at :: datetime
  tp_last_fill_at :: datetime

datatype resolution_status = ResolutionOpen | Resolved string datetime | Disputed | Voided

record prediction_tracker =
  pt_market_id :: string
  pt_position_qty :: decimal
  pt_entry_price :: decimal
  pt_resolution_status :: resolution_status
  pt_pnl :: "decimal option"

subsection \<open>Risk limits\<close>

record agent_risk_limits =
  al_allocated_capital :: decimal
  al_max_position_notional :: decimal
  al_max_gross_notional :: decimal
  al_max_drawdown_pct :: decimal
  al_max_daily_loss :: decimal
  al_max_open_orders :: u32
  al_allowed_instruments :: "instrument_id list option"
  al_allowed_venues :: "venue_id list option"

record instrument_risk_limits =
  il_instrument :: instrument_id
  il_max_net_qty :: decimal
  il_max_gross_qty :: decimal
  il_max_concentration_pct :: decimal
  il_max_leverage :: decimal

record venue_risk_limits =
  vl_venue :: venue_id
  vl_max_notional :: decimal
  vl_max_positions :: u32
  vl_max_pct_of_nav :: decimal

record prediction_market_limits =
  pl_max_total_notional :: decimal
  pl_max_per_market_notional :: decimal
  pl_max_pct_of_nav :: decimal
  pl_max_unresolved_markets :: u32

record firm_risk_limits =
  fl_max_gross_notional :: decimal
  fl_max_net_notional :: decimal
  fl_max_drawdown_pct :: decimal
  fl_max_daily_loss :: decimal
  fl_max_open_orders :: u32

record risk_limits =
  rl_firm :: firm_risk_limits
  rl_per_agent :: "agent_id \<rightharpoonup> agent_risk_limits"
  rl_per_instrument :: "instrument_id \<rightharpoonup> instrument_risk_limits"
  rl_per_venue :: "venue_id \<rightharpoonup> venue_risk_limits"
  rl_prediction_market :: prediction_market_limits

subsection \<open>Risk violations and outcomes\<close>

datatype violation_type = Hard | Soft

record risk_violation =
  rv_check_name :: string
  rv_violation_type :: violation_type
  rv_current_value :: msg
  rv_limit :: msg
  rv_suggested_action :: msg

datatype risk_outcome =
    Approved (approved_warnings: "risk_violation list")
  | Resized (resized_qty: decimal) (resized_reason: msg) (resized_warnings: "risk_violation list")
  | Rejected (rejected_violations: "risk_violation list")

record risk_check_result =
  rc_check_name :: string
  rc_passed :: bool
  rc_message :: "msg option"

end
