(* ===== verification/Order_Lifecycle.thy ===== *)
theory Order_Lifecycle
  imports Pipeline
begin

text \<open>
  The life of a live order: the venue events as one step function, the states reachable from
  a routed order, and what holds in all of them. Terminal states absorb every event; the
  fills add up to the filled quantity, which together with the remaining quantity is the
  order's quantity; the venue state agrees with the books.
\<close>

datatype order_event =
    EvAccepted venue_order_id
  | EvTriggered
  | EvFill fill
  | EvCancel cancel_reason
  | EvReject msg
  | EvExpire

fun apply_event ::
  "ext \<Rightarrow> live_order \<Rightarrow> order_event \<Rightarrow> datetime \<Rightarrow> (venue_state_error + live_order) option"
where
  "apply_event X lo (EvAccepted v) now = Some (on_accepted lo v now)"
| "apply_event X lo EvTriggered now = Some (on_triggered lo now)"
| "apply_event X lo (EvFill f) now = on_fill X lo f now"
| "apply_event X lo (EvCancel r) now = on_cancel X lo r now"
| "apply_event X lo (EvReject r) now = Some (on_reject lo r now)"
| "apply_event X lo EvExpire now = on_expire X lo now"

inductive reachable_order :: "ext \<Rightarrow> routed pipeline_order \<Rightarrow> live_order \<Rightarrow> bool" for X r where
  submitted: "reachable_order X r (live_from_routed r now)"
| event: "reachable_order X r lo \<Longrightarrow> apply_event X lo ev now = Some (Inr lo') \<Longrightarrow>
    reachable_order X r lo'"

text \<open>What the books of an order must satisfy, for an order quantity \<open>q\<close>.\<close>

definition books_balance :: "decimal \<Rightarrow> live_order \<Rightarrow> bool" where
  "books_balance q lo \<longleftrightarrow>
     lo_filled_qty lo = sum_list (map fi_qty (lo_fills lo)) \<and>
     lo_filled_qty lo + lo_remaining_qty lo = q \<and>
     0 \<le> lo_filled_qty lo \<and> 0 \<le> lo_remaining_qty lo"

definition summary_agrees :: "live_order \<Rightarrow> fill_summary \<Rightarrow> bool" where
  "summary_agrees lo sm \<longleftrightarrow>
     fs_filled_qty sm = lo_filled_qty lo \<and> fs_remaining_qty sm = lo_remaining_qty lo \<and>
     fs_fill_count sm = of_nat (length (lo_fills lo)) \<and>
     fs_avg_fill_price sm = unwrap_or (lo_avg_fill_price lo) 0"

definition state_matches :: "live_order \<Rightarrow> bool" where
  "state_matches lo \<longleftrightarrow> (case lo_venue_state lo of
       PartiallyFilled sm \<Rightarrow> lo_fills lo \<noteq> [] \<and> 0 < lo_remaining_qty lo \<and> summary_agrees lo sm
     | Filled sm _ \<Rightarrow> lo_fills lo \<noteq> [] \<and> lo_remaining_qty lo \<le> 0 \<and> summary_agrees lo sm
     | Cancelled _ sm _ \<Rightarrow>
         (lo_fills lo \<noteq> [] \<longrightarrow> 0 < lo_remaining_qty lo) \<and> summary_agrees lo sm
     | Expired sm _ \<Rightarrow> lo_fills lo = [] \<and> summary_agrees lo sm
     | _ \<Rightarrow> lo_fills lo = [])"

text \<open>A concrete order, partially filled; the witnesses below run on it.\<close>

definition example_core :: order_core where
  "example_core = \<lparr>oc_id = OrderId ''ord-1'', oc_basket_id = None, oc_agent_id = AgentId ''satoshi'',
     oc_instrument_id = InstrumentId ''BTCUSDT'', oc_market_id = MarketId ''BTCUSDT'',
     oc_venue_id = VenueId ''bybit'', oc_side = Buy, oc_order_type = Limit,
     oc_time_in_force = GTC, oc_qty = 1, oc_price = Some 65000, oc_trigger_price = None,
     oc_stop_loss = Some 60000, oc_take_profit = Some 70000, oc_post_only = False,
     oc_reduce_only = False, oc_dry_run = True, oc_exec_hint = exec_hint_default,
     oc_created_at = 0\<rparr>"

definition example_stamp :: risk_approval_stamp where
  "example_stamp = \<lparr>ra_approved_at = 0, ra_checks_performed = [], ra_warnings = []\<rparr>"

definition example_routing :: routing_assignment where
  "example_routing = \<lparr>rt_venue_id = VenueId ''bybit'',
     rt_client_order_id = ClientOrderId ''satoshi-123-000000-r00'', rt_routed_at = 0\<rparr>"

definition example_routed :: "routed pipeline_order" where
  "example_routed =
     into_routed (into_risk_checked (into_validated (pipeline_new example_core) 0) example_stamp)
       example_routing"

definition example_fill :: fill where
  "example_fill = \<lparr>fi_order_id = OrderId ''ord-1'', fi_venue_order_id = VenueOrderId ''v-1'',
     fi_instrument_id = InstrumentId ''BTCUSDT'', fi_side = Buy, fi_qty = 1 / 2, fi_price = 65000,
     fi_fee = 13 / 100, fi_filled_at = 0, fi_is_maker = True\<rparr>"

definition example_partial :: live_order where
  "example_partial =
     (let a = projr (on_accepted (live_from_routed example_routed 0) (VenueOrderId ''v-1'') 1)
      in projr (the (on_fill ideal_ext a example_fill 2)))"

subsection \<open>The transition table\<close>

lemma try_transition_Inr:
  "try_transition a b = Inr c \<longleftrightarrow> valid_transition a b \<and> c = b"
  by (auto simp: try_transition_def)

lemma try_transition_Inl:
  "try_transition a b = Inl e \<longleftrightarrow> \<not> valid_transition a b \<and> e = InvalidTransition a b"
  by (auto simp: try_transition_def)

lemma terminal_no_transition: "is_terminal a \<Longrightarrow> \<not> valid_transition a b"
  by (cases a; cases b) (simp_all add: is_terminal_def valid_transition_def)

lemma fill_needs_live:
  "valid_transition a (PartiallyFilled sm) \<longleftrightarrow> is_live a"
  "valid_transition a (Filled sm t) \<longleftrightarrow> is_live a"
  by (cases a; simp add: is_live_def valid_transition_def)+

lemma live_not_terminal: "is_live a \<Longrightarrow> \<not> is_terminal a"
  by (cases a) (simp_all add: is_live_def is_terminal_def)

subsection \<open>The handlers\<close>

lemma on_accepted_Inr:
  "on_accepted lo v now = Inr lo' \<longleftrightarrow>
     valid_transition (lo_venue_state lo) (Accepted now) \<and>
     lo' = lo\<lparr>lo_venue_state := Accepted now, lo_venue_order_id := Some v, lo_last_updated := now\<rparr>"
  by (auto simp: on_accepted_def try_transition_def)

lemma on_triggered_Inr:
  "on_triggered lo now = Inr lo' \<longleftrightarrow>
     valid_transition (lo_venue_state lo) (Triggered now) \<and>
     lo' = lo\<lparr>lo_venue_state := Triggered now, lo_last_updated := now\<rparr>"
  by (auto simp: on_triggered_def try_transition_def)

lemma on_reject_Inr:
  "on_reject lo r now = Inr lo' \<longleftrightarrow>
     valid_transition (lo_venue_state lo) (VenueRejected r now) \<and>
     lo' = lo\<lparr>lo_venue_state := VenueRejected r now, lo_last_updated := now\<rparr>"
  by (auto simp: on_reject_def try_transition_def)

lemma live_fill_summary_agrees: "live_fill_summary X lo = Some sm \<Longrightarrow> summary_agrees lo sm"
  by (auto simp: live_fill_summary_def summary_agrees_def bind_Some_iff)

lemma on_cancel_Inr:
  assumes "on_cancel X lo r now = Some (Inr lo')"
  obtains sm where "live_fill_summary X lo = Some sm"
    and "valid_transition (lo_venue_state lo) (Cancelled r sm now)"
    and "lo' = lo\<lparr>lo_venue_state := Cancelled r sm now, lo_last_updated := now\<rparr>"
  using assms by (auto simp: on_cancel_def bind_Some_iff try_transition_def split: if_splits)

lemma on_expire_Inr:
  assumes "on_expire X lo now = Some (Inr lo')"
  obtains sm where "live_fill_summary X lo = Some sm"
    and "valid_transition (lo_venue_state lo) (Expired sm now)"
    and "lo' = lo\<lparr>lo_venue_state := Expired sm now, lo_last_updated := now\<rparr>"
  using assms by (auto simp: on_expire_def bind_Some_iff try_transition_def split: if_splits)

lemma on_fill_Inr:
  assumes "on_fill X lo f now = Some (Inr lo')"
  obtains nf nr avg fee sm st where
    "0 < fi_qty f" and "fi_qty f \<le> lo_remaining_qty lo"
    and "dec_add X (lo_filled_qty lo) (fi_qty f) = Some nf"
    and "dec_sub X (lo_remaining_qty lo) (fi_qty f) = Some nr"
    and "sm = \<lparr>fs_filled_qty = nf, fs_remaining_qty = nr, fs_avg_fill_price = avg,
               fs_total_fee = fee, fs_fill_count = of_nat (length (lo_fills lo) + 1)\<rparr>"
    and "st = (if nr \<le> 0 then Filled sm now else PartiallyFilled sm)"
    and "is_live (lo_venue_state lo)"
    and "lo' = lo\<lparr>lo_venue_state := st, lo_filled_qty := nf, lo_remaining_qty := nr,
                  lo_avg_fill_price := Some avg, lo_fills := lo_fills lo @ [f],
                  lo_last_updated := now\<rparr>"
proof -
  from assms have q: "0 < fi_qty f" "fi_qty f \<le> lo_remaining_qty lo"
    by (auto simp: on_fill_def split: if_splits)
  with assms obtain nf nr n1 n2 n3 avg fee where
      "dec_add X (lo_filled_qty lo) (fi_qty f) = Some nf"
      "dec_sub X (lo_remaining_qty lo) (fi_qty f) = Some nr"
      "dec_mul X (unwrap_or (lo_avg_fill_price lo) 0) (lo_filled_qty lo) = Some n1"
      "dec_mul X (fi_price f) (fi_qty f) = Some n2"
      "dec_add X n1 n2 = Some n3"
      "(if nf > 0 then dec_div X n3 nf else Some 0) = Some avg"
      "dec_sum X (fi_fee f) (map fi_fee (lo_fills lo)) = Some fee"
    by (auto simp: on_fill_def bind_Some_iff)
  with assms q show thesis
    by (intro that [of nf nr _ avg fee])
      (auto simp: on_fill_def Let_def try_transition_def fill_needs_live split: if_splits)
qed

lemma apply_event_terminal:
  assumes "is_terminal (lo_venue_state lo)"
  shows "apply_event X lo ev now \<noteq> Some (Inr lo')"
proof
  assume "apply_event X lo ev now = Some (Inr lo')"
  then show False using assms
    by (cases ev)
      (auto simp: on_accepted_Inr on_triggered_Inr on_reject_Inr terminal_no_transition
        dest: live_not_terminal elim!: on_fill_Inr on_cancel_Inr on_expire_Inr)
qed

lemma apply_event_core:
  assumes "apply_event X lo ev now = Some (Inr lo')"
  shows "lo_core lo' = lo_core lo \<and> lo_client_order_id lo' = lo_client_order_id lo \<and>
    lo_risk_approval lo' = lo_risk_approval lo \<and> set (lo_fills lo) \<subseteq> set (lo_fills lo')"
  using assms
  by (cases ev)
    (auto simp: on_accepted_Inr on_triggered_Inr on_reject_Inr
      elim!: on_fill_Inr on_cancel_Inr on_expire_Inr)

subsection \<open>Invariants of reachable orders\<close>

lemma reachable_core:
  "reachable_order X r lo \<Longrightarrow> lo_core lo = po_core r"
  by (induction rule: reachable_order.induct)
    (auto simp: live_from_routed_def dest: apply_event_core)

lemma state_matches_event:
  assumes "apply_event X lo ev now = Some (Inr lo')" and "state_matches lo"
  shows "state_matches lo'"
proof (cases ev)
  case (EvFill f)
  with assms(1) show ?thesis
    by (auto simp: state_matches_def summary_agrees_def unwrap_or_def elim!: on_fill_Inr)
next
  case (EvCancel r)
  with assms(1) obtain sm where "live_fill_summary X lo = Some sm"
      and v: "valid_transition (lo_venue_state lo) (Cancelled r sm now)"
      and lo': "lo' = lo\<lparr>lo_venue_state := Cancelled r sm now, lo_last_updated := now\<rparr>"
    by (auto elim: on_cancel_Inr)
  then have "summary_agrees lo' sm" by (auto dest: live_fill_summary_agrees simp: summary_agrees_def)
  with v lo' assms(2) show ?thesis
    by (cases "lo_venue_state lo") (auto simp: state_matches_def valid_transition_def)
next
  case EvExpire
  with assms(1) obtain sm where "live_fill_summary X lo = Some sm"
      and v: "valid_transition (lo_venue_state lo) (Expired sm now)"
      and lo': "lo' = lo\<lparr>lo_venue_state := Expired sm now, lo_last_updated := now\<rparr>"
    by (auto elim: on_expire_Inr)
  then have "summary_agrees lo' sm" by (auto dest: live_fill_summary_agrees simp: summary_agrees_def)
  with v lo' assms(2) show ?thesis
    by (cases "lo_venue_state lo") (auto simp: state_matches_def valid_transition_def)
qed (use assms in \<open>cases "lo_venue_state lo";
       auto simp: on_accepted_Inr on_triggered_Inr on_reject_Inr state_matches_def valid_transition_def\<close>)+

lemma reachable_state_matches: "reachable_order X r lo \<Longrightarrow> state_matches lo"
proof (induction rule: reachable_order.induct)
  case (submitted now)
  then show ?case by (simp add: live_from_routed_def state_matches_def)
next
  case (event lo ev now lo')
  then show ?case by (blast intro: state_matches_event)
qed

text \<open>One fill on the grid keeps the books balanced.\<close>

lemma books_balance_fill:
  assumes X: "exact_arith X" and g: "s \<le> 28" "B < 2 ^ 96" "on_grid s B q"
    and b: "books_balance q lo" and gr: "on_grid s B (lo_filled_qty lo)"
    and f: "on_grid s B (fi_qty f)" and ok: "on_fill X lo f now = Some (Inr lo')"
  shows "books_balance q lo' \<and> on_grid s B (lo_filled_qty lo')"
proof -
  let ?F = "lo_filled_qty lo" and ?R = "lo_remaining_qty lo" and ?q = "fi_qty f"
  from ok have qf: "0 < ?q" "?q \<le> ?R" by (auto elim: on_fill_Inr)
  from b have FR: "?F + ?R = q" "0 \<le> ?F" "0 \<le> ?R" by (auto simp: books_balance_def)
  have gF: "on_grid s B (?F + ?q)"
    by (rule on_grid_le [OF on_grid_add [OF gr f] _ g(3)]) (use FR qf in auto)
  have "?R = q - ?F" using FR by simp
  then have gR: "on_grid s B ?R"
    by (metis FR abs_of_nonneg add_increasing2 g(3) gr le_add_same_cancel2 on_grid_diff on_grid_le)
  have gR': "on_grid s B (?R - ?q)"
    by (rule on_grid_le [OF on_grid_diff [OF gR f] _ gR]) (use qf in auto)
  note rep = on_grid_representable [OF _ g(1,2)]
  have add: "dec_add X ?F ?q = Some (?F + ?q)"
    using exact_arithD(1) [OF X rep [OF gr] rep [OF f] rep [OF gF]] .
  have sub: "dec_sub X ?R ?q = Some (?R - ?q)"
    using exact_arithD(2) [OF X rep [OF gR] rep [OF f] rep [OF gR']] .
  from ok add sub have eq: "lo_filled_qty lo' = ?F + ?q" "lo_remaining_qty lo' = ?R - ?q"
      "lo_fills lo' = lo_fills lo @ [f]"
    by (auto elim!: on_fill_Inr)
  with gF b qf show ?thesis by (simp add: books_balance_def)
qed

lemma books_balance_other:
  assumes "apply_event X lo ev now = Some (Inr lo')" and "\<nexists>f. ev = EvFill f"
  shows "lo_filled_qty lo' = lo_filled_qty lo \<and> lo_remaining_qty lo' = lo_remaining_qty lo \<and>
    lo_fills lo' = lo_fills lo"
  using assms
  by (cases ev) (auto simp: on_accepted_Inr on_triggered_Inr on_reject_Inr
      elim!: on_cancel_Inr on_expire_Inr)

lemma reachable_books_balance:
  assumes "reachable_order X r lo" and X: "exact_arith X"
    and g: "s \<le> 28" "B < 2 ^ 96" "on_grid s B q" and q: "q = oc_qty (po_core r)" "0 \<le> q"
    and "\<forall>f \<in> set (lo_fills lo). on_grid s B (fi_qty f)"
  shows "books_balance q lo \<and> on_grid s B (lo_filled_qty lo)"
  using assms(1) assms(8)
proof (induction rule: reachable_order.induct)
  case (submitted now)
  have "0 \<le> B" using g(3) by (auto elim: on_gridE)
  with q show ?case by (simp add: live_from_routed_def books_balance_def)
next
  case (event lo ev now lo')
  have "\<forall>f \<in> set (lo_fills lo). on_grid s B (fi_qty f)"
    using event apply_event_core by blast
  then have IH: "books_balance q lo" "on_grid s B (lo_filled_qty lo)" using event by auto
  show ?case
  proof (cases "\<exists>f. ev = EvFill f")
    case True
    then obtain f where ev: "ev = EvFill f" by blast
    with event have ok: "on_fill X lo f now = Some (Inr lo')" by simp
    then have "f \<in> set (lo_fills lo')" by (auto elim: on_fill_Inr)
    with event have "on_grid s B (fi_qty f)" by blast
    then show ?thesis using books_balance_fill [OF X g IH _ ok] by blast
  next
    case False
    with books_balance_other [OF event(2)] IH show ?thesis by (simp add: books_balance_def)
  qed
qed

subsection \<open>Properties\<close>

text \<open>
  C8: In every state a live order can reach, with fills and order quantity on a common lot
  grid, the filled quantity is the sum of the fills, filled and remaining quantity add up to
  the order's quantity, nothing is overfilled, and the venue state is \<open>Filled\<close> exactly when
  nothing remains.
\<close>

theorem live_order_conservation:
  assumes "reachable_order X r lo" and "exact_arith X" and "s \<le> 28" and "B < 2 ^ 96"
    and "on_grid s B (oc_qty (po_core r))" and "0 < oc_qty (po_core r)"
    and "\<forall>f \<in> set (lo_fills lo). on_grid s B (fi_qty f)"
  shows "lo_filled_qty lo = sum_list (map fi_qty (lo_fills lo)) \<and>
    lo_filled_qty lo + lo_remaining_qty lo = oc_qty (po_core r) \<and>
    0 \<le> lo_remaining_qty lo \<and>
    ((\<exists>sm t. lo_venue_state lo = Filled sm t) \<longleftrightarrow> lo_remaining_qty lo = 0)"
proof -
  have b: "books_balance (oc_qty (po_core r)) lo"
    using reachable_books_balance [OF assms(1-5) refl _ assms(7)] assms(6) by simp
  have m: "state_matches lo" using assms(1) by (rule reachable_state_matches)
  have "lo_remaining_qty lo = 0 \<Longrightarrow> lo_fills lo \<noteq> []"
    using b assms(6) by (auto simp: books_balance_def)
  with b m have "(\<exists>sm t. lo_venue_state lo = Filled sm t) \<longleftrightarrow> lo_remaining_qty lo = 0"
    by (cases "lo_venue_state lo") (auto simp: books_balance_def state_matches_def)
  with b show ?thesis by (simp add: books_balance_def)
qed

lemmas example_defs = example_core_def example_stamp_def example_routing_def example_routed_def
  example_fill_def

lemma example_partial_reachable: "reachable_order ideal_ext example_routed example_partial"
proof -
  let ?a = "projr (on_accepted (live_from_routed example_routed 0) (VenueOrderId ''v-1'') 1)"
  have 1: "apply_event ideal_ext (live_from_routed example_routed 0)
      (EvAccepted (VenueOrderId ''v-1'')) 1 = Some (Inr ?a)"
    by (simp add: on_accepted_def try_transition_def valid_transition_def live_from_routed_def)
  have a: "?a = (live_from_routed example_routed 0)\<lparr>lo_venue_state := Accepted 1,
      lo_venue_order_id := Some (VenueOrderId ''v-1''), lo_last_updated := 1\<rparr>"
    by (simp add: on_accepted_def try_transition_def valid_transition_def live_from_routed_def)
  have 2: "apply_event ideal_ext ?a (EvFill example_fill) 2 = Some (Inr example_partial)"
    unfolding example_partial_def Let_def a
    by (simp add: on_fill_def try_transition_def valid_transition_def live_from_routed_def
        example_defs pipeline_new_def into_validated_def into_risk_checked_def into_routed_def
        unwrap_or_def Let_def)
  show ?thesis
    by (rule reachable_order.event [OF reachable_order.event [OF reachable_order.submitted 1] 2])
qed

lemma example_routed_core: "po_core example_routed = example_core"
  by (simp add: example_routed_def into_routed_def into_risk_checked_def into_validated_def
      pipeline_new_def)

lemma example_partial_books:
  "lo_fills example_partial = [example_fill]" "lo_filled_qty example_partial = 1 / 2"
  "lo_remaining_qty example_partial = 1 / 2"
  by (simp_all add: example_partial_def on_accepted_def on_fill_def try_transition_def
      valid_transition_def live_from_routed_def example_defs pipeline_new_def into_validated_def
      into_risk_checked_def into_routed_def unwrap_or_def Let_def)

theorem live_order_conservation_witness:
  "lo_filled_qty example_partial = sum_list (map fi_qty (lo_fills example_partial)) \<and>
   lo_filled_qty example_partial + lo_remaining_qty example_partial = 1 \<and>
   \<not> (\<exists>sm t. lo_venue_state example_partial = Filled sm t)"
proof -
  have g: "on_grid 1 10 (oc_qty (po_core example_routed))"
    unfolding example_routed_core by (rule on_gridI [where k = 10]) (simp_all add: example_core_def)
  have f: "\<forall>f \<in> set (lo_fills example_partial). on_grid 1 10 (fi_qty f)"
    by (auto simp: example_partial_books example_fill_def intro: on_gridI [where k = 5])
  have q: "0 < oc_qty (po_core example_routed)"
    by (simp add: example_routed_core example_core_def)
  show ?thesis
    using live_order_conservation [OF example_partial_reachable _ _ _ g q f]
    by (simp add: example_routed_core example_core_def example_partial_books)
qed

text \<open>
  C32: A terminal venue state absorbs every event: no acceptance, trigger, fill, cancel,
  rejection or expiry is applied to an order that is filled, rejected, cancelled or expired.
\<close>

theorem terminal_state_absorbs:
  assumes "is_terminal (lo_venue_state lo)"
  shows "apply_event X lo ev now \<noteq> Some (Inr lo')"
  using assms by (rule apply_event_terminal)

theorem terminal_state_absorbs_witness:
  "apply_event ideal_ext
     ((live_from_routed example_routed 0)\<lparr>lo_venue_state := VenueRejected [] 1\<rparr>)
     (EvFill example_fill) 2 \<noteq> Some (Inr example_partial)"
  by (rule terminal_state_absorbs) (simp add: is_terminal_def)

text \<open>
  C33: The data an order was drafted with, the risk approval stamped on it and the client
  order id it was routed with are those of every live order it becomes: no stage transition
  and no venue event changes them.
\<close>

theorem pipeline_preserves_order:
  assumes "reachable_order X
    (into_routed (into_risk_checked (into_validated (pipeline_new core) t) approval) routing) lo"
  shows "lo_core lo = core \<and> lo_risk_approval lo = approval \<and>
    lo_client_order_id lo = rt_client_order_id routing"
  using assms
  by (induction rule: reachable_order.induct)
    (auto simp: live_from_routed_def into_routed_def into_risk_checked_def into_validated_def
      pipeline_new_def routed_client_order_id_def dest: apply_event_core)

theorem pipeline_preserves_order_witness:
  "lo_core example_partial = example_core \<and> lo_risk_approval example_partial = example_stamp"
  using pipeline_preserves_order [OF example_partial_reachable [unfolded example_routed_def]]
  by simp

text \<open>
  A partially filled order cannot expire: \<open>on_expire\<close> returns an invalid-transition
  error, although the transition diagram of \<open>docs/DATA_MODEL.md\<close> lists
  \<open>PartiallyFilled \<rightarrow> Expired\<close> with its partial fills preserved.
\<close>

theorem partially_filled_cannot_expire:
  assumes "lo_venue_state lo = PartiallyFilled sm" and "live_fill_summary X lo = Some sm'"
  shows "on_expire X lo now =
    Some (Inl (InvalidTransition (PartiallyFilled sm) (Expired sm' now)))"
  using assms by (simp add: on_expire_def try_transition_def valid_transition_def)

theorem partially_filled_cannot_expire_witness:
  "\<exists>sm sm'. on_expire ideal_ext example_partial 3 =
     Some (Inl (InvalidTransition (PartiallyFilled sm) (Expired sm' 3)))"
proof -
  obtain sm where s: "lo_venue_state example_partial = PartiallyFilled sm"
    by (simp add: example_partial_def on_accepted_def on_fill_def try_transition_def
        valid_transition_def live_from_routed_def example_defs pipeline_new_def into_validated_def
        into_risk_checked_def into_routed_def unwrap_or_def Let_def)
  obtain sm' where "live_fill_summary ideal_ext example_partial = Some sm'"
    by (simp add: live_fill_summary_def)
  from partially_filled_cannot_expire [OF s this] show ?thesis by blast
qed

end
