(* ===== verification/Venue_Health.thy ===== *)
theory Venue_Health
  imports Ids
begin

text \<open>
  Time sources (\<open>types/src/clock.rs\<close>), venue connection health (\<open>types/src/venue.rs\<close>) and
  subsystem health with the derived status of the engine (\<open>types/src/health.rs\<close>). The lemmas
  show that a simulated clock never runs backwards and characterise the derived status.
\<close>

subsection \<open>The simulated clock\<close>

text \<open>
  The clock stores epoch milliseconds in an \<open>AtomicI64\<close>; \<open>fetch_add\<close> wraps. A failed
  assertion is the panic \<open>None\<close>.
\<close>

type_synonym simulated_clock = "64 word"

definition clock_new :: "ext \<Rightarrow> datetime \<Rightarrow> simulated_clock" where
  "clock_new X start = of_int (timestamp_millis X start)"

definition clock_at_epoch :: simulated_clock where
  "clock_at_epoch = 0"

definition clock_set :: "ext \<Rightarrow> simulated_clock \<Rightarrow> datetime \<Rightarrow> simulated_clock option" where
  "clock_set X c to =
     (let new_millis = (of_int (timestamp_millis X to) :: 64 word)
      in if sint c \<le> sint new_millis then Some new_millis else None)"

definition advance_millis :: "simulated_clock \<Rightarrow> 64 word \<Rightarrow> simulated_clock option" where
  "advance_millis c millis = (if 0 \<le> sint millis then Some (c + millis) else None)"

definition clock_advance :: "ext \<Rightarrow> simulated_clock \<Rightarrow> int \<Rightarrow> simulated_clock option" where
  "clock_advance X c duration =
     (let millis = (of_int (num_milliseconds X duration) :: 64 word)
      in if 0 \<le> sint millis then Some (c + millis) else None)"

definition epoch_millis :: "simulated_clock \<Rightarrow> int" where
  "epoch_millis c = sint c"

subsection \<open>Venue connections\<close>

datatype connection_state =
    Disconnected
  | Connecting
  | Connected
  | HeartbeatLate (hl_last_heartbeat: datetime) (hl_missed_count: u32)
  | Stale (st_last_heartbeat: datetime) (st_stale_since: datetime)
  | Reconnecting (rc_attempt: u32)

text \<open>The derived \<open>Debug\<close> output.\<close>

fun connection_state_debug :: "connection_state \<Rightarrow> msg" where
  "connection_state_debug Disconnected = lit ''Disconnected''"
| "connection_state_debug Connecting = lit ''Connecting''"
| "connection_state_debug Connected = lit ''Connected''"
| "connection_state_debug (HeartbeatLate t n) =
     [PStr ''HeartbeatLate { last_heartbeat: '', PInt t, PStr '', missed_count: '', PInt (uint n),
      PStr '' }'']"
| "connection_state_debug (Stale t u) =
     [PStr ''Stale { last_heartbeat: '', PInt t, PStr '', stale_since: '', PInt u, PStr '' }'']"
| "connection_state_debug (Reconnecting n) =
     [PStr ''Reconnecting { attempt: '', PInt (uint n), PStr '' }'']"

record venue_connection_health =
  vh_venue_id :: venue_id
  vh_state :: connection_state
  vh_last_message_at :: "datetime option"
  vh_last_heartbeat_at :: "datetime option"
  vh_heartbeat_latency_ms :: "u32 option"
  vh_reconnect_count :: u32
  vh_connected_since :: "datetime option"

definition venue_health_new :: "venue_id \<Rightarrow> venue_connection_health" where
  "venue_health_new v = \<lparr>
     vh_venue_id = v,
     vh_state = Disconnected,
     vh_last_message_at = None,
     vh_last_heartbeat_at = None,
     vh_heartbeat_latency_ms = None,
     vh_reconnect_count = 0,
     vh_connected_since = None\<rparr>"

definition is_submittable :: "venue_connection_health \<Rightarrow> bool" where
  "is_submittable h = (case vh_state h of Connected \<Rightarrow> True | _ \<Rightarrow> False)"

definition is_degraded :: "venue_connection_health \<Rightarrow> bool" where
  "is_degraded h = (case vh_state h of
       HeartbeatLate _ _ \<Rightarrow> True | Stale _ _ \<Rightarrow> True | Reconnecting _ \<Rightarrow> True | _ \<Rightarrow> False)"

text \<open>Durations of the standard library, in milliseconds.\<close>

record heartbeat_config =
  hc_interval :: nat
  hc_warning_threshold :: u32
  hc_stale_threshold :: nat
  hc_max_reconnect_attempts :: u32
  hc_reconnect_base_delay :: nat

definition heartbeat_config_default :: heartbeat_config where
  "heartbeat_config_default = \<lparr>
     hc_interval = 5000,
     hc_warning_threshold = 2,
     hc_stale_threshold = 30000,
     hc_max_reconnect_attempts = 10,
     hc_reconnect_base_delay = 1000\<rparr>"

record timeout_policy =
  to_submit_order :: nat
  to_cancel_order :: nat
  to_amend_order :: nat
  to_query_positions :: nat
  to_query_balance :: nat
  to_query_orders :: nat
  to_fill_watchdog :: nat

definition timeout_policy_default :: timeout_policy where
  "timeout_policy_default = \<lparr>
     to_submit_order = 10000,
     to_cancel_order = 10000,
     to_amend_order = 10000,
     to_query_positions = 15000,
     to_query_balance = 15000,
     to_query_orders = 15000,
     to_fill_watchdog = 60000\<rparr>"

subsection \<open>Subsystem health\<close>

datatype subsystem_id =
  VenueConnection | MessageBus | EventJournal | PriceFeed | Dashboard | Reconciler

datatype subsystem_health =
    Healthy
  | Degraded (deg_reason: msg) (deg_since: datetime)
  | Failed (fail_reason: msg) (fail_since: datetime)

definition is_healthy :: "subsystem_health \<Rightarrow> bool" where
  "is_healthy h = (case h of Healthy \<Rightarrow> True | _ \<Rightarrow> False)"

definition is_failed :: "subsystem_health \<Rightarrow> bool" where
  "is_failed h = (case h of Failed _ _ \<Rightarrow> True | _ \<Rightarrow> False)"

datatype degradation_policy = HaltTrading | PauseNewOrders | BufferAndContinue | LogAndContinue

fun default_policy :: "subsystem_id \<Rightarrow> degradation_policy" where
  "default_policy VenueConnection = HaltTrading"
| "default_policy MessageBus = BufferAndContinue"
| "default_policy EventJournal = BufferAndContinue"
| "default_policy PriceFeed = PauseNewOrders"
| "default_policy Dashboard = LogAndContinue"
| "default_policy Reconciler = LogAndContinue"

datatype overall_health = OverallHealthy | OverallDegraded | OverallHalted

record engine_health =
  eh_subsystems :: "(subsystem_id \<times> subsystem_health) list"
  eh_overall :: overall_health
  eh_evaluated_at :: datetime

definition evaluate_health ::
  "(subsystem_id \<times> subsystem_health) list \<Rightarrow> datetime \<Rightarrow> engine_health"
where
  "evaluate_health subsystems now =
     (let overall =
        (if list_all (\<lambda>(_, h). is_healthy h) subsystems then OverallHealthy
         else if list_ex (\<lambda>(i, h). is_failed h \<and> default_policy i = HaltTrading) subsystems
         then OverallHalted
         else OverallDegraded)
      in \<lparr>eh_subsystems = subsystems, eh_overall = overall, eh_evaluated_at = now\<rparr>)"

subsection \<open>Lemmas\<close>

lemma is_submittable_iff: "is_submittable h \<longleftrightarrow> vh_state h = Connected"
  by (cases "vh_state h") (simp_all add: is_submittable_def)

lemma submittable_not_degraded: "is_submittable h \<Longrightarrow> \<not> is_degraded h"
  by (simp add: is_submittable_iff is_degraded_def)

lemma default_policy_halt: "default_policy i = HaltTrading \<longleftrightarrow> i = VenueConnection"
  by (cases i) simp_all

lemma is_failed_not_healthy: "is_failed h \<Longrightarrow> \<not> is_healthy h"
  by (cases h) (simp_all add: is_failed_def is_healthy_def)

lemma sint_add_no_overflow:
  fixes c d :: "64 word"
  assumes "0 \<le> sint d" and "sint c + sint d < 2 ^ 63"
  shows "sint (c + d) = sint c + sint d"
proof -
  have "- (2 ^ 63) \<le> sint c" using sint_ge [of c] by simp
  with assms have "signed_take_bit 63 (sint c + sint d) = sint c + sint d"
    by (intro signed_take_bit_int_eq_self) auto
  then show ?thesis by (simp add: sint_word_add)
qed

subsection \<open>Properties\<close>

text \<open>
  The derived status of the engine: it is halted exactly when a venue connection has failed,
  healthy exactly when every subsystem is, and degraded otherwise; the report carries the
  subsystems it was derived from.
\<close>

theorem evaluate_health_correct:
  "eh_overall (evaluate_health subs now) =
     (if \<exists>r t. (VenueConnection, Failed r t) \<in> set subs then OverallHalted
      else if \<forall>(i, h) \<in> set subs. h = Healthy then OverallHealthy else OverallDegraded) \<and>
   eh_subsystems (evaluate_health subs now) = subs \<and> eh_evaluated_at (evaluate_health subs now) = now"
proof -
  have h: "is_healthy h \<longleftrightarrow> h = Healthy" "is_failed h \<longleftrightarrow> (\<exists>r t. h = Failed r t)" for h
    by (cases h; simp add: is_healthy_def is_failed_def)+
  have "list_ex (\<lambda>(i, h). is_failed h \<and> default_policy i = HaltTrading) subs \<longleftrightarrow>
      (\<exists>r t. (VenueConnection, Failed r t) \<in> set subs)"
    unfolding list_ex_iff h default_policy_halt by fast
  moreover have "list_all (\<lambda>(_, h). is_healthy h) subs \<longleftrightarrow> (\<forall>(i, h) \<in> set subs. h = Healthy)"
    by (simp add: list_all_iff h)
  moreover have "\<forall>(i, h) \<in> set subs. h = Healthy \<Longrightarrow> \<not> (\<exists>r t. (VenueConnection, Failed r t) \<in> set subs)"
    by auto
  ultimately show ?thesis by (auto simp: evaluate_health_def Let_def)
qed

theorem evaluate_health_correct_witness:
  "eh_overall (evaluate_health [(Dashboard, Failed [] 1), (VenueConnection, Healthy)] 2) =
     OverallDegraded \<and>
   eh_overall (evaluate_health [(VenueConnection, Failed [] 1)] 2) = OverallHalted"
  using evaluate_health_correct [of "[(Dashboard, Failed [] 1), (VenueConnection, Healthy)]" 2]
    evaluate_health_correct [of "[(VenueConnection, Failed [] 1)]" 2] by simp

text \<open>
  The simulated clock never runs backwards: \<open>set\<close> and, as long as the millisecond counter does
  not exceed 63 bits, \<open>advance_millis\<close> move it forwards by exactly the given amount or panic.
\<close>

theorem clock_monotone:
  assumes "sint c + sint d < 2 ^ 63"
  shows "(advance_millis c d = None \<longleftrightarrow> sint d < 0) \<and>
    (\<forall>c'. advance_millis c d = Some c' \<longrightarrow> epoch_millis c' = epoch_millis c + sint d \<and>
      epoch_millis c \<le> epoch_millis c') \<and>
    (\<forall>to c'. clock_set X c to = Some c' \<longrightarrow> epoch_millis c \<le> epoch_millis c')"
  using assms sint_add_no_overflow [of d c]
  by (auto simp: advance_millis_def clock_set_def epoch_millis_def Let_def split: if_splits)

theorem clock_monotone_witness:
  "advance_millis 5 7 = Some 12 \<and> epoch_millis 12 = epoch_millis 5 + sint (7 :: 64 word)"
proof -
  have "sint (5 :: 64 word) + sint (7 :: 64 word) < 2 ^ 63" by simp
  from clock_monotone [OF this] show ?thesis by (simp add: advance_millis_def)
qed

text \<open>
  At the upper end the counter wraps: one millisecond after the largest representable
  instant the clock reads the smallest one, although its documentation promises that time
  never moves backwards.
\<close>

theorem clock_wraps_backwards:
  "advance_millis (2 ^ 63 - 1) 1 = Some (2 ^ 63) \<and>
   epoch_millis (2 ^ 63) < epoch_millis (2 ^ 63 - 1)"
  by (simp add: advance_millis_def epoch_millis_def)

end
