(* ===== verification/Exposure.thy ===== *)
theory Exposure
  imports Prelude
begin

text \<open>
  Projection of an instrument's net and gross notional after an order
  (\<open>risk/src/lib.rs\<close>, \<open>project_net_and_gross\<close>), shared by the circuit breaker CB-2 and the
  layer-1 risk gate. The code splits the book into its long and its short leg and applies the
  order to the opposite leg first. The lemmas show that on a common grid the arithmetic is
  exact, and give the projection in closed form.
\<close>

definition project_net_and_gross ::
  "ext \<Rightarrow> decimal \<Rightarrow> decimal \<Rightarrow> decimal \<Rightarrow> (decimal \<times> decimal) option"
where
  "project_net_and_gross X current_net current_gross signed_delta = do {
     sum_ng \<leftarrow> dec_add X current_gross current_net;
     long \<leftarrow> dec_div X sum_ng 2;
     diff_ng \<leftarrow> dec_sub X current_gross current_net;
     short \<leftarrow> dec_div X diff_ng 2;
     (long, short) \<leftarrow>
       (if 0 \<le> signed_delta then do {
          let reduction = min signed_delta short;
          short \<leftarrow> dec_sub X short reduction;
          rest \<leftarrow> dec_sub X signed_delta reduction;
          long \<leftarrow> dec_add X long rest;
          Some (long, short) }
        else do {
          let sell_qty = \<bar>signed_delta\<bar>;
          let reduction = min sell_qty long;
          long \<leftarrow> dec_sub X long reduction;
          rest \<leftarrow> dec_sub X sell_qty reduction;
          short \<leftarrow> dec_add X short rest;
          Some (long, short) });
     net \<leftarrow> dec_sub X long short;
     gross \<leftarrow> dec_add X long short;
     Some (net, gross) }"

text \<open>The gross notional after an order of signed notional \<open>d\<close> on a book with legs \<open>l\<close> and \<open>s\<close>.\<close>

definition gross_after :: "decimal \<Rightarrow> decimal \<Rightarrow> decimal \<Rightarrow> decimal" where
  "gross_after n g d =
     (let opposite = (if 0 \<le> d then (g - n) / 2 else (g + n) / 2)
      in g + \<bar>d\<bar> - 2 * min \<bar>d\<bar> opposite)"

subsection \<open>Exactness on a grid\<close>

lemma on_grid_min: "on_grid s A x \<Longrightarrow> on_grid s A y \<Longrightarrow> on_grid s A (min x y)"
  by (simp add: min_def)

lemma on_grid_abs [grid_intros]: "on_grid s A x \<Longrightarrow> on_grid s A \<bar>x\<bar>"
  by (simp add: abs_if on_grid_uminus)

text \<open>One step of checked arithmetic between two grid values.\<close>

lemma grid_ops:
  assumes "exact_arith X" and "s \<le> 28" and "A + B < 2 ^ 96" and "on_grid s A x" and "on_grid s B y"
  shows "dec_add X x y = Some (x + y)" and "dec_sub X x y = Some (x - y)"
proof -
  have AB: "0 \<le> A" "0 \<le> B" using assms(4,5) by (auto elim!: on_gridE)
  have r: "representable x" "representable y" "representable (x + y)" "representable (x - y)"
    using assms AB on_grid_representable [of s A x] on_grid_representable [of s B y]
      on_grid_representable [OF on_grid_add [OF assms(4,5)]]
      on_grid_representable [OF on_grid_diff [OF assms(4,5)]] by simp_all
  then show "dec_add X x y = Some (x + y)" "dec_sub X x y = Some (x - y)"
    using exact_arithD [OF assms(1) r(1,2)] by blast+
qed

lemma representable_2 [simp]: "representable 2"
  by (rule on_grid_representable [of 0 2]) (auto intro!: on_gridI [where k = 2])

lemma grid_half:
  assumes "exact_arith X" and "Suc s \<le> 28" and "5 * A < 2 ^ 96" and "on_grid s A x"
  shows "dec_div X x 2 = Some (x / 2)"
proof -
  have A: "0 \<le> A" using assms(4) by (auto elim!: on_gridE)
  have "representable x" using assms A by (intro on_grid_representable [of s A]) auto
  moreover have "representable (x / 2)"
    using assms A by (intro on_grid_representable [of "Suc s" "5 * A"]) (auto intro: on_grid_half)
  ultimately show ?thesis using exact_arithD(4) [OF assms(1), of x 2] by simp
qed

text \<open>The order applied to a leg of its own direction \<open>own\<close> and the opposite leg \<open>opp\<close>.\<close>

lemma apply_leg_exact:
  assumes "exact_arith X" and "s \<le> 28" and "50 * B < 2 ^ 96"
    and "on_grid s (10 * B) own" and "on_grid s (10 * B) opp" and "on_grid s (10 * B) d"
  shows "dec_sub X opp (min d opp) = Some (opp - min d opp)"
    and "dec_sub X d (min d opp) = Some (d - min d opp)"
    and "dec_add X own (d - min d opp) = Some (own + (d - min d opp))"
    and "on_grid s (20 * B) (opp - min d opp)"
    and "on_grid s (30 * B) (own + (d - min d opp))"
proof -
  have B: "0 \<le> B" using assms(4) by (auto elim!: on_gridE)
  have m: "on_grid s (10 * B) (min d opp)" using assms(5,6) by (simp add: on_grid_min)
  have g: "on_grid s (20 * B) (opp - min d opp)" "on_grid s (20 * B) (d - min d opp)"
    using on_grid_diff [OF assms(5) m] on_grid_diff [OF assms(6) m] by simp_all
  then show "on_grid s (20 * B) (opp - min d opp)"
      "on_grid s (30 * B) (own + (d - min d opp))"
    using on_grid_add [OF assms(4) g(2)] by simp_all
  show "dec_sub X opp (min d opp) = Some (opp - min d opp)"
      "dec_sub X d (min d opp) = Some (d - min d opp)"
      "dec_add X own (d - min d opp) = Some (own + (d - min d opp))"
    using grid_ops(2) [OF assms(1,2) _ assms(5) m] grid_ops(2) [OF assms(1,2) _ assms(6) m]
      grid_ops(1) [OF assms(1,2) _ assms(4) g(2)] assms(3) B by simp_all
qed

lemma legs_up:
  assumes "0 \<le> d"
  shows "(g + n) / 2 + (d - min d ((g - n) / 2)) - ((g - n) / 2 - min d ((g - n) / 2)) = n + d"
    and "(g + n) / 2 + (d - min d ((g - n) / 2)) + ((g - n) / 2 - min d ((g - n) / 2)) =
      gross_after n g d"
  using assms by (simp_all add: gross_after_def Let_def add_divide_distrib diff_divide_distrib)

lemma legs_down:
  assumes "\<not> 0 \<le> d"
  shows "(g + n) / 2 - min \<bar>d\<bar> ((g + n) / 2) - ((g - n) / 2 + (\<bar>d\<bar> - min \<bar>d\<bar> ((g + n) / 2))) = n + d"
    and "(g + n) / 2 - min \<bar>d\<bar> ((g + n) / 2) + ((g - n) / 2 + (\<bar>d\<bar> - min \<bar>d\<bar> ((g + n) / 2))) =
      gross_after n g d"
  using assms by (simp_all add: gross_after_def Let_def add_divide_distrib diff_divide_distrib)

lemma project_exact:
  assumes X: "exact_arith X" and s: "Suc s \<le> 28" and B: "50 * B < 2 ^ 96"
    and "on_grid s B n" and "on_grid s B g" and "on_grid s B d"
  shows "project_net_and_gross X n g d = Some (n + d, gross_after n g d)"
proof -
  let ?l = "(g + n) / 2" and ?s = "(g - n) / 2"
  have B0: "0 \<le> B" using assms(4) by (auto elim!: on_gridE)
  have sum: "dec_add X g n = Some (g + n)" "dec_sub X g n = Some (g - n)"
    using grid_ops [OF X _ _ assms(5,4)] s B B0 by auto
  have g2: "on_grid s (2 * B) (g + n)" "on_grid s (2 * B) (g - n)"
    using on_grid_add [OF assms(5,4)] on_grid_diff [OF assms(5,4)] by (simp_all add: algebra_simps)
  have half: "dec_div X (g + n) 2 = Some ?l" "dec_div X (g - n) 2 = Some ?s"
    using grid_half [OF X s _ g2(1)] grid_half [OF X s _ g2(2)] B B0 by auto
  have gl: "on_grid (Suc s) (10 * B) ?l" "on_grid (Suc s) (10 * B) ?s"
    using on_grid_half [OF g2(1)] on_grid_half [OF g2(2)] by simp_all
  have gd: "on_grid (Suc s) (10 * B) d" "on_grid (Suc s) (10 * B) \<bar>d\<bar>"
    using on_grid_Suc [OF assms(6)] by (auto intro: on_grid_abs)
  note up = apply_leg_exact [OF X s B gl gd(1)] and down = apply_leg_exact [OF X s B gl(2,1) gd(2)]
  have fin: "dec_sub X x y = Some (x - y)" "dec_add X x y = Some (x + y)"
      "dec_sub X y x = Some (y - x)" "dec_add X y x = Some (y + x)"
    if "on_grid (Suc s) (30 * B) x" "on_grid (Suc s) (20 * B) y" for x y
    using grid_ops [OF X s _ that] grid_ops [OF X s _ that(2,1)] B by auto
  show ?thesis
  proof (cases "0 \<le> d")
    case True
    then show ?thesis
      using up(1-3) fin(1,2) [OF up(5,4)] unfolding legs_up [OF True]
      by (simp add: project_net_and_gross_def Let_def sum half)
  next
    case False
    then show ?thesis
      using down(1-3) fin(3,4) [OF down(5,4)] unfolding legs_down [OF False]
      by (simp add: project_net_and_gross_def Let_def sum half)
  qed
qed

subsection \<open>The projection as arithmetic\<close>

lemma gross_after_ge_net: "\<bar>n\<bar> \<le> g \<Longrightarrow> \<bar>n + d\<bar> \<le> gross_after n g d"
  by (auto simp: gross_after_def Let_def min_def field_simps abs_if split: if_splits)

lemma gross_after_le: "\<bar>n\<bar> \<le> g \<Longrightarrow> gross_after n g d \<le> g + \<bar>d\<bar>"
  by (auto simp: gross_after_def Let_def min_def field_simps abs_if split: if_splits)

subsection \<open>Properties\<close>

text \<open>
  C27: On a consistent book (\<open>\<bar>net\<bar> \<le> gross\<close>) with values on a common grid, the projection
  returns without panic, moves the net notional by exactly the order's signed notional, keeps
  the book consistent, never adds more than the order's size to the gross notional, and lowers
  it by the full size of an order that only closes the opposite leg.
\<close>

theorem project_net_and_gross_correct:
  assumes "exact_arith X" and "Suc s \<le> 28" and "50 * B < 2 ^ 96"
    and "on_grid s B n" and "on_grid s B g" and "on_grid s B d" and "\<bar>n\<bar> \<le> g"
  shows "\<exists>g'. project_net_and_gross X n g d = Some (n + d, g') \<and> \<bar>n + d\<bar> \<le> g' \<and> g' \<le> g + \<bar>d\<bar> \<and>
    (0 \<le> d \<and> d \<le> (g - n) / 2 \<or> d \<le> 0 \<and> - d \<le> (g + n) / 2 \<longrightarrow> g' = g - \<bar>d\<bar>)"
  using project_exact [OF assms(1-6)] gross_after_ge_net [OF assms(7), of d]
    gross_after_le [OF assms(7), of d]
  by (auto simp: gross_after_def Let_def)

theorem project_net_and_gross_correct_witness:
  "\<exists>g'. project_net_and_gross ideal_ext 100 300 (- 50) = Some (100 + - 50, g') \<and> g' = 250"
proof -
  have "on_grid 0 300 100" "on_grid 0 300 300" "on_grid 0 300 (- 50)"
    by (rule on_gridI [where k = 100] on_gridI [where k = 300] on_gridI [where k = "- 50"]; simp)+
  from project_net_and_gross_correct [of ideal_ext 0 300 100 300 "- 50", OF _ _ _ this]
  show ?thesis by simp
qed

end
