(* ===== verification/Circuit_Breaker.thy ===== *)
theory Circuit_Breaker
  imports Order_Lifecycle Venue_Health Exposure
begin

text \<open>
  Layer 0 of the risk system (\<open>risk/src/lib.rs\<close> and \<open>risk/src/circuit_breaker.rs\<close>): the
  eleven compiled-in circuit breakers and the bank that runs them. A breaker without state is
  a function of the context; CB-3, CB-4 and CB-5 carry a latch. A check returns \<open>None\<close> when
  decimal arithmetic panics; no check changes state before it could panic.
  Log output is not modelled. The context holds the instant its clock returns.
  The interface \<open>circuit_breaker\<close> is the trait of the source, \<open>latching_breaker\<close> the contract
  of the breakers with a latch.
\<close>

subsection \<open>Configuration and context\<close>

datatype risk_error =
    CircuitBreakerTripped string msg
  | RiskErrRejected msg
  | StalePriceData string
  | AgentNotFound string

datatype execution_mode = Live | Paper | Backtest

datatype operation_kind = NewOrder | Cancel | ReduceOnly

record circuit_breaker_config =
  max_single_order_notional :: decimal
  max_instrument_position_notional :: decimal
  max_firm_gross_notional :: decimal
  max_daily_loss_pct :: decimal
  max_hourly_loss_pct :: decimal
  max_firm_orders_per_min :: u32
  max_agent_orders_per_min :: u32
  max_venue_error_rate :: decimal
  max_venue_disconnect_secs :: u64
  max_sequencer_queue_depth :: usize

record venue_error_stats =
  errors_last_5min :: u32
  total_last_5min :: u32

record circuit_breaker_context =
  cx_order :: "validated pipeline_order option"
  cx_firm_book :: firm_book
  cx_venue_health :: "venue_id \<rightharpoonup> venue_connection_health"
  cx_venue_error_stats :: "venue_id \<rightharpoonup> venue_error_stats"
  cx_firm_orders_last_60s :: u32
  cx_agent_orders_last_60s :: "agent_id \<rightharpoonup> u32"
  cx_sequencer_queue_depth :: usize
  cx_execution_mode :: execution_mode
  cx_operation_kind :: operation_kind
  cx_config :: circuit_breaker_config
  cx_now :: datetime

datatype circuit_breaker_result =
    Pass
  | Reject (rj_breaker: string) (rj_msg: msg)
  | HaltAll (ha_breaker: string) (ha_msg: msg)

datatype reset_reason =
    ManualOperator (operator_name: string)
  | CioApproval (approver_name: string)

subsection \<open>Derived \<open>Debug\<close> output\<close>

fun execution_mode_debug :: "execution_mode \<Rightarrow> string" where
  "execution_mode_debug Live = ''Live''"
| "execution_mode_debug Paper = ''Paper''"
| "execution_mode_debug Backtest = ''Backtest''"

subsection \<open>Order-level breakers without state\<close>

text \<open>The price of an order for notional purposes: present and positive.\<close>

definition positive_price :: "order_core \<Rightarrow> decimal option" where
  "positive_price core = (case oc_price core of
       Some p \<Rightarrow> if 0 < p then Some p else None
     | None \<Rightarrow> None)"

definition cb1_check :: "ext \<Rightarrow> circuit_breaker_context \<Rightarrow> circuit_breaker_result option" where
  "cb1_check X ctx = (case cx_order ctx of
       None \<Rightarrow> Some Pass
     | Some order \<Rightarrow>
         (let core = po_core order in
          case positive_price core of
            None \<Rightarrow> Some Pass
          | Some price \<Rightarrow> do {
              notional \<leftarrow> dec_mul X (oc_qty core) price;
              if max_single_order_notional (cx_config ctx) < notional
              then Some (Reject ''CB-1''
                [PStr ''order notional '', PDec notional,
                 PStr '' exceeds max single order notional '',
                 PDec (max_single_order_notional (cx_config ctx))])
              else Some Pass }))"

definition cb2_check :: "ext \<Rightarrow> circuit_breaker_context \<Rightarrow> circuit_breaker_result option" where
  "cb2_check X ctx = (case cx_order ctx of
       None \<Rightarrow> Some Pass
     | Some order \<Rightarrow>
         (let core = po_core order in
          case positive_price core of
            None \<Rightarrow> Some Pass
          | Some price \<Rightarrow> do {
              order_notional \<leftarrow> dec_mul X (oc_qty core) price;
              let signed_delta = (case oc_side core of Buy \<Rightarrow> order_notional | Sell \<Rightarrow> - order_notional);
              let (current_net, current_gross) =
                (case List.find (\<lambda>e. ie_instrument e = oc_instrument_id core)
                        (fb_instruments (cx_firm_book ctx)) of
                   None \<Rightarrow> (0, 0)
                 | Some e \<Rightarrow> (ie_net_notional_usd e, ie_gross_notional_usd e));
              (_, projected_gross) \<leftarrow> project_net_and_gross X current_net current_gross signed_delta;
              if max_instrument_position_notional (cx_config ctx) < projected_gross
              then Some (Reject ''CB-2''
                [PStr ''projected instrument gross exposure '', PDec projected_gross,
                 PStr '' exceeds max '', PDec (max_instrument_position_notional (cx_config ctx))])
              else Some Pass }))"

definition cb6_check :: "circuit_breaker_context \<Rightarrow> circuit_breaker_result" where
  "cb6_check ctx =
     (if max_firm_orders_per_min (cx_config ctx) < cx_firm_orders_last_60s ctx
      then Reject ''CB-6''
        [PStr ''firm order rate '', PInt (uint (cx_firm_orders_last_60s ctx)),
         PStr ''/min exceeds max '', PInt (uint (max_firm_orders_per_min (cx_config ctx))),
         PStr ''/min'']
      else Pass)"

definition cb7_check :: "circuit_breaker_context \<Rightarrow> circuit_breaker_result" where
  "cb7_check ctx = (case cx_order ctx of
       None \<Rightarrow> Pass
     | Some order \<Rightarrow>
         (let agent = oc_agent_id (po_core order);
              agent_rate = unwrap_or (cx_agent_orders_last_60s ctx agent) 0
          in if max_agent_orders_per_min (cx_config ctx) < agent_rate
             then Reject ''CB-7''
               [PStr ''agent '', PStr (agent_id_str agent), PStr '' order rate '',
                PInt (uint agent_rate), PStr ''/min exceeds max '',
                PInt (uint (max_agent_orders_per_min (cx_config ctx))), PStr ''/min'']
             else Pass))"

definition cb8_check :: "ext \<Rightarrow> circuit_breaker_context \<Rightarrow> circuit_breaker_result option" where
  "cb8_check X ctx = (case cx_order ctx of
       None \<Rightarrow> Some Pass
     | Some order \<Rightarrow>
         (let venue = oc_venue_id (po_core order) in
          case cx_venue_error_stats ctx venue of
            None \<Rightarrow> Some Pass
          | Some stats \<Rightarrow>
              if 0 < total_last_5min stats
              then do {
                error_rate \<leftarrow> dec_div X (of_int (uint (errors_last_5min stats)))
                                       (of_int (uint (total_last_5min stats)));
                if max_venue_error_rate (cx_config ctx) < error_rate
                then Some (Reject ''CB-8''
                  [PStr ''venue '', PStr (venue_id_str venue), PStr '' error rate '',
                   PDec error_rate, PStr '' exceeds max '',
                   PDec (max_venue_error_rate (cx_config ctx))])
                else Some Pass }
              else Some Pass))"

definition cb9_check :: "ext \<Rightarrow> circuit_breaker_context \<Rightarrow> circuit_breaker_result" where
  "cb9_check X ctx = (case cx_order ctx of
       None \<Rightarrow> Pass
     | Some order \<Rightarrow>
         (let venue = oc_venue_id (po_core order) in
          case cx_venue_health ctx venue of
            None \<Rightarrow> Reject ''CB-9''
              [PStr ''no health record for venue '', PStr (venue_id_str venue), PStr '' '',
               PStr em_dash, PStr '' cannot verify connectivity'']
          | Some health \<Rightarrow>
              if \<not> is_submittable health
              then Reject ''CB-9''
                ([PStr ''venue '', PStr (venue_id_str venue),
                  PStr '' is not in Connected state (''] @ connection_state_debug (vh_state health) @
                 [PStr '') '', PStr em_dash, PStr '' submission blocked''])
              else (case vh_last_heartbeat_at health of
                  None \<Rightarrow> Reject ''CB-9''
                    [PStr ''venue '', PStr (venue_id_str venue),
                     PStr '' has never sent a heartbeat'']
                | Some last_hb \<Rightarrow>
                    (let elapsed = cx_now ctx - last_hb in
                     if num_seconds X elapsed < 0
                     then Reject ''CB-9''
                       [PStr ''venue '', PStr (venue_id_str venue),
                        PStr '' heartbeat timestamp is '', PInt \<bar>num_seconds X elapsed\<bar>,
                        PStr ''s in the future '', PStr em_dash, PStr '' clock skew detected'']
                     else
                       (let elapsed_secs = (of_int (num_seconds X elapsed) :: u64) in
                        if max_venue_disconnect_secs (cx_config ctx) < elapsed_secs
                        then Reject ''CB-9''
                          [PStr ''venue '', PStr (venue_id_str venue), PStr '' last heartbeat '',
                           PInt (uint elapsed_secs), PStr ''s ago exceeds '',
                           PInt (uint (max_venue_disconnect_secs (cx_config ctx))),
                           PStr ''-second disconnect limit'']
                        else Pass)))))"

definition cb10_check :: "circuit_breaker_context \<Rightarrow> circuit_breaker_result" where
  "cb10_check ctx = (case cx_order ctx of
       None \<Rightarrow> Pass
     | Some order \<Rightarrow>
         (if \<not> oc_dry_run (po_core order) \<and> cx_execution_mode ctx \<noteq> Live
          then Reject ''CB-10''
            [PStr ''order has dry_run=false but engine is in '',
             PStr (execution_mode_debug (cx_execution_mode ctx)), PStr '' mode '', PStr em_dash,
             PStr '' live submission blocked'']
          else Pass))"

definition cb11_check :: "circuit_breaker_context \<Rightarrow> circuit_breaker_result" where
  "cb11_check ctx =
     (if max_sequencer_queue_depth (cx_config ctx) < cx_sequencer_queue_depth ctx
      then Reject ''CB-11''
        [PStr ''sequencer queue depth '', PInt (uint (cx_sequencer_queue_depth ctx)),
         PStr '' exceeds max '', PInt (uint (max_sequencer_queue_depth (cx_config ctx)))]
      else Pass)"

subsection \<open>Firm-level breakers with a latch\<close>

record cb3_max_firm_gross_notional = cb3_tripped :: bool
record cb4_firm_daily_loss = cb4_tripped :: bool
record cb5_firm_hourly_loss = cb5_tripped :: bool

definition cb3_new :: cb3_max_firm_gross_notional where
  "cb3_new = \<lparr>cb3_tripped = False\<rparr>"

definition cb3_latch :: "cb3_max_firm_gross_notional \<Rightarrow> cb3_max_firm_gross_notional" where
  "cb3_latch b = b\<lparr>cb3_tripped := True\<rparr>"

definition cb3_reset ::
  "cb3_max_firm_gross_notional \<Rightarrow> reset_reason \<Rightarrow> cb3_max_firm_gross_notional"
where
  "cb3_reset b reason = b\<lparr>cb3_tripped := False\<rparr>"

definition cb3_latched_msg :: msg where
  "cb3_latched_msg =
     [PStr ''firm gross notional limit latched '', PStr em_dash, PStr '' manual reset required'']"

definition cb3_check ::
  "cb3_max_firm_gross_notional \<Rightarrow> circuit_breaker_context \<Rightarrow> circuit_breaker_result option"
where
  "cb3_check b ctx =
     (if cb3_tripped b then Some (Reject ''CB-3'' cb3_latched_msg)
      else if max_firm_gross_notional (cx_config ctx) < fb_gross_notional (cx_firm_book ctx)
      then Some (Reject ''CB-3''
        [PStr ''firm gross notional '', PDec (fb_gross_notional (cx_firm_book ctx)),
         PStr '' exceeds max '', PDec (max_firm_gross_notional (cx_config ctx))])
      else Some Pass)"

definition cb4_new :: cb4_firm_daily_loss where
  "cb4_new = \<lparr>cb4_tripped = False\<rparr>"

definition cb4_latch :: "cb4_firm_daily_loss \<Rightarrow> cb4_firm_daily_loss" where
  "cb4_latch b = b\<lparr>cb4_tripped := True\<rparr>"

definition cb4_reset :: "cb4_firm_daily_loss \<Rightarrow> reset_reason \<Rightarrow> cb4_firm_daily_loss" where
  "cb4_reset b reason = b\<lparr>cb4_tripped := False\<rparr>"

definition cb4_latched_msg :: msg where
  "cb4_latched_msg =
     [PStr ''daily loss halt latched '', PStr em_dash, PStr '' manual reset + CIO approval required'']"

definition cb4_check ::
  "ext \<Rightarrow> cb4_firm_daily_loss \<Rightarrow> circuit_breaker_context \<Rightarrow> circuit_breaker_result option"
where
  "cb4_check X b ctx =
     (if cb4_tripped b then Some (HaltAll ''CB-4'' cb4_latched_msg)
      else if fb_nav (cx_firm_book ctx) \<le> 0 then Some Pass
      else do {
        max_loss \<leftarrow> dec_mul X (max_daily_loss_pct (cx_config ctx)) (fb_nav (cx_firm_book ctx));
        if fb_daily_pnl (cx_firm_book ctx) < - max_loss
        then do {
          pct \<leftarrow> dec_mul X (max_daily_loss_pct (cx_config ctx)) 100;
          Some (HaltAll ''CB-4''
            [PStr ''daily P&L '', PDec (fb_daily_pnl (cx_firm_book ctx)), PStr '' breached -'',
             PDec pct, PStr ''% NAV loss cap (limit: -'', PDec max_loss, PStr '')'']) }
        else Some Pass })"

definition cb5_new :: cb5_firm_hourly_loss where
  "cb5_new = \<lparr>cb5_tripped = False\<rparr>"

definition cb5_latch :: "cb5_firm_hourly_loss \<Rightarrow> cb5_firm_hourly_loss" where
  "cb5_latch b = b\<lparr>cb5_tripped := True\<rparr>"

definition cb5_reset :: "cb5_firm_hourly_loss \<Rightarrow> reset_reason \<Rightarrow> cb5_firm_hourly_loss" where
  "cb5_reset b reason = b\<lparr>cb5_tripped := False\<rparr>"

definition cb5_latched_msg :: msg where
  "cb5_latched_msg =
     [PStr ''hourly loss halt latched '', PStr em_dash, PStr '' manual reset required'']"

definition cb5_check ::
  "ext \<Rightarrow> cb5_firm_hourly_loss \<Rightarrow> circuit_breaker_context \<Rightarrow> circuit_breaker_result option"
where
  "cb5_check X b ctx =
     (if cb5_tripped b then Some (HaltAll ''CB-5'' cb5_latched_msg)
      else if fb_nav (cx_firm_book ctx) \<le> 0 then Some Pass
      else do {
        max_loss \<leftarrow> dec_mul X (max_hourly_loss_pct (cx_config ctx)) (fb_nav (cx_firm_book ctx));
        if fb_hourly_pnl (cx_firm_book ctx) < - max_loss
        then do {
          pct \<leftarrow> dec_mul X (max_hourly_loss_pct (cx_config ctx)) 100;
          Some (HaltAll ''CB-5''
            [PStr ''hourly P&L '', PDec (fb_hourly_pnl (cx_firm_book ctx)), PStr '' breached -'',
             PDec pct, PStr ''% NAV loss cap (limit: -'', PDec max_loss, PStr '')'']) }
        else Some Pass })"

subsection \<open>The bank\<close>

text \<open>The eight breakers that are unit structs have no field here.\<close>

record circuit_breaker_bank =
  bk_cb3 :: cb3_max_firm_gross_notional
  bk_cb4 :: cb4_firm_daily_loss
  bk_cb5 :: cb5_firm_hourly_loss

definition bank_new :: circuit_breaker_bank where
  "bank_new = \<lparr>bk_cb3 = cb3_new, bk_cb4 = cb4_new, bk_cb5 = cb5_new\<rparr>"

definition is_halt :: "circuit_breaker_result \<Rightarrow> bool" where
  "is_halt r = (case r of HaltAll _ _ \<Rightarrow> True | _ \<Rightarrow> False)"

definition is_reject :: "circuit_breaker_result \<Rightarrow> bool" where
  "is_reject r = (case r of Reject _ _ \<Rightarrow> True | _ \<Rightarrow> False)"

text \<open>The checks that follow the firm-level breakers, from CB-11 on.\<close>

definition check_all ::
  "ext \<Rightarrow> circuit_breaker_bank \<Rightarrow> circuit_breaker_context \<Rightarrow>
   (circuit_breaker_bank \<times> circuit_breaker_result) option"
where
  "check_all X b ctx =
     (if cx_operation_kind ctx = Cancel then Some (b, Pass)
      else
       let is_reduce_only = (cx_operation_kind ctx = ReduceOnly) in
       if cb4_tripped (bk_cb4 b) \<and> \<not> is_reduce_only then Some (b, HaltAll ''CB-4'' cb4_latched_msg)
       else if cb5_tripped (bk_cb5 b) \<and> \<not> is_reduce_only then Some (b, HaltAll ''CB-5'' cb5_latched_msg)
       else if cb3_tripped (bk_cb3 b) \<and> \<not> is_reduce_only then Some (b, Reject ''CB-3'' cb3_latched_msg)
       else if cb10_check ctx \<noteq> Pass then Some (b, cb10_check ctx)
       else do {
         r \<leftarrow> (if is_reduce_only then Some Pass else cb4_check X (bk_cb4 b) ctx);
         if r \<noteq> Pass then Some (if is_halt r then b\<lparr>bk_cb4 := cb4_latch (bk_cb4 b)\<rparr> else b, r)
         else do {
         r \<leftarrow> (if is_reduce_only then Some Pass else cb5_check X (bk_cb5 b) ctx);
         if r \<noteq> Pass then Some (if is_halt r then b\<lparr>bk_cb5 := cb5_latch (bk_cb5 b)\<rparr> else b, r)
         else do {
         r \<leftarrow> (if is_reduce_only then Some Pass else cb3_check (bk_cb3 b) ctx);
         if r \<noteq> Pass then Some (if is_reject r then b\<lparr>bk_cb3 := cb3_latch (bk_cb3 b)\<rparr> else b, r)
         else if cb11_check ctx \<noteq> Pass then Some (b, cb11_check ctx)
         else do {
         r \<leftarrow> (if is_reduce_only then Some Pass else cb1_check X ctx);
         if r \<noteq> Pass then Some (b, r)
         else do {
         r \<leftarrow> cb2_check X ctx;
         if r \<noteq> Pass then Some (b, r)
         else if cb6_check ctx \<noteq> Pass then Some (b, cb6_check ctx)
         else if cb7_check ctx \<noteq> Pass then Some (b, cb7_check ctx)
         else do {
         r \<leftarrow> cb8_check X ctx;
         if r \<noteq> Pass then Some (b, r)
         else Some (b, cb9_check X ctx) }}}}}})"

definition bank_reset ::
  "circuit_breaker_bank \<Rightarrow> string \<Rightarrow> reset_reason \<Rightarrow> risk_error + circuit_breaker_bank"
where
  "bank_reset b breaker_id reason =
     (if breaker_id = ''CB-3'' then Inr (b\<lparr>bk_cb3 := cb3_reset (bk_cb3 b) reason\<rparr>)
      else if breaker_id = ''CB-4'' then
        (case reason of
           CioApproval _ \<Rightarrow> Inr (b\<lparr>bk_cb4 := cb4_reset (bk_cb4 b) reason\<rparr>)
         | _ \<Rightarrow> Inl (RiskErrRejected
             [PStr ''CB-4 (daily loss halt) requires CIO approval to reset '', PStr em_dash,
              PStr '' use ResetReason::CioApproval'']))
      else if breaker_id = ''CB-5'' then Inr (b\<lparr>bk_cb5 := cb5_reset (bk_cb5 b) reason\<rparr>)
      else Inl (RiskErrRejected
        [PStr ''circuit breaker '', PStr breaker_id,
         PStr '' is not resettable or does not exist'']))"

definition is_halt_active :: "circuit_breaker_bank \<Rightarrow> bool" where
  "is_halt_active b = (cb4_tripped (bk_cb4 b) \<or> cb5_tripped (bk_cb5 b))"

definition any_tripped :: "circuit_breaker_bank \<Rightarrow> bool" where
  "any_tripped b = (cb3_tripped (bk_cb3 b) \<or> cb4_tripped (bk_cb4 b) \<or> cb5_tripped (bk_cb5 b))"

subsection \<open>Specification of the bank\<close>

text \<open>
  What the comments of the source promise: the breakers that apply to an operation in the
  documented order, the verdict of the first one that does not pass, and the latch that this
  verdict sets.
\<close>

fun first_failure :: "circuit_breaker_result option list \<Rightarrow> circuit_breaker_result option" where
  "first_failure [] = Some Pass"
| "first_failure (c # cs) = do { r \<leftarrow> c; if r = Pass then first_failure cs else Some r }"

definition when_tripped :: "bool \<Rightarrow> circuit_breaker_result \<Rightarrow> circuit_breaker_result option" where
  "when_tripped tripped r = Some (if tripped then r else Pass)"

text \<open>The checks that new and reduce-only orders share at the end.\<close>

definition tail_gates :: "ext \<Rightarrow> circuit_breaker_context \<Rightarrow> circuit_breaker_result option list" where
  "tail_gates X ctx =
     [cb2_check X ctx, Some (cb6_check ctx), Some (cb7_check ctx), cb8_check X ctx,
      Some (cb9_check X ctx)]"

definition documented_gates ::
  "ext \<Rightarrow> circuit_breaker_bank \<Rightarrow> circuit_breaker_context \<Rightarrow> circuit_breaker_result option list"
where
  "documented_gates X b ctx = (case cx_operation_kind ctx of
       Cancel \<Rightarrow> []
     | NewOrder \<Rightarrow>
         [when_tripped (cb4_tripped (bk_cb4 b)) (HaltAll ''CB-4'' cb4_latched_msg),
          when_tripped (cb5_tripped (bk_cb5 b)) (HaltAll ''CB-5'' cb5_latched_msg),
          when_tripped (cb3_tripped (bk_cb3 b)) (Reject ''CB-3'' cb3_latched_msg),
          Some (cb10_check ctx), cb4_check X (bk_cb4 b) ctx, cb5_check X (bk_cb5 b) ctx,
          cb3_check (bk_cb3 b) ctx, Some (cb11_check ctx), cb1_check X ctx] @ tail_gates X ctx
     | ReduceOnly \<Rightarrow>
         [Some (cb10_check ctx), Some (cb11_check ctx)] @ tail_gates X ctx)"

definition bank_after :: "circuit_breaker_bank \<Rightarrow> circuit_breaker_result \<Rightarrow> circuit_breaker_bank" where
  "bank_after b r = (case r of
       Pass \<Rightarrow> b
     | HaltAll n _ \<Rightarrow>
         if n = ''CB-4'' then b\<lparr>bk_cb4 := cb4_latch (bk_cb4 b)\<rparr>
         else if n = ''CB-5'' then b\<lparr>bk_cb5 := cb5_latch (bk_cb5 b)\<rparr> else b
     | Reject n _ \<Rightarrow> if n = ''CB-3'' then b\<lparr>bk_cb3 := cb3_latch (bk_cb3 b)\<rparr> else b)"

text \<open>The signed notional of an order and the exposure of the book to its instrument.\<close>

definition signed_notional :: "side \<Rightarrow> decimal \<Rightarrow> decimal" where
  "signed_notional sd n = (case sd of Buy \<Rightarrow> n | Sell \<Rightarrow> - n)"

definition book_exposure :: "firm_book \<Rightarrow> instrument_id \<Rightarrow> decimal \<times> decimal" where
  "book_exposure fb i = (case List.find (\<lambda>e. ie_instrument e = i) (fb_instruments fb) of
       None \<Rightarrow> (0, 0)
     | Some e \<Rightarrow> (ie_net_notional_usd e, ie_gross_notional_usd e))"

text \<open>A history of the bank: checks and resets, with the log of the verdicts.\<close>

datatype bank_op = CheckAll circuit_breaker_context | ResetBreaker string reset_reason

fun run_bank ::
  "ext \<Rightarrow> circuit_breaker_bank \<Rightarrow> bank_op list \<Rightarrow>
   (circuit_breaker_bank \<times> (circuit_breaker_context \<times> circuit_breaker_result) list) option"
where
  "run_bank X b [] = Some (b, [])"
| "run_bank X b (CheckAll ctx # ops) = do {
     (b', r) \<leftarrow> check_all X b ctx;
     (b'', vs) \<leftarrow> run_bank X b' ops;
     Some (b'', (ctx, r) # vs) }"
| "run_bank X b (ResetBreaker n reason # ops) =
     run_bank X (case bank_reset b n reason of Inl _ \<Rightarrow> b | Inr b' \<Rightarrow> b') ops"

definition example_config :: circuit_breaker_config where
  "example_config = \<lparr>max_single_order_notional = 100000, max_instrument_position_notional = 500000,
     max_firm_gross_notional = 1000000, max_daily_loss_pct = 1 / 20, max_hourly_loss_pct = 1 / 50,
     max_firm_orders_per_min = 100, max_agent_orders_per_min = 20, max_venue_error_rate = 1 / 2,
     max_venue_disconnect_secs = 30, max_sequencer_queue_depth = 1000\<rparr>"

definition example_book :: firm_book where
  "example_book = \<lparr>fb_nav = 1000000, fb_gross_notional = 200000, fb_net_notional = 100000,
     fb_realized_pnl = 0, fb_unrealized_pnl = 0, fb_daily_pnl = 0, fb_hourly_pnl = 0,
     fb_current_drawdown_pct = 0, fb_allocated_capital = 500000, fb_cash_available = 800000,
     fb_total_fees_paid = 0, fb_agent_allocations = Map.empty, fb_instruments = [],
     fb_prediction_exposure =
       \<lparr>pe_total_notional = 0, pe_pct_of_nav = 0, pe_unresolved_markets = 0\<rparr>,
     fb_as_of = 0\<rparr>"

definition example_health :: venue_connection_health where
  "example_health = (venue_health_new (VenueId ''bybit''))
     \<lparr>vh_state := Connected, vh_last_heartbeat_at := Some 0\<rparr>"

definition example_ctx :: circuit_breaker_context where
  "example_ctx = \<lparr>cx_order = Some (into_validated (pipeline_new example_core) 0),
     cx_firm_book = example_book, cx_venue_health = [VenueId ''bybit'' \<mapsto> example_health],
     cx_venue_error_stats = Map.empty, cx_firm_orders_last_60s = 1,
     cx_agent_orders_last_60s = Map.empty, cx_sequencer_queue_depth = 1,
     cx_execution_mode = Paper, cx_operation_kind = NewOrder, cx_config = example_config,
     cx_now = 5000000000\<rparr>"

definition example_loss_ctx :: circuit_breaker_context where
  "example_loss_ctx = example_ctx\<lparr>cx_firm_book := example_book\<lparr>fb_daily_pnl := - 60000\<rparr>\<rparr>"

subsection \<open>The breaker interfaces\<close>

text \<open>
  The trait \<open>CircuitBreaker\<close>: a check either passes or gives a verdict of the breaker's own
  kind that carries its identifier.
\<close>

locale circuit_breaker =
  fixes verdict :: "msg \<Rightarrow> circuit_breaker_result"
    and check :: "'b \<Rightarrow> circuit_breaker_context \<Rightarrow> circuit_breaker_result option"
  assumes verdict_trips: "verdict m \<noteq> Pass"
    and check_verdict: "check b ctx = Some r \<Longrightarrow> r \<noteq> Pass \<Longrightarrow> \<exists>m. r = verdict m"
begin

lemma check_cases:
  assumes "check b ctx = Some r"
  obtains (pass) "r = Pass" | (trip) m where "r = verdict m" and "r \<noteq> Pass"
  using assms check_verdict by blast

lemma gate_cases:
  "first_failure (check b ctx # gs) = Some r \<longleftrightarrow>
   check b ctx = Some Pass \<and> first_failure gs = Some r \<or>
   (\<exists>m. check b ctx = Some (verdict m) \<and> r = verdict m)"
proof (cases "check b ctx")
  case (Some v)
  then show ?thesis by (cases rule: check_cases [OF Some]) (auto simp: verdict_trips verdict_trips [symmetric])
qed simp

end

text \<open>
  A breaker with a latch: open when new, closed by \<open>latch\<close>, opened by \<open>reset\<close>; while it is
  closed it gives one fixed verdict whatever the context, and while it is open its verdict
  depends on the context alone.
\<close>

locale latching_breaker = circuit_breaker verdict check
  for verdict :: "msg \<Rightarrow> circuit_breaker_result"
    and check :: "'b \<Rightarrow> circuit_breaker_context \<Rightarrow> circuit_breaker_result option" +
  fixes new :: 'b and latch :: "'b \<Rightarrow> 'b" and reset :: "'b \<Rightarrow> reset_reason \<Rightarrow> 'b"
    and is_tripped :: "'b \<Rightarrow> bool" and latched_msg :: msg
  assumes new_open: "\<not> is_tripped new"
    and latch_trips: "is_tripped (latch b)"
    and latch_idle: "is_tripped b \<Longrightarrow> latch b = b"
    and reset_opens: "\<not> is_tripped (reset b reason)"
    and tripped_verdict: "is_tripped b \<Longrightarrow> check b ctx = Some (verdict latched_msg)"
    and open_verdict: "\<not> is_tripped b \<Longrightarrow> \<not> is_tripped c \<Longrightarrow> check b ctx = check c ctx"
begin

lemma latched_blocks: "check (latch b) ctx = Some (verdict latched_msg)"
  by (simp add: tripped_verdict latch_trips)

lemma reset_as_new: "check (reset b reason) ctx = check new ctx"
  by (rule open_verdict) (simp_all add: reset_opens new_open)

lemma pre_check_redundant:
  "first_failure (when_tripped (is_tripped b) (verdict latched_msg) # gs) =
   (if is_tripped b then check b ctx else first_failure gs)"
  by (simp add: when_tripped_def tripped_verdict verdict_trips)

end

text \<open>The eleven breakers implement the interfaces.\<close>

interpretation cb1: circuit_breaker "Reject ''CB-1''" "\<lambda>_::unit. cb1_check X" for X
  by unfold_locales
    (auto simp: cb1_check_def Let_def bind_Some_iff split: option.splits if_splits)

interpretation cb2: circuit_breaker "Reject ''CB-2''" "\<lambda>_::unit. cb2_check X" for X
  by unfold_locales
    (auto simp: cb2_check_def Let_def bind_Some_iff split: option.splits if_splits prod.splits)

interpretation cb6: circuit_breaker "Reject ''CB-6''" "\<lambda>_::unit. \<lambda>ctx. Some (cb6_check ctx)"
  by unfold_locales (auto simp: cb6_check_def split: if_splits)

interpretation cb7: circuit_breaker "Reject ''CB-7''" "\<lambda>_::unit. \<lambda>ctx. Some (cb7_check ctx)"
  by unfold_locales (auto simp: cb7_check_def Let_def split: option.splits if_splits)

interpretation cb8: circuit_breaker "Reject ''CB-8''" "\<lambda>_::unit. cb8_check X" for X
  by unfold_locales
    (auto simp: cb8_check_def Let_def bind_Some_iff split: option.splits if_splits)

interpretation cb9: circuit_breaker "Reject ''CB-9''" "\<lambda>_::unit. \<lambda>ctx. Some (cb9_check X ctx)" for X
  by unfold_locales (auto simp: cb9_check_def Let_def split: option.splits if_splits)

interpretation cb10: circuit_breaker "Reject ''CB-10''" "\<lambda>_::unit. \<lambda>ctx. Some (cb10_check ctx)"
  by unfold_locales (auto simp: cb10_check_def split: option.splits if_splits)

interpretation cb11: circuit_breaker "Reject ''CB-11''" "\<lambda>_::unit. \<lambda>ctx. Some (cb11_check ctx)"
  by unfold_locales (auto simp: cb11_check_def split: if_splits)

interpretation cb3: latching_breaker "Reject ''CB-3''" cb3_check cb3_new cb3_latch cb3_reset
    cb3_tripped cb3_latched_msg
  by unfold_locales
    (auto simp: cb3_check_def cb3_new_def cb3_latch_def cb3_reset_def split: if_splits)

interpretation cb4: latching_breaker "HaltAll ''CB-4''" "cb4_check X" cb4_new cb4_latch cb4_reset
    cb4_tripped cb4_latched_msg for X
  by unfold_locales
    (auto simp: cb4_check_def cb4_new_def cb4_latch_def cb4_reset_def bind_Some_iff split: if_splits)

interpretation cb5: latching_breaker "HaltAll ''CB-5''" "cb5_check X" cb5_new cb5_latch cb5_reset
    cb5_tripped cb5_latched_msg for X
  by unfold_locales
    (auto simp: cb5_check_def cb5_new_def cb5_latch_def cb5_reset_def bind_Some_iff split: if_splits)

subsection \<open>The bank implements the documented order\<close>

lemma bank_after_simps [simp]:
  "bank_after b Pass = b"
  "bank_after b (HaltAll ''CB-4'' m) = b\<lparr>bk_cb4 := cb4_latch (bk_cb4 b)\<rparr>"
  "bank_after b (HaltAll ''CB-5'' m) = b\<lparr>bk_cb5 := cb5_latch (bk_cb5 b)\<rparr>"
  "bank_after b (Reject ''CB-3'' m) = b\<lparr>bk_cb3 := cb3_latch (bk_cb3 b)\<rparr>"
  "n \<noteq> ''CB-3'' \<Longrightarrow> bank_after b (Reject n m) = b"
  by (simp_all add: bank_after_def)

lemma check_verdicts:
  "cb1_check X ctx = Some r \<Longrightarrow> r \<noteq> Pass \<Longrightarrow> \<exists>m. r = Reject ''CB-1'' m"
  "cb2_check X ctx = Some r \<Longrightarrow> r \<noteq> Pass \<Longrightarrow> \<exists>m. r = Reject ''CB-2'' m"
  "cb8_check X ctx = Some r \<Longrightarrow> r \<noteq> Pass \<Longrightarrow> \<exists>m. r = Reject ''CB-8'' m"
  "cb6_check ctx \<noteq> Pass \<Longrightarrow> \<exists>m. cb6_check ctx = Reject ''CB-6'' m"
  "cb7_check ctx \<noteq> Pass \<Longrightarrow> \<exists>m. cb7_check ctx = Reject ''CB-7'' m"
  "cb9_check X ctx \<noteq> Pass \<Longrightarrow> \<exists>m. cb9_check X ctx = Reject ''CB-9'' m"
  "cb10_check ctx \<noteq> Pass \<Longrightarrow> \<exists>m. cb10_check ctx = Reject ''CB-10'' m"
  "cb11_check ctx \<noteq> Pass \<Longrightarrow> \<exists>m. cb11_check ctx = Reject ''CB-11'' m"
  by (erule (1) cb1.check_verdict cb2.check_verdict cb8.check_verdict
      | erule cb6.check_verdict [OF refl] cb7.check_verdict [OF refl] cb9.check_verdict [OF refl]
        cb10.check_verdict [OF refl] cb11.check_verdict [OF refl])+

lemma tail_verdict:
  assumes "first_failure (tail_gates X ctx) = Some r" and "r \<noteq> Pass"
  shows "\<exists>n m. r = Reject n m \<and> n \<in> {''CB-2'', ''CB-6'', ''CB-7'', ''CB-8'', ''CB-9''}"
  using assms(1) unfolding tail_gates_def cb2.gate_cases cb6.gate_cases cb7.gate_cases
    cb8.gate_cases cb9.gate_cases
  using assms(2) by auto

lemma reject_bank_after:
  "(\<exists>n m. r = Reject n m \<and> n \<noteq> ''CB-3'') \<or> r = Pass \<Longrightarrow> bank_after b r = b"
  by auto

lemma map_first_failure:
  "map_option f (first_failure (c # cs)) =
   do { r \<leftarrow> c; if r = Pass then map_option f (first_failure cs) else Some (f r) }"
  by (cases c) auto

lemma latch_steps:
  "cb4_check X (bk_cb4 b) ctx = Some r \<Longrightarrow> r \<noteq> Pass \<Longrightarrow>
     (if is_halt r then b\<lparr>bk_cb4 := cb4_latch (bk_cb4 b)\<rparr> else b) = bank_after b r"
  "cb5_check X (bk_cb5 b) ctx = Some r \<Longrightarrow> r \<noteq> Pass \<Longrightarrow>
     (if is_halt r then b\<lparr>bk_cb5 := cb5_latch (bk_cb5 b)\<rparr> else b) = bank_after b r"
  "cb3_check (bk_cb3 b) ctx = Some r \<Longrightarrow> r \<noteq> Pass \<Longrightarrow>
     (if is_reject r then b\<lparr>bk_cb3 := cb3_latch (bk_cb3 b)\<rparr> else b) = bank_after b r"
  by (auto dest!: cb4.check_verdict cb5.check_verdict cb3.check_verdict
      simp: is_halt_def is_reject_def)

lemma cb1_step: "cb1_check X ctx = Some r \<Longrightarrow> bank_after b r = b"
  by (cases "r = Pass") (auto dest: check_verdicts(1))

lemma cb10_step: "bank_after b (cb10_check ctx) = b"
  by (cases "cb10_check ctx = Pass") (auto dest: check_verdicts(7))

lemma cb11_step: "bank_after b (cb11_check ctx) = b"
  by (cases "cb11_check ctx = Pass") (auto dest: check_verdicts(8))

lemmas stateless_steps = cb1_step cb10_step cb11_step

lemma latched_steps:
  "cb4_tripped (bk_cb4 b) \<Longrightarrow> b\<lparr>bk_cb4 := cb4_latch (bk_cb4 b)\<rparr> = b"
  "cb5_tripped (bk_cb5 b) \<Longrightarrow> b\<lparr>bk_cb5 := cb5_latch (bk_cb5 b)\<rparr> = b"
  "cb3_tripped (bk_cb3 b) \<Longrightarrow> b\<lparr>bk_cb3 := cb3_latch (bk_cb3 b)\<rparr> = b"
  by (simp_all add: cb4.latch_idle cb5.latch_idle cb3.latch_idle)

lemma tail_spec:
  "do { r \<leftarrow> cb2_check X ctx;
        if r \<noteq> Pass then Some (b, r)
        else if cb6_check ctx \<noteq> Pass then Some (b, cb6_check ctx)
        else if cb7_check ctx \<noteq> Pass then Some (b, cb7_check ctx)
        else do { r \<leftarrow> cb8_check X ctx; if r \<noteq> Pass then Some (b, r) else Some (b, cb9_check X ctx) } } =
   map_option (\<lambda>r. (bank_after b r, r)) (first_failure (tail_gates X ctx))"
  (is "?code = _")
proof -
  have "?code = map_option (Pair b) (first_failure (tail_gates X ctx))"
    unfolding tail_gates_def by (cases "cb2_check X ctx"; cases "cb8_check X ctx") auto
  moreover have "bank_after b r = b" if "first_failure (tail_gates X ctx) = Some r" for r
    using tail_verdict [OF that] by (intro reject_bank_after) auto
  ultimately show ?thesis by (cases "first_failure (tail_gates X ctx)") auto
qed

lemma bind_if_cong:
  assumes "\<And>r. c = Some r \<Longrightarrow> r \<noteq> Pass \<Longrightarrow> f r = f' r" and "g = g'"
  shows "do { r \<leftarrow> c; if r \<noteq> Pass then f r else g } = do { r \<leftarrow> c; if r = Pass then g' else f' r }"
  using assms by (cases c) auto

lemma check_all_spec:
  "check_all X b ctx =
     map_option (\<lambda>r. (bank_after b r, r)) (first_failure (documented_gates X b ctx))"
proof (cases "cx_operation_kind ctx")
  case NewOrder
  then show ?thesis unfolding check_all_def tail_spec
    by (auto simp: documented_gates_def Let_def map_first_failure when_tripped_def
        latched_steps stateless_steps latch_steps intro!: bind_if_cong
        simp del: first_failure.simps)
next
  case ReduceOnly
  then show ?thesis unfolding check_all_def tail_spec
    by (simp add: documented_gates_def Let_def map_first_failure stateless_steps
        del: first_failure.simps)
qed (simp add: check_all_def documented_gates_def)

lemma check_all_bank: "check_all X b ctx = Some (b', r) \<Longrightarrow> b' = bank_after b r"
  by (auto simp: check_all_spec)

lemma check_all_latched:
  assumes "cx_operation_kind ctx = NewOrder" and "cb4_tripped (bk_cb4 b)"
  shows "check_all X b ctx = Some (b, HaltAll ''CB-4'' cb4_latched_msg)"
  using assms by (simp add: check_all_def)

lemma bank_after_tripped:
  "cb3_tripped (bk_cb3 b) \<Longrightarrow> cb3_tripped (bk_cb3 (bank_after b r))"
  "cb4_tripped (bk_cb4 b) \<Longrightarrow> cb4_tripped (bk_cb4 (bank_after b r))"
  "cb5_tripped (bk_cb5 b) \<Longrightarrow> cb5_tripped (bk_cb5 (bank_after b r))"
  by (cases r; simp add: bank_after_def cb3.latch_trips cb4.latch_trips cb5.latch_trips)+

lemma bank_reset_cb4:
  assumes "cb4_tripped (bk_cb4 b)" and "bank_reset b n reason = Inr b'"
    and "\<nexists>a. n = ''CB-4'' \<and> reason = CioApproval a"
  shows "cb4_tripped (bk_cb4 b')"
  using assms by (auto simp: bank_reset_def split: if_splits reset_reason.splits)

lemma pass_gates:
  "first_failure (c # cs) = Some Pass \<longleftrightarrow> c = Some Pass \<and> first_failure cs = Some Pass"
  by (cases c) auto

lemma pass_append:
  "first_failure (cs @ ds) = Some Pass \<longleftrightarrow> first_failure cs = Some Pass \<and> first_failure ds = Some Pass"
  by (induction cs) (auto simp: pass_gates simp del: first_failure.simps(2))

subsection \<open>When single breakers pass\<close>

lemma cb1_pass:
  "cb1_check X ctx = Some Pass \<Longrightarrow> cx_order ctx = Some ord \<Longrightarrow> oc_price (po_core ord) = Some p \<Longrightarrow>
   0 < p \<Longrightarrow> \<exists>n. dec_mul X (oc_qty (po_core ord)) p = Some n \<and> n \<le> max_single_order_notional (cx_config ctx)"
  by (auto simp: cb1_check_def positive_price_def bind_Some_iff Let_def split: if_splits)

lemma cb2_pass:
  assumes "cb2_check X ctx = Some Pass" and "cx_order ctx = Some ord"
    and "oc_price (po_core ord) = Some p" and "0 < p"
  shows "\<exists>n net gross. dec_mul X (oc_qty (po_core ord)) p = Some n \<and>
    project_net_and_gross X (fst (book_exposure (cx_firm_book ctx) (oc_instrument_id (po_core ord))))
      (snd (book_exposure (cx_firm_book ctx) (oc_instrument_id (po_core ord))))
      (signed_notional (oc_side (po_core ord)) n) = Some (net, gross) \<and>
    gross \<le> max_instrument_position_notional (cx_config ctx)"
  using assms
  by (cases "List.find (\<lambda>e. ie_instrument e = oc_instrument_id (po_core ord))
        (fb_instruments (cx_firm_book ctx))")
    (auto simp: cb2_check_def positive_price_def bind_Some_iff Let_def book_exposure_def
      signed_notional_def split: if_splits)

lemma loss_pass:
  "cb4_check X b ctx = Some Pass \<Longrightarrow> 0 < fb_nav (cx_firm_book ctx) \<Longrightarrow>
   \<exists>l. dec_mul X (max_daily_loss_pct (cx_config ctx)) (fb_nav (cx_firm_book ctx)) = Some l \<and>
     - l \<le> fb_daily_pnl (cx_firm_book ctx)"
  "cb5_check X c ctx = Some Pass \<Longrightarrow> 0 < fb_nav (cx_firm_book ctx) \<Longrightarrow>
   \<exists>l. dec_mul X (max_hourly_loss_pct (cx_config ctx)) (fb_nav (cx_firm_book ctx)) = Some l \<and>
     - l \<le> fb_hourly_pnl (cx_firm_book ctx)"
  by (auto simp: cb4_check_def cb5_check_def bind_Some_iff split: if_splits)

lemma cb3_pass:
  "cb3_check b ctx = Some Pass \<longleftrightarrow> \<not> cb3_tripped b \<and>
   fb_gross_notional (cx_firm_book ctx) \<le> max_firm_gross_notional (cx_config ctx)"
  by (auto simp: cb3_check_def)

lemma rate_pass:
  "cb6_check ctx = Pass \<longleftrightarrow> cx_firm_orders_last_60s ctx \<le> max_firm_orders_per_min (cx_config ctx)"
  "cb11_check ctx = Pass \<longleftrightarrow> cx_sequencer_queue_depth ctx \<le> max_sequencer_queue_depth (cx_config ctx)"
  by (auto simp: cb6_check_def cb11_check_def not_less)

lemma cb7_pass:
  "cx_order ctx = Some ord \<Longrightarrow> cb7_check ctx = Pass \<longleftrightarrow>
   unwrap_or (cx_agent_orders_last_60s ctx (oc_agent_id (po_core ord))) 0 \<le>
     max_agent_orders_per_min (cx_config ctx)"
  by (auto simp: cb7_check_def Let_def not_less)

lemma cb10_pass:
  "cx_order ctx = Some ord \<Longrightarrow> cb10_check ctx = Pass \<longleftrightarrow>
   oc_dry_run (po_core ord) \<or> cx_execution_mode ctx = Live"
  by (auto simp: cb10_check_def)

lemma cb8_pass:
  "cb8_check X ctx = Some Pass \<Longrightarrow> cx_order ctx = Some ord \<Longrightarrow>
   cx_venue_error_stats ctx (oc_venue_id (po_core ord)) = Some st \<Longrightarrow> 0 < total_last_5min st \<Longrightarrow>
   \<exists>r. dec_div X (of_int (uint (errors_last_5min st))) (of_int (uint (total_last_5min st))) = Some r \<and>
     r \<le> max_venue_error_rate (cx_config ctx)"
  by (auto simp: cb8_check_def bind_Some_iff Let_def not_less split: if_splits)

lemma cb9_pass:
  assumes "cx_order ctx = Some ord"
  shows "cb9_check X ctx = Pass \<longleftrightarrow>
    (\<exists>h t. cx_venue_health ctx (oc_venue_id (po_core ord)) = Some h \<and> vh_state h = Connected \<and>
      vh_last_heartbeat_at h = Some t \<and> 0 \<le> num_seconds X (cx_now ctx - t) \<and>
      (of_int (num_seconds X (cx_now ctx - t)) :: u64) \<le> max_venue_disconnect_secs (cx_config ctx))"
  using assms
  by (auto simp: cb9_check_def Let_def is_submittable_iff not_less split: option.splits if_splits)

lemma trunc_div_nonneg: "0 < c \<Longrightarrow> 0 \<le> trunc_div d c \<longleftrightarrow> - c < d"
  using pos_imp_zdiv_nonneg_iff [of c d] pos_imp_zdiv_pos_iff [of c "- d"]
  by (auto simp: trunc_div_def sgn_if)

lemma of_int_le_word:
  "0 \<le> k \<Longrightarrow> k < 2 ^ 64 \<Longrightarrow> (of_int k :: u64) \<le> m \<longleftrightarrow> k \<le> uint m"
  by (simp add: word_le_def uint_word_of_int)

lemma trunc_div_eq: "0 < c \<Longrightarrow> - c < d \<Longrightarrow> trunc_div d c = (if 0 \<le> d then d div c else 0)"
  by (auto simp: trunc_div_def sgn_if)

lemma age_le:
  assumes "- 1000000000 < d" and "d < 2 ^ 64 * 1000000000"
  shows "(of_int (trunc_div d 1000000000) :: u64) \<le> m \<longleftrightarrow> d div 1000000000 \<le> uint m"
proof (cases "0 \<le> d")
  case True
  with assms show ?thesis by (simp add: trunc_div_eq of_int_le_word)
next
  case False
  then have "d div 1000000000 < 0" by (simp add: pos_imp_zdiv_neg_iff)
  also have "0 \<le> uint m" by simp
  finally show ?thesis using False assms by (simp add: trunc_div_eq)
qed

subsection \<open>Properties\<close>

text \<open>
  C6: The bank runs its breakers in the documented order: the verdict of \<open>check_all\<close> is that of
  the first gate that does not pass, where a cancel meets no gate and a reduce-only order none
  of CB-1, CB-3, CB-4 and CB-5; the only change of state is the latch of the breaker whose
  verdict is returned.
\<close>

theorem check_all_documented_order:
  "check_all X b ctx =
     map_option (\<lambda>r. (bank_after b r, r)) (first_failure (documented_gates X b ctx))"
  by (rule check_all_spec)

text \<open>
  C11: The daily-loss halt is permanent without CIO approval: through any history of checks and
  resets in which no reset of CB-4 with CIO approval occurs, a tripped CB-4 stays tripped and
  every new order is answered by the CB-4 halt.
\<close>

theorem daily_loss_halt_persists:
  assumes "run_bank X b ops = Some (b', vs)" and "cb4_tripped (bk_cb4 b)"
    and "\<forall>a. ResetBreaker ''CB-4'' (CioApproval a) \<notin> set ops"
  shows "cb4_tripped (bk_cb4 b') \<and>
    (\<forall>(ctx, r) \<in> set vs. cx_operation_kind ctx = NewOrder \<longrightarrow> r = HaltAll ''CB-4'' cb4_latched_msg)"
  using assms
proof (induction ops arbitrary: b vs)
  case (Cons op ops)
  show ?case
  proof (cases op)
    case (CheckAll ctx)
    with Cons.prems(1) obtain b1 r vs1 where c: "check_all X b ctx = Some (b1, r)"
        and run: "run_bank X b1 ops = Some (b', vs1)" and vs: "vs = (ctx, r) # vs1"
      by (auto simp: bind_Some_iff)
    have "cb4_tripped (bk_cb4 b1)"
      using check_all_bank [OF c] Cons.prems(2) by (simp add: bank_after_tripped)
    with Cons.IH [OF run] Cons.prems(3) vs c check_all_latched [OF _ Cons.prems(2)]
    show ?thesis by auto
  next
    case (ResetBreaker n reason)
    let ?b = "case bank_reset b n reason of Inl _ \<Rightarrow> b | Inr b' \<Rightarrow> b'"
    have "cb4_tripped (bk_cb4 ?b)"
      using Cons.prems(2,3) ResetBreaker bank_reset_cb4 [OF Cons.prems(2), of n reason]
      by (cases "bank_reset b n reason") auto
    with Cons ResetBreaker show ?thesis by auto
  qed
qed simp

theorem daily_loss_halt_persists_witness:
  "\<exists>b' vs. run_bank ideal_ext (bank_new\<lparr>bk_cb4 := cb4_latch cb4_new\<rparr>)
      [CheckAll example_ctx, ResetBreaker ''CB-4'' (ManualOperator ''ops'')] = Some (b', vs) \<and>
    vs \<noteq> [] \<and> cb4_tripped (bk_cb4 b') \<and>
    (\<forall>(ctx, r) \<in> set vs. cx_operation_kind ctx = NewOrder \<longrightarrow> r = HaltAll ''CB-4'' cb4_latched_msg)"
proof -
  let ?b = "bank_new\<lparr>bk_cb4 := cb4_latch cb4_new\<rparr>"
  have run: "run_bank ideal_ext ?b
      [CheckAll example_ctx, ResetBreaker ''CB-4'' (ManualOperator ''ops'')] =
      Some (?b, [(example_ctx, HaltAll ''CB-4'' cb4_latched_msg)])"
    by (simp add: check_all_def example_ctx_def cb4.latch_trips bank_reset_def)
  show ?thesis
    using daily_loss_halt_persists [OF run] run by (auto simp: cb4.latch_trips)
qed

text \<open>
  C12: A new order that passes the bank meets the limit of each of the eleven breakers: no latch is
  set, the order is a dry run unless the engine is live, firm losses (where the NAV is positive) and
  gross notional are within their caps, the queue and the order rates are within theirs, its
  notional and the projected exposure to its instrument (where it has a positive price) are within
  the caps, the error rate of its venue (where there is traffic) is within its limit, and the
  venue is connected with a heartbeat that is not too old. The bank is left unchanged.
\<close>

theorem check_all_pass_limits:
  assumes "check_all X b ctx = Some (b', Pass)" and "cx_operation_kind ctx = NewOrder"
    and "cx_order ctx = Some ord"
  shows "b' = b \<and> \<not> any_tripped b \<and>
    (oc_dry_run (po_core ord) \<or> cx_execution_mode ctx = Live) \<and>
    (0 < fb_nav (cx_firm_book ctx) \<longrightarrow>
       (\<exists>l. dec_mul X (max_daily_loss_pct (cx_config ctx)) (fb_nav (cx_firm_book ctx)) = Some l \<and>
          - l \<le> fb_daily_pnl (cx_firm_book ctx)) \<and>
       (\<exists>l. dec_mul X (max_hourly_loss_pct (cx_config ctx)) (fb_nav (cx_firm_book ctx)) = Some l \<and>
          - l \<le> fb_hourly_pnl (cx_firm_book ctx))) \<and>
    fb_gross_notional (cx_firm_book ctx) \<le> max_firm_gross_notional (cx_config ctx) \<and>
    cx_sequencer_queue_depth ctx \<le> max_sequencer_queue_depth (cx_config ctx) \<and>
    cx_firm_orders_last_60s ctx \<le> max_firm_orders_per_min (cx_config ctx) \<and>
    unwrap_or (cx_agent_orders_last_60s ctx (oc_agent_id (po_core ord))) 0 \<le>
      max_agent_orders_per_min (cx_config ctx) \<and>
    (\<forall>p. oc_price (po_core ord) = Some p \<and> 0 < p \<longrightarrow>
       (\<exists>n net gross. dec_mul X (oc_qty (po_core ord)) p = Some n \<and>
          n \<le> max_single_order_notional (cx_config ctx) \<and>
          project_net_and_gross X
            (fst (book_exposure (cx_firm_book ctx) (oc_instrument_id (po_core ord))))
            (snd (book_exposure (cx_firm_book ctx) (oc_instrument_id (po_core ord))))
            (signed_notional (oc_side (po_core ord)) n) = Some (net, gross) \<and>
          gross \<le> max_instrument_position_notional (cx_config ctx))) \<and>
    (\<forall>st. cx_venue_error_stats ctx (oc_venue_id (po_core ord)) = Some st \<and> 0 < total_last_5min st \<longrightarrow>
       (\<exists>r. dec_div X (of_int (uint (errors_last_5min st))) (of_int (uint (total_last_5min st))) = Some r \<and>
          r \<le> max_venue_error_rate (cx_config ctx))) \<and>
    (\<exists>h t. cx_venue_health ctx (oc_venue_id (po_core ord)) = Some h \<and> vh_state h = Connected \<and>
       vh_last_heartbeat_at h = Some t \<and> 0 \<le> num_seconds X (cx_now ctx - t) \<and>
       (of_int (num_seconds X (cx_now ctx - t)) :: u64) \<le> max_venue_disconnect_secs (cx_config ctx))"
proof -
  have b: "b' = b" using check_all_bank [OF assms(1)] by simp
  have "first_failure (documented_gates X b ctx) = Some Pass"
    using assms(1) by (auto simp: check_all_spec)
  then have g: "\<not> cb4_tripped (bk_cb4 b)" "\<not> cb5_tripped (bk_cb5 b)" "\<not> cb3_tripped (bk_cb3 b)"
      "cb10_check ctx = Pass" "cb4_check X (bk_cb4 b) ctx = Some Pass"
      "cb5_check X (bk_cb5 b) ctx = Some Pass" "cb3_check (bk_cb3 b) ctx = Some Pass"
      "cb11_check ctx = Pass" "cb1_check X ctx = Some Pass" "cb2_check X ctx = Some Pass"
      "cb6_check ctx = Pass" "cb7_check ctx = Pass" "cb9_check X ctx = Pass" "cb8_check X ctx = Some Pass"
    using assms(2)
    by (auto simp: documented_gates_def tail_gates_def pass_append pass_gates when_tripped_def
        simp del: first_failure.simps(2) split: if_splits)
  have "\<exists>n net gross. dec_mul X (oc_qty (po_core ord)) p = Some n \<and>
       n \<le> max_single_order_notional (cx_config ctx) \<and>
       project_net_and_gross X
         (fst (book_exposure (cx_firm_book ctx) (oc_instrument_id (po_core ord))))
         (snd (book_exposure (cx_firm_book ctx) (oc_instrument_id (po_core ord))))
         (signed_notional (oc_side (po_core ord)) n) = Some (net, gross) \<and>
       gross \<le> max_instrument_position_notional (cx_config ctx)"
    if "oc_price (po_core ord) = Some p" "0 < p" for p
    using cb1_pass [OF g(9) assms(3) that] cb2_pass [OF g(10) assms(3) that] by auto
  with b g(1-3) loss_pass(1) [OF g(5)] loss_pass(2) [OF g(6)]
    g(7) [unfolded cb3_pass] g(8,11) [unfolded rate_pass] g(4) [unfolded cb10_pass [OF assms(3)]]
    g(12) [unfolded cb7_pass [OF assms(3)]] g(13) [unfolded cb9_pass [OF assms(3)]] cb8_pass [OF g(14) assms(3)]
  show ?thesis unfolding any_tripped_def by blast
qed

lemmas example_ctx_defs = example_ctx_def example_config_def example_book_def example_health_def
  into_validated_def pipeline_new_def example_core_def venue_health_new_def

lemma example_ctx_pass: "check_all ideal_ext bank_new example_ctx = Some (bank_new, Pass)"
  by (simp add: check_all_def example_ctx_defs bank_new_def cb3_new_def cb4_new_def cb5_new_def
      cb10_check_def cb4_check_def cb5_check_def cb3_check_def cb11_check_def cb1_check_def
      cb2_check_def cb6_check_def cb7_check_def cb8_check_def cb9_check_def positive_price_def
      is_submittable_def project_net_and_gross_def unwrap_or_def trunc_div_def Let_def)

theorem check_all_pass_limits_witness:
  "\<not> any_tripped bank_new \<and> cx_operation_kind example_ctx = NewOrder \<and>
   (\<exists>h t. cx_venue_health example_ctx (VenueId ''bybit'') = Some h \<and> vh_state h = Connected \<and>
     vh_last_heartbeat_at h = Some t)"
proof -
  have "cx_operation_kind example_ctx = NewOrder"
      "cx_order example_ctx = Some (into_validated (pipeline_new example_core) 0)"
      "oc_price (po_core (into_validated (pipeline_new example_core) 0)) = Some 65000"
      "(0::rat) < 65000" "0 < fb_nav (cx_firm_book example_ctx)"
      "oc_venue_id (po_core (into_validated (pipeline_new example_core) 0)) = VenueId ''bybit''"
    by (simp_all add: example_ctx_defs)
  with check_all_pass_limits [OF example_ctx_pass] show ?thesis by metis
qed

text \<open>
  C34: A breach of the daily loss cap halts trading: with no latch set, a new order that passes
  CB-10 while the daily P\&L is below the negated cap is answered by the CB-4 halt and the bank
  is halted from then on.
\<close>

theorem daily_loss_breach_halts:
  assumes "cx_operation_kind ctx = NewOrder" and "\<not> any_tripped b" and "cb10_check ctx = Pass"
    and "0 < fb_nav (cx_firm_book ctx)"
    and "dec_mul X (max_daily_loss_pct (cx_config ctx)) (fb_nav (cx_firm_book ctx)) = Some l"
    and "dec_mul X (max_daily_loss_pct (cx_config ctx)) 100 = Some pct"
    and "fb_daily_pnl (cx_firm_book ctx) < - l"
  shows "\<exists>b' m. check_all X b ctx = Some (b', HaltAll ''CB-4'' m) \<and> cb4_tripped (bk_cb4 b') \<and>
    is_halt_active b'"
  using assms
  by (auto simp: check_all_def any_tripped_def cb4_check_def is_halt_def is_halt_active_def
      cb4.latch_trips)

theorem daily_loss_breach_halts_witness:
  "\<exists>b' m. check_all ideal_ext bank_new example_loss_ctx = Some (b', HaltAll ''CB-4'' m) \<and>
     cb4_tripped (bk_cb4 b') \<and> is_halt_active b'"
  by (rule daily_loss_breach_halts [where l = 50000 and pct = 5])
    (simp_all add: example_loss_ctx_def example_ctx_defs any_tripped_def bank_new_def cb3_new_def
      cb4_new_def cb5_new_def cb10_check_def)

text \<open>
  C35: Positions can always be flattened during a halt: the verdict on a reduce-only order or a
  cancel does not depend on any latch and changes no latch, it is never a halt, and no verdict
  comes from CB-1, CB-3, CB-4 or CB-5. A cancel always passes.
\<close>

theorem flattening_bypasses_halts:
  assumes "cx_operation_kind ctx \<noteq> NewOrder" and "check_all X b ctx = Some (b', r)"
  shows "b' = b \<and> (\<forall>c. check_all X c ctx = Some (c, r)) \<and>
    (r = Pass \<or> (\<exists>n m. r = Reject n m \<and> n \<in> {''CB-2'', ''CB-6'', ''CB-7'', ''CB-8'', ''CB-9'', ''CB-10'', ''CB-11''})) \<and>
    (cx_operation_kind ctx = Cancel \<longrightarrow> r = Pass)"
proof -
  have ff: "first_failure (documented_gates X b ctx) = Some r"
    using assms(2) by (auto simp: check_all_spec)
  have same: "documented_gates X c ctx = documented_gates X b ctx" for c
    using assms(1) by (simp add: documented_gates_def split: operation_kind.split)
  have "r = Pass \<or> (\<exists>n m. r = Reject n m \<and>
      n \<in> {''CB-2'', ''CB-6'', ''CB-7'', ''CB-8'', ''CB-9'', ''CB-10'', ''CB-11''})"
  proof (cases "cx_operation_kind ctx")
    case ReduceOnly
    with ff have "first_failure (tail_gates X ctx) = Some r \<or> r = Pass \<or>
        (\<exists>m. r = Reject ''CB-10'' m \<or> r = Reject ''CB-11'' m)"
      by (auto simp: documented_gates_def cb10.gate_cases cb11.gate_cases
          simp del: first_failure.simps(2))
    then show ?thesis using tail_verdict by blast
  qed (use ff assms(1) in \<open>simp_all add: documented_gates_def\<close>)
  moreover from this have "bank_after c r = c" for c by (intro reject_bank_after) auto
  then have all: "check_all X c ctx = Some (c, r)" for c
    by (simp add: check_all_spec same [of c] ff)
  moreover have "cx_operation_kind ctx = Cancel \<Longrightarrow> r = Pass"
    using assms(2) by (simp add: check_all_def)
  ultimately show ?thesis using assms(2) by auto
qed

theorem flattening_bypasses_halts_witness:
  "check_all ideal_ext (bank_new\<lparr>bk_cb4 := cb4_latch cb4_new\<rparr>)
     (example_ctx\<lparr>cx_operation_kind := Cancel\<rparr>) =
   Some (bank_new\<lparr>bk_cb4 := cb4_latch cb4_new\<rparr>, Pass)"
proof -
  have "check_all ideal_ext bank_new (example_ctx\<lparr>cx_operation_kind := Cancel\<rparr>) = Some (bank_new, Pass)"
    by (simp add: check_all_def)
  from flattening_bypasses_halts [OF _ this] show ?thesis by simp
qed

text \<open>
  The resettable breakers: \<open>reset\<close> succeeds for CB-3 and CB-5 with any reason and for CB-4
  with CIO approval only; it opens that latch and no other, and every other request is an error.
\<close>

theorem bank_reset_correct:
  "case bank_reset b n reason of
     Inl e \<Rightarrow> \<not> (n \<in> {''CB-3'', ''CB-5''} \<or> n = ''CB-4'' \<and> (\<exists>a. reason = CioApproval a))
   | Inr b' \<Rightarrow> (n \<in> {''CB-3'', ''CB-5''} \<or> n = ''CB-4'' \<and> (\<exists>a. reason = CioApproval a)) \<and>
       (cb3_tripped (bk_cb3 b') \<longleftrightarrow> cb3_tripped (bk_cb3 b) \<and> n \<noteq> ''CB-3'') \<and>
       (cb4_tripped (bk_cb4 b') \<longleftrightarrow> cb4_tripped (bk_cb4 b) \<and> n \<noteq> ''CB-4'') \<and>
       (cb5_tripped (bk_cb5 b') \<longleftrightarrow> cb5_tripped (bk_cb5 b) \<and> n \<noteq> ''CB-5'')"
  by (cases reason) (auto simp: bank_reset_def cb3.reset_opens cb4.reset_opens cb5.reset_opens)

text \<open>
  CB-9 lets an order through exactly when its venue is connected and the last heartbeat is
  at most the configured number of whole seconds old. The age is truncated towards zero, so a
  heartbeat less than one second in the future also passes, although the source states that
  the breaker fails closed on future timestamps.
\<close>

theorem cb9_heartbeat_window:
  assumes "num_seconds_truncates X" and "cx_order ctx = Some ord"
    and "cx_venue_health ctx (oc_venue_id (po_core ord)) = Some h"
    and "vh_last_heartbeat_at h = Some t" and "cx_now ctx - t < 2 ^ 64 * 1000000000"
  shows "cb9_check X ctx = Pass \<longleftrightarrow>
    vh_state h = Connected \<and> t - 1000000000 < cx_now ctx \<and>
    (cx_now ctx - t) div 1000000000 \<le> uint (max_venue_disconnect_secs (cx_config ctx))"
proof -
  let ?d = "cx_now ctx - t"
  have s: "num_seconds X ?d = trunc_div ?d 1000000000"
    using assms(1) by (simp add: num_seconds_truncates_def)
  have "0 \<le> trunc_div ?d 1000000000 \<longleftrightarrow> - 1000000000 < ?d" by (rule trunc_div_nonneg) simp
  moreover have "(of_int (trunc_div ?d 1000000000) :: u64) \<le> max_venue_disconnect_secs (cx_config ctx)
      \<longleftrightarrow> ?d div 1000000000 \<le> uint (max_venue_disconnect_secs (cx_config ctx))"
    if "- 1000000000 < ?d"
    using assms(5) that by (simp add: age_le)
  ultimately show ?thesis using assms(2-4) by (auto simp: cb9_pass s)
qed

theorem cb9_heartbeat_window_witness:
  "cb9_check ideal_ext (example_ctx\<lparr>cx_now := - 999999999\<rparr>) = Pass"
proof -
  let ?c = "example_ctx\<lparr>cx_now := - 999999999\<rparr>"
  have "cx_order ?c = Some (into_validated (pipeline_new example_core) 0)"
      "cx_venue_health ?c (oc_venue_id (po_core (into_validated (pipeline_new example_core) 0))) =
        Some example_health"
      "vh_last_heartbeat_at example_health = Some 0" "cx_now ?c - 0 < 2 ^ 64 * 1000000000"
    by (simp_all add: example_ctx_defs)
  from cb9_heartbeat_window [OF _ this, of ideal_ext] show ?thesis
    by (simp add: example_ctx_defs zdiv_eq_0_iff)
qed

end
