(* ===== verification/Risk_Manager.thy ===== *)
theory Risk_Manager
  imports Circuit_Breaker
begin

text \<open>
  Layer 1 of the risk system (\<open>risk/src/lib.rs\<close>): \<open>AgentRiskManager::evaluate\<close> and the checks
  it runs. A check of the source pushes violations or resize candidates onto vectors of the
  caller; here it returns what it pushes and the caller appends. \<open>None\<close> is a panic of decimal
  arithmetic. The lemmas characterise the empty result of each check; the properties say what
  an approval, a resize and a rejection mean.
\<close>

datatype evaluation_path = SubmitSignal | SubmitOrder | SubmitBatch

record risk_approval =
  rp_approved_at :: datetime
  rp_warnings :: "risk_violation list"
  rp_checks_performed :: "risk_check_result list"

record agent_risk_manager =
  rm_nav :: decimal
  rm_agent_limits :: "agent_id \<rightharpoonup> agent_risk_limits"
  rm_instrument_limits :: "instrument_id \<rightharpoonup> instrument_risk_limits"
  rm_venue_limits :: "venue_id \<rightharpoonup> venue_risk_limits"

record resize_candidate =
  rz_new_qty :: decimal
  rz_reason :: msg
  rz_warning :: risk_violation

subsection \<open>Constants and constructors\<close>

definition position_nav_cap :: decimal where "position_nav_cap = 5 / 100"
definition account_risk_nav_cap :: decimal where "account_risk_nav_cap = 1 / 100"
definition drawdown_halt_pct :: decimal where "drawdown_halt_pct = - 15 / 100"
definition cash_reserve_min_pct :: decimal where "cash_reserve_min_pct = 20 / 100"
definition min_risk_reward_ratio :: decimal where "min_risk_reward_ratio = 2"

definition risk_manager_new ::
  "decimal \<Rightarrow> (agent_id \<rightharpoonup> agent_risk_limits) \<Rightarrow> (instrument_id \<rightharpoonup> instrument_risk_limits) \<Rightarrow>
   (venue_id \<rightharpoonup> venue_risk_limits) \<Rightarrow> agent_risk_manager"
where
  "risk_manager_new nav al il vl =
     \<lparr>rm_nav = nav, rm_agent_limits = al, rm_instrument_limits = il, rm_venue_limits = vl\<rparr>"

definition violation :: "string \<Rightarrow> decimal \<Rightarrow> decimal \<Rightarrow> string \<Rightarrow> string \<Rightarrow> risk_violation" where
  "violation check_name current_value limit suggested_action reason =
     \<lparr>rv_check_name = check_name, rv_violation_type = Hard,
      rv_current_value = [PDec current_value], rv_limit = [PDec limit],
      rv_suggested_action = [PStr suggested_action, PStr '': '', PStr reason]\<rparr>"

definition soft_violation :: "string \<Rightarrow> decimal \<Rightarrow> decimal \<Rightarrow> string \<Rightarrow> string \<Rightarrow> risk_violation" where
  "soft_violation check_name current_value limit suggested_action reason =
     \<lparr>rv_check_name = check_name, rv_violation_type = Soft,
      rv_current_value = [PDec current_value], rv_limit = [PDec limit],
      rv_suggested_action = [PStr suggested_action, PStr '': '', PStr reason]\<rparr>"

definition string_violation :: "string \<Rightarrow> string \<Rightarrow> string \<Rightarrow> string \<Rightarrow> string \<Rightarrow> risk_violation" where
  "string_violation check_name current_value limit suggested_action reason =
     \<lparr>rv_check_name = check_name, rv_violation_type = Hard,
      rv_current_value = lit current_value, rv_limit = lit limit,
      rv_suggested_action = [PStr suggested_action, PStr '': '', PStr reason]\<rparr>"

text \<open>\<open>if c \<guillemotleft> vec.push(v) \<guillemotright>\<close>\<close>

definition push_if :: "bool \<Rightarrow> 'a \<Rightarrow> 'a list" where
  "push_if c v = (if c then [v] else [])"

definition signed_delta :: "side \<Rightarrow> decimal \<Rightarrow> decimal" where
  "signed_delta sd qty = (case sd of Buy \<Rightarrow> qty | Sell \<Rightarrow> - qty)"

definition signed_value_from_net :: "decimal \<Rightarrow> decimal \<Rightarrow> decimal" where
  "signed_value_from_net net_qty absolute_value =
     (if 0 \<le> net_qty then absolute_value else - absolute_value)"

subsection \<open>The checks\<close>

definition effective_nav :: "agent_risk_manager \<Rightarrow> firm_book \<Rightarrow> risk_violation + decimal" where
  "effective_nav m fb =
     (if rm_nav m \<le> 0 then Inl (violation ''manager_nav_positive'' (rm_nav m) 0 ''reject''
        ''configured risk-manager NAV must be positive'')
      else if fb_nav fb \<le> 0 then Inl (violation ''firm_nav_positive'' (fb_nav fb) 0 ''reject''
        ''firm-book NAV must be positive'')
      else Inr (min (rm_nav m) (fb_nav fb)))"

definition check_agent_permissions :: "order_core \<Rightarrow> agent_risk_limits \<Rightarrow> risk_violation list" where
  "check_agent_permissions core al =
     (case al_allowed_instruments al of
        None \<Rightarrow> []
      | Some allowed \<Rightarrow> push_if (oc_instrument_id core \<notin> set allowed)
          (string_violation ''agent_allowed_instruments''
            (instrument_id_str (oc_instrument_id core)) ''instrument in agent whitelist'' ''reject''
            ''agent is not permitted to trade this instrument'')) @
     (case al_allowed_venues al of
        None \<Rightarrow> []
      | Some allowed \<Rightarrow> push_if (oc_venue_id core \<notin> set allowed)
          (string_violation ''agent_allowed_venues''
            (venue_id_str (oc_venue_id core)) ''venue in agent whitelist'' ''reject''
            ''agent is not permitted to trade this venue''))"

definition check_agent_budget ::
  "decimal \<Rightarrow> decimal \<Rightarrow> decimal \<Rightarrow> agent_risk_limits \<Rightarrow> risk_violation list"
where
  "check_agent_budget gross free instrument_gross al =
     push_if (free < 0)
       (violation ''agent_free_capital'' free 0 ''reject''
         ''order exceeds the agent's free capital'') @
     push_if (al_max_position_notional al < instrument_gross)
       (violation ''agent_max_position_notional'' instrument_gross (al_max_position_notional al)
         ''reject'' ''order exceeds the agent's max single-position notional'') @
     push_if (al_max_gross_notional al < gross)
       (violation ''agent_max_gross_notional'' gross (al_max_gross_notional al)
         ''reject'' ''projected agent gross notional exceeds the configured cap'')"

definition check_position_limit ::
  "ext \<Rightarrow> decimal \<Rightarrow> decimal \<Rightarrow> decimal \<Rightarrow> resize_candidate list option"
where
  "check_position_limit X order_notional price nav = do {
     max_position_notional \<leftarrow> dec_mul X nav position_nav_cap;
     if max_position_notional < order_notional
     then do {
       new_qty \<leftarrow> dec_div X max_position_notional price;
       Some [\<lparr>rz_new_qty = new_qty,
              rz_reason = lit ''position notional exceeds 5% NAV; resize to the 5% cap'',
              rz_warning = soft_violation ''position_notional_pct'' order_notional
                max_position_notional ''resize'' ''order exceeds the 5% NAV single-position cap''\<rparr>] }
     else Some [] }"

definition check_account_risk ::
  "ext \<Rightarrow> order_core \<Rightarrow> decimal \<Rightarrow> decimal \<Rightarrow> (resize_candidate list \<times> risk_violation list) option"
where
  "check_account_risk X core price nav = do {
     risk_per_unit \<leftarrow> (case oc_stop_loss core of
         None \<Rightarrow> Some price
       | Some stop_loss \<Rightarrow> do { d \<leftarrow> dec_sub X price stop_loss; Some \<bar>d\<bar> });
     max_loss_cap \<leftarrow> dec_mul X nav account_risk_nav_cap;
     if risk_per_unit \<le> 0
     then Some ([], [violation ''account_risk_distance_positive'' risk_per_unit 0 ''reject''
       ''entry price and stop loss must define a positive loss distance''])
     else do {
       projected_max_loss \<leftarrow> dec_mul X (oc_qty core) risk_per_unit;
       if max_loss_cap < projected_max_loss
       then do {
         new_qty \<leftarrow> dec_div X max_loss_cap risk_per_unit;
         Some ([\<lparr>rz_new_qty = new_qty,
                 rz_reason =
                   lit ''projected account risk exceeds 1% NAV; resize to the max-loss cap'',
                 rz_warning = soft_violation ''account_risk_pct'' projected_max_loss max_loss_cap
                   ''resize'' ''projected max loss exceeds the 1% NAV cap''\<rparr>], []) }
       else Some ([], []) } }"

definition check_leverage ::
  "ext \<Rightarrow> decimal \<Rightarrow> decimal \<Rightarrow> instrument_risk_limits \<Rightarrow> risk_violation list option"
where
  "check_leverage X gross free il =
     (if il_max_leverage il \<le> 0
      then Some [violation ''instrument_max_leverage_positive'' (il_max_leverage il) 0 ''reject''
        ''instrument max leverage must be positive'']
      else if free \<le> 0
      then Some [violation ''agent_free_capital_positive'' free 0 ''reject''
        ''agent free capital must be positive to evaluate leverage'']
      else do {
        projected_leverage \<leftarrow> dec_div X gross free;
        Some (push_if (il_max_leverage il < projected_leverage)
          (violation ''instrument_max_leverage'' projected_leverage (il_max_leverage il) ''reject''
            ''projected leverage exceeds the instrument leverage cap'')) })"

definition check_drawdown :: "firm_book \<Rightarrow> risk_violation list" where
  "check_drawdown fb = push_if (fb_current_drawdown_pct fb < drawdown_halt_pct)
     (violation ''firm_drawdown_pct'' (fb_current_drawdown_pct fb) drawdown_halt_pct ''halt_all''
       ''firm drawdown breached the 15% halt threshold'')"

definition check_cash_reserve ::
  "ext \<Rightarrow> decimal \<Rightarrow> decimal \<Rightarrow> firm_book \<Rightarrow> risk_violation list option"
where
  "check_cash_reserve X signed_order_notional nav fb = do {
     projected_cash_available \<leftarrow> dec_sub X (fb_cash_available fb) signed_order_notional;
     projected_cash_pct \<leftarrow> dec_div X projected_cash_available nav;
     Some (push_if (projected_cash_pct < cash_reserve_min_pct)
       (violation ''cash_reserve_pct'' projected_cash_pct cash_reserve_min_pct ''reject''
         ''projected cash reserve falls below the 20% NAV minimum'')) }"

definition check_instrument_limits ::
  "ext \<Rightarrow> decimal \<Rightarrow> instrument_risk_limits \<Rightarrow> decimal \<Rightarrow> decimal \<Rightarrow> decimal \<Rightarrow>
   risk_violation list option"
where
  "check_instrument_limits X nav il net_qty gross_qty gross_notional = do {
     projected_concentration_pct \<leftarrow> dec_div X gross_notional nav;
     Some (push_if (il_max_net_qty il < \<bar>net_qty\<bar>)
         (violation ''instrument_max_net_qty'' \<bar>net_qty\<bar> (il_max_net_qty il) ''reject''
           ''projected instrument net quantity exceeds the configured cap'') @
       push_if (il_max_gross_qty il < gross_qty)
         (violation ''instrument_max_gross_qty'' gross_qty (il_max_gross_qty il) ''reject''
           ''projected instrument gross quantity exceeds the configured cap'') @
       push_if (il_max_concentration_pct il < projected_concentration_pct)
         (violation ''instrument_max_concentration_pct'' projected_concentration_pct
           (il_max_concentration_pct il) ''reject''
           ''projected instrument exposure exceeds the concentration cap'')) }"

definition check_venue_limits ::
  "ext \<Rightarrow> decimal \<Rightarrow> u32 \<Rightarrow> decimal \<Rightarrow> venue_risk_limits \<Rightarrow> risk_violation list option"
where
  "check_venue_limits X notional positions nav vl = do {
     projected_pct_of_nav \<leftarrow> dec_div X notional nav;
     Some (push_if (vl_max_notional vl < notional)
         (violation ''venue_max_notional'' notional (vl_max_notional vl) ''reject''
           ''projected venue notional exceeds the configured cap'') @
       push_if (vl_max_pct_of_nav vl < projected_pct_of_nav)
         (violation ''venue_max_pct_of_nav'' projected_pct_of_nav (vl_max_pct_of_nav vl) ''reject''
           ''projected venue concentration exceeds the NAV cap'') @
       push_if (vl_max_positions vl < positions)
         (violation ''venue_max_positions'' (of_int (uint positions))
           (of_int (uint (vl_max_positions vl))) ''reject''
           ''projected venue position count exceeds the configured cap'')) }"

definition check_signal_requirements ::
  "ext \<Rightarrow> order_core \<Rightarrow> decimal \<Rightarrow> risk_violation list option"
where
  "check_signal_requirements X core price = (case oc_stop_loss core of
       None \<Rightarrow> Some [string_violation ''signal_stop_loss_required'' ''missing'' ''present'' ''reject''
         ''SubmitSignal orders must define a stop loss'']
     | Some stop_loss \<Rightarrow> (case oc_take_profit core of
         None \<Rightarrow> Some []
       | Some take_profit \<Rightarrow> do {
           d \<leftarrow> dec_sub X price stop_loss;
           let risk_distance = \<bar>d\<bar>;
           if risk_distance \<le> 0
           then Some [violation ''signal_risk_distance_positive'' risk_distance 0 ''reject''
             ''risk/reward evaluation requires a positive stop distance'']
           else do {
             e \<leftarrow> dec_sub X take_profit price;
             let reward_distance = \<bar>e\<bar>;
             risk_reward_ratio \<leftarrow> dec_div X reward_distance risk_distance;
             Some (push_if (risk_reward_ratio < min_risk_reward_ratio)
               (violation ''signal_risk_reward_ratio'' risk_reward_ratio min_risk_reward_ratio
                 ''reject'' ''signal risk/reward ratio is below 2:1'')) } }))"

definition tightest_resize :: "resize_candidate list \<Rightarrow> resize_candidate option" where
  "tightest_resize candidates = min_by rz_new_qty candidates"

subsection \<open>Evaluation\<close>

text \<open>The local variables that \<open>evaluate\<close> computes from the book and the order.\<close>

record projections =
  pj_order_notional :: decimal
  pj_signed_order_notional :: decimal
  pj_instrument_net_qty :: decimal
  pj_instrument_gross_qty :: decimal
  pj_instrument_gross_notional :: decimal
  pj_agent_instrument_gross_notional :: decimal
  pj_agent_gross_notional :: decimal
  pj_agent_free_capital :: decimal
  pj_venue_notional :: decimal
  pj_venue_positions :: u32

definition map_or :: "'b \<Rightarrow> ('a \<Rightarrow> 'b) \<Rightarrow> 'a option \<Rightarrow> 'b" where
  "map_or d f x = (case x of None \<Rightarrow> d | Some y \<Rightarrow> f y)"

definition project_exposures ::
  "ext \<Rightarrow> order_core \<Rightarrow> decimal \<Rightarrow> firm_book \<Rightarrow> agent_allocation \<Rightarrow> projections option"
where
  "project_exposures X core price fb aa = do {
     order_notional \<leftarrow> dec_mul X (oc_qty core) price;
     let instrument = List.find (\<lambda>e. ie_instrument e = oc_instrument_id core) (fb_instruments fb);
     let agent_instrument = Option.bind instrument
           (\<lambda>e. List.find (\<lambda>a. ae_agent a = oc_agent_id core) (ie_by_agent e));
     let venue_instrument = Option.bind instrument
           (\<lambda>e. List.find (\<lambda>v. ve_venue v = oc_venue_id core) (ie_by_venue e));
     let agent_net = map_or 0 (\<lambda>a. signed_value_from_net (ae_net_qty a) \<bar>ae_notional_usd a\<bar>)
           agent_instrument;
     let agent_gross = map_or 0 (\<lambda>a. \<bar>ae_notional_usd a\<bar>) agent_instrument;
     let venue_net = map_or 0 (\<lambda>v. signed_value_from_net (ve_net_qty v) \<bar>ve_notional_usd v\<bar>)
           venue_instrument;
     let venue_gross = map_or 0 (\<lambda>v. \<bar>ve_notional_usd v\<bar>) venue_instrument;
     let signed_order_qty = signed_delta (oc_side core) (oc_qty core);
     let signed_order_notional = signed_delta (oc_side core) order_notional;
     (instrument_net_qty, instrument_gross_qty) \<leftarrow> project_net_and_gross X
       (map_or 0 ie_net_qty instrument) (map_or 0 ie_gross_qty instrument) signed_order_qty;
     (_, instrument_gross_notional) \<leftarrow> project_net_and_gross X
       (map_or 0 ie_net_notional_usd instrument) (map_or 0 ie_gross_notional_usd instrument)
       signed_order_notional;
     (_, agent_instrument_gross) \<leftarrow>
       project_net_and_gross X agent_net agent_gross signed_order_notional;
     a1 \<leftarrow> dec_sub X (aa_used_capital aa) agent_gross;
     agent_gross_notional \<leftarrow> dec_add X a1 agent_instrument_gross;
     agent_free_capital \<leftarrow> dec_sub X (aa_allocated_capital aa) agent_gross_notional;
     current_venue_notional \<leftarrow> dec_sum X 0
       (map (\<lambda>v. \<bar>ve_notional_usd v\<bar>) (filter (\<lambda>v. ve_venue v = oc_venue_id core)
         (concat (map ie_by_venue (fb_instruments fb)))));
     let current_venue_positions = (of_nat (length (filter
           (\<lambda>e. list_ex (\<lambda>v. ve_venue v = oc_venue_id core) (ie_by_venue e))
           (fb_instruments fb))) :: u32);
     (_, venue_instrument_gross) \<leftarrow>
       project_net_and_gross X venue_net venue_gross signed_order_notional;
     v1 \<leftarrow> dec_sub X current_venue_notional venue_gross;
     venue_notional \<leftarrow> dec_add X v1 venue_instrument_gross;
     let venue_positions =
           current_venue_positions + (if venue_instrument = None then 1 else 0);
     Some \<lparr>pj_order_notional = order_notional,
           pj_signed_order_notional = signed_order_notional,
           pj_instrument_net_qty = instrument_net_qty,
           pj_instrument_gross_qty = instrument_gross_qty,
           pj_instrument_gross_notional = instrument_gross_notional,
           pj_agent_instrument_gross_notional = agent_instrument_gross,
           pj_agent_gross_notional = agent_gross_notional,
           pj_agent_free_capital = agent_free_capital,
           pj_venue_notional = venue_notional,
           pj_venue_positions = venue_positions\<rparr> }"

text \<open>The hard violations and resize candidates of an order, in the order of the checks.\<close>

definition run_checks ::
  "ext \<Rightarrow> order_core \<Rightarrow> decimal \<Rightarrow> decimal \<Rightarrow> firm_book \<Rightarrow> agent_risk_limits \<Rightarrow>
   instrument_risk_limits \<Rightarrow> venue_risk_limits \<Rightarrow> projections \<Rightarrow> evaluation_path \<Rightarrow>
   (risk_violation list \<times> resize_candidate list) option"
where
  "run_checks X core price nav fb al il vl pj path = do {
     let permissions = check_agent_permissions core al;
     let budget = check_agent_budget (pj_agent_gross_notional pj) (pj_agent_free_capital pj)
                    (pj_agent_instrument_gross_notional pj) al;
     position_candidates \<leftarrow> check_position_limit X (pj_order_notional pj) price nav;
     (risk_candidates, account_risk) \<leftarrow> check_account_risk X core price nav;
     leverage \<leftarrow> check_leverage X (pj_agent_gross_notional pj) (pj_agent_free_capital pj) il;
     let drawdown = check_drawdown fb;
     cash \<leftarrow> check_cash_reserve X (pj_signed_order_notional pj) nav fb;
     instrument \<leftarrow> check_instrument_limits X nav il (pj_instrument_net_qty pj)
                     (pj_instrument_gross_qty pj) (pj_instrument_gross_notional pj);
     venue \<leftarrow> check_venue_limits X (pj_venue_notional pj) (pj_venue_positions pj) nav vl;
     signal \<leftarrow> (if path = SubmitSignal then check_signal_requirements X core price else Some []);
     Some (permissions @ budget @ account_risk @ leverage @ drawdown @ cash @ instrument @ venue
             @ signal,
           position_candidates @ risk_candidates) }"

definition evaluate ::
  "ext \<Rightarrow> agent_risk_manager \<Rightarrow> validated pipeline_order \<Rightarrow> firm_book \<Rightarrow> evaluation_path \<Rightarrow>
   risk_outcome option"
where
  "evaluate X m order fb path =
     (let core = po_core order in
      case oc_price core of
        None \<Rightarrow> Some (Rejected [string_violation ''order_price_required'' ''missing'' ''present''
          ''reject'' ''order price is required for deterministic risk evaluation''])
      | Some price \<Rightarrow>
        if price \<le> 0
        then Some (Rejected [violation ''order_price_positive'' price 0 ''reject''
          ''order price must be positive for risk evaluation''])
        else if oc_qty core \<le> 0
        then Some (Rejected [violation ''order_qty_positive'' (oc_qty core) 0 ''reject''
          ''order quantity must be positive''])
        else (case effective_nav m fb of
          Inl v \<Rightarrow> Some (Rejected [v])
        | Inr nav \<Rightarrow> (case rm_agent_limits m (oc_agent_id core) of
            None \<Rightarrow> Some (Rejected [string_violation ''agent_limits_present''
              (agent_id_str (oc_agent_id core)) ''configured agent limits'' ''reject''
              ''agent risk limits are not configured''])
          | Some al \<Rightarrow> (case fb_agent_allocations fb (oc_agent_id core) of
              None \<Rightarrow> Some (Rejected [string_violation ''agent_allocation_present''
                (agent_id_str (oc_agent_id core)) ''active agent allocation'' ''reject''
                ''agent allocation is not present in the firm book''])
            | Some aa \<Rightarrow> (case rm_instrument_limits m (oc_instrument_id core) of
                None \<Rightarrow> Some (Rejected [string_violation ''instrument_limits_present''
                  (instrument_id_str (oc_instrument_id core)) ''configured instrument limits''
                  ''reject'' ''instrument risk limits are not configured''])
              | Some il \<Rightarrow> (case rm_venue_limits m (oc_venue_id core) of
                  None \<Rightarrow> Some (Rejected [string_violation ''venue_limits_present''
                    (venue_id_str (oc_venue_id core)) ''configured venue limits'' ''reject''
                    ''venue risk limits are not configured''])
                | Some vl \<Rightarrow> do {
                    pj \<leftarrow> project_exposures X core price fb aa;
                    (hard_violations, resize_candidates) \<leftarrow>
                      run_checks X core price nav fb al il vl pj path;
                    if hard_violations \<noteq> [] then Some (Rejected hard_violations)
                    else (case tightest_resize resize_candidates of
                      Some c \<Rightarrow> Some (Resized (rz_new_qty c) (rz_reason c) [rz_warning c])
                    | None \<Rightarrow> Some (Approved [])) }))))))"

subsection \<open>Specification\<close>

text \<open>
  The limits that \<open>evaluate\<close> enforces; \<open>pj\<close> holds the exposures projected with the order applied. The
  drawdown, daily-loss and open-order limits of an agent, which the documents list as well, are
  not among them.
\<close>

definition permitted :: "order_core \<Rightarrow> agent_risk_limits \<Rightarrow> bool" where
  "permitted core al \<longleftrightarrow>
     (case al_allowed_instruments al of None \<Rightarrow> True | Some is \<Rightarrow> oc_instrument_id core \<in> set is) \<and>
     (case al_allowed_venues al of None \<Rightarrow> True | Some vs \<Rightarrow> oc_venue_id core \<in> set vs)"

definition agent_limits_ok :: "ext \<Rightarrow> agent_risk_limits \<Rightarrow> instrument_risk_limits \<Rightarrow> projections \<Rightarrow> bool" where
  "agent_limits_ok X al il pj \<longleftrightarrow>
     0 < pj_agent_free_capital pj \<and>
     pj_agent_instrument_gross_notional pj \<le> al_max_position_notional al \<and>
     pj_agent_gross_notional pj \<le> al_max_gross_notional al \<and>
     0 < il_max_leverage il \<and>
     (case dec_div X (pj_agent_gross_notional pj) (pj_agent_free_capital pj) of
        None \<Rightarrow> False | Some lev \<Rightarrow> lev \<le> il_max_leverage il)"

definition firm_limits_ok :: "ext \<Rightarrow> decimal \<Rightarrow> firm_book \<Rightarrow> projections \<Rightarrow> bool" where
  "firm_limits_ok X nav fb pj \<longleftrightarrow>
     - (15 / 100) \<le> fb_current_drawdown_pct fb \<and>
     (case dec_sub X (fb_cash_available fb) (pj_signed_order_notional pj) of
        None \<Rightarrow> False
      | Some cash \<Rightarrow> (case dec_div X cash nav of None \<Rightarrow> False | Some pct \<Rightarrow> 20 / 100 \<le> pct))"

definition instrument_limits_ok :: "ext \<Rightarrow> decimal \<Rightarrow> instrument_risk_limits \<Rightarrow> projections \<Rightarrow> bool" where
  "instrument_limits_ok X nav il pj \<longleftrightarrow>
     \<bar>pj_instrument_net_qty pj\<bar> \<le> il_max_net_qty il \<and>
     pj_instrument_gross_qty pj \<le> il_max_gross_qty il \<and>
     (case dec_div X (pj_instrument_gross_notional pj) nav of
        None \<Rightarrow> False | Some pct \<Rightarrow> pct \<le> il_max_concentration_pct il)"

definition venue_limits_ok :: "ext \<Rightarrow> decimal \<Rightarrow> venue_risk_limits \<Rightarrow> projections \<Rightarrow> bool" where
  "venue_limits_ok X nav vl pj \<longleftrightarrow>
     pj_venue_notional pj \<le> vl_max_notional vl \<and>
     pj_venue_positions pj \<le> vl_max_positions vl \<and>
     (case dec_div X (pj_venue_notional pj) nav of
        None \<Rightarrow> False | Some pct \<Rightarrow> pct \<le> vl_max_pct_of_nav vl)"

text \<open>A loss can be computed: the stop is not at the entry price.\<close>

definition stop_distance_ok :: "ext \<Rightarrow> order_core \<Rightarrow> decimal \<Rightarrow> bool" where
  "stop_distance_ok X core price \<longleftrightarrow>
     (case oc_stop_loss core of None \<Rightarrow> True | Some sl \<Rightarrow> dec_sub X price sl \<noteq> Some 0)"

text \<open>What an order submitted as a signal needs: a stop, and a target at twice its distance or more.\<close>

definition signal_ok :: "ext \<Rightarrow> order_core \<Rightarrow> decimal \<Rightarrow> bool" where
  "signal_ok X core price \<longleftrightarrow>
     (case oc_stop_loss core of None \<Rightarrow> False
      | Some sl \<Rightarrow> (case oc_take_profit core of None \<Rightarrow> True
        | Some tp \<Rightarrow> (\<exists>d g r. dec_sub X price sl = Some d \<and> dec_sub X tp price = Some g \<and> d \<noteq> 0 \<and>
            dec_div X \<bar>g\<bar> \<bar>d\<bar> = Some r \<and> 2 \<le> r)))"

text \<open>The outcome as a function of what the checks pushed.\<close>

definition outcome_of :: "risk_violation list \<Rightarrow> resize_candidate list \<Rightarrow> risk_outcome" where
  "outcome_of hs cs = (if hs \<noteq> [] then Rejected hs
     else case tightest_resize cs of
       Some c \<Rightarrow> Resized (rz_new_qty c) (rz_reason c) [rz_warning c] | None \<Rightarrow> Approved [])"

text \<open>The loss per unit that the account-risk check assumes.\<close>

definition risk_per_unit :: "order_core \<Rightarrow> decimal \<Rightarrow> decimal" where
  "risk_per_unit core price =
     (case oc_stop_loss core of None \<Rightarrow> price | Some sl \<Rightarrow> \<bar>price - sl\<bar>)"

text \<open>The values that a resize computes exactly, and the rounding error of its division.\<close>

definition sizing_exact :: "order_core \<Rightarrow> decimal \<Rightarrow> decimal \<Rightarrow> bool" where
  "sizing_exact core price nav \<longleftrightarrow>
     representable nav \<and> representable (nav * (5 / 100)) \<and> representable (nav * (1 / 100)) \<and>
     representable (oc_qty core) \<and> representable price \<and> representable (oc_qty core * price) \<and>
     (case oc_stop_loss core of None \<Rightarrow> True
      | Some sl \<Rightarrow> representable sl \<and> representable (price - sl)) \<and>
     representable (risk_per_unit core price) \<and>
     representable (oc_qty core * risk_per_unit core price)"

definition example_agent_limits :: agent_risk_limits where
  "example_agent_limits = \<lparr>al_allocated_capital = 1000000, al_max_position_notional = 200000,
     al_max_gross_notional = 300000, al_max_drawdown_pct = 1 / 10, al_max_daily_loss = 1000,
     al_max_open_orders = 10, al_allowed_instruments = Some [InstrumentId ''BTCUSDT''],
     al_allowed_venues = None\<rparr>"

definition example_allocation :: agent_allocation where
  "example_allocation = \<lparr>aa_allocated_capital = 1000000, aa_used_capital = 0,
     aa_free_capital = 1000000, aa_realized_pnl = 0, aa_unrealized_pnl = 0,
     aa_current_drawdown = 0, aa_max_drawdown_limit = 1 / 10, aa_status = AgentActive\<rparr>"

definition example_manager :: agent_risk_manager where
  "example_manager = risk_manager_new 1000000
     [AgentId ''satoshi'' \<mapsto> example_agent_limits]
     [InstrumentId ''BTCUSDT'' \<mapsto> \<lparr>il_instrument = InstrumentId ''BTCUSDT'', il_max_net_qty = 10,
        il_max_gross_qty = 10, il_max_concentration_pct = 1 / 2, il_max_leverage = 5\<rparr>]
     [VenueId ''bybit'' \<mapsto> \<lparr>vl_venue = VenueId ''bybit'', vl_max_notional = 500000,
        vl_max_positions = 10, vl_max_pct_of_nav = 1 / 2\<rparr>]"

definition example_firm :: firm_book where
  "example_firm = example_book\<lparr>fb_agent_allocations := [AgentId ''satoshi'' \<mapsto> example_allocation]\<rparr>"

text \<open>Half a bitcoin at 65000 with a stop at 60000 and a target at 75000, and two bitcoins.\<close>

definition small_order :: "validated pipeline_order" where
  "small_order = into_validated (pipeline_new
     (example_core\<lparr>oc_qty := 1 / 2, oc_take_profit := Some 75000\<rparr>)) 0"

definition large_order :: "validated pipeline_order" where
  "large_order = into_validated (pipeline_new
     (example_core\<lparr>oc_qty := 2, oc_take_profit := Some 75000\<rparr>)) 0"

subsection \<open>Silent checks\<close>

lemma push_if_Nil [simp]: "push_if c v = [] \<longleftrightarrow> \<not> c"
  by (simp add: push_if_def)

lemma permissions_silent: "check_agent_permissions core al = [] \<longleftrightarrow> permitted core al"
  by (simp add: check_agent_permissions_def permitted_def split: option.splits)

lemma agent_silent:
  "check_agent_budget (pj_agent_gross_notional pj) (pj_agent_free_capital pj)
     (pj_agent_instrument_gross_notional pj) al = [] \<and>
   check_leverage X (pj_agent_gross_notional pj) (pj_agent_free_capital pj) il = Some [] \<longleftrightarrow>
   agent_limits_ok X al il pj"
  by (auto simp: check_agent_budget_def check_leverage_def agent_limits_ok_def bind_Some_iff
      split: option.splits)

lemma firm_silent:
  "check_drawdown fb = [] \<and> check_cash_reserve X (pj_signed_order_notional pj) nav fb = Some [] \<longleftrightarrow>
   firm_limits_ok X nav fb pj"
  by (auto simp: check_drawdown_def check_cash_reserve_def firm_limits_ok_def bind_Some_iff
      drawdown_halt_pct_def cash_reserve_min_pct_def split: option.splits)

lemma instrument_silent:
  "check_instrument_limits X nav il (pj_instrument_net_qty pj) (pj_instrument_gross_qty pj)
     (pj_instrument_gross_notional pj) = Some [] \<longleftrightarrow> instrument_limits_ok X nav il pj"
  by (auto simp: check_instrument_limits_def instrument_limits_ok_def bind_Some_iff
      split: option.splits)

lemma venue_silent:
  "check_venue_limits X (pj_venue_notional pj) (pj_venue_positions pj) nav vl = Some [] \<longleftrightarrow>
   venue_limits_ok X nav vl pj"
  by (auto simp: check_venue_limits_def venue_limits_ok_def bind_Some_iff not_less
      split: option.splits)

lemmas silent = permissions_silent agent_silent firm_silent instrument_silent venue_silent

lemma run_checks_silent:
  assumes "run_checks X core price nav fb al il vl pj path = Some ([], cs)"
  shows "permitted core al" "agent_limits_ok X al il pj" "firm_limits_ok X nav fb pj"
    "instrument_limits_ok X nav il pj" "venue_limits_ok X nav vl pj"
    "path = SubmitSignal \<Longrightarrow> check_signal_requirements X core price = Some []"
    "\<exists>ps rs. check_position_limit X (pj_order_notional pj) price nav = Some ps \<and>
       check_account_risk X core price nav = Some (rs, []) \<and> cs = ps @ rs"
  using assms unfolding silent [symmetric]
  by (auto simp: run_checks_def bind_Some_iff split: if_splits)

lemma account_risk_silent:
  assumes "check_account_risk X core price nav = Some (cs, vs)" and "0 < price"
  shows "vs = [] \<longleftrightarrow> stop_distance_ok X core price"
  using assms
  by (auto simp: check_account_risk_def stop_distance_ok_def bind_Some_iff Let_def split: option.splits if_splits)

lemma signal_silent:
  "check_signal_requirements X core price = Some vs \<Longrightarrow> vs = [] \<longleftrightarrow> signal_ok X core price"
  by (auto simp: check_signal_requirements_def signal_ok_def min_risk_reward_ratio_def bind_Some_iff Let_def
      not_less split: option.splits if_splits)

lemma run_checks_hard_iff:
  assumes "run_checks X core price nav fb al il vl pj path = Some (hs, cs)" and "0 < price"
  shows "hs = [] \<longleftrightarrow> permitted core al \<and> agent_limits_ok X al il pj \<and> firm_limits_ok X nav fb pj \<and>
    instrument_limits_ok X nav il pj \<and> venue_limits_ok X nav vl pj \<and> stop_distance_ok X core price \<and>
    (path = SubmitSignal \<longrightarrow> signal_ok X core price)"
proof -
  obtain rs ar where "check_account_risk X core price nav = Some (rs, ar)"
    using assms(1) by (auto simp: run_checks_def bind_Some_iff)
  note ar = this account_risk_silent [OF this assms(2)]
  show ?thesis
  proof (cases "path = SubmitSignal")
    case True
    then obtain sg where "check_signal_requirements X core price = Some sg"
      using assms(1) by (auto simp: run_checks_def bind_Some_iff)
    note sg = this signal_silent [OF this]
    show ?thesis using assms(1) True ar sg unfolding silent [symmetric]
      by (auto simp: run_checks_def bind_Some_iff)
  next
    case False
    then show ?thesis using assms(1) ar unfolding silent [symmetric]
      by (auto simp: run_checks_def bind_Some_iff)
  qed
qed

subsection \<open>Every hard violation is hard\<close>

lemma hard_intros [simp]:
  "rv_violation_type (violation a b c d e) = Hard"
  "rv_violation_type (string_violation a f g d e) = Hard"
  "rv_violation_type (soft_violation a b c d e) = Soft"
  by (simp_all add: violation_def string_violation_def soft_violation_def)

lemma push_if_set [simp]: "v \<in> set (push_if c w) \<longleftrightarrow> c \<and> v = w"
  by (auto simp: push_if_def)

lemma permissions_hard: "v \<in> set (check_agent_permissions core al) \<Longrightarrow> rv_violation_type v = Hard"
  by (auto simp: check_agent_permissions_def split: option.splits)

lemma budget_hard: "v \<in> set (check_agent_budget g f i al) \<Longrightarrow> rv_violation_type v = Hard"
  by (auto simp: check_agent_budget_def)

lemma account_risk_hard:
  "check_account_risk X core price nav = Some (cs, vs) \<Longrightarrow> v \<in> set vs \<Longrightarrow> rv_violation_type v = Hard"
  by (auto simp: check_account_risk_def bind_Some_iff split: if_splits)

lemma leverage_hard:
  "check_leverage X g f il = Some vs \<Longrightarrow> v \<in> set vs \<Longrightarrow> rv_violation_type v = Hard"
  by (auto simp: check_leverage_def bind_Some_iff split: if_splits)

lemma drawdown_hard: "v \<in> set (check_drawdown fb) \<Longrightarrow> rv_violation_type v = Hard"
  by (auto simp: check_drawdown_def)

lemma cash_hard:
  "check_cash_reserve X n nav fb = Some vs \<Longrightarrow> v \<in> set vs \<Longrightarrow> rv_violation_type v = Hard"
  by (auto simp: check_cash_reserve_def bind_Some_iff)

lemma instrument_hard:
  "check_instrument_limits X nav il a b c = Some vs \<Longrightarrow> v \<in> set vs \<Longrightarrow> rv_violation_type v = Hard"
  by (auto simp: check_instrument_limits_def bind_Some_iff)

lemma venue_hard:
  "check_venue_limits X n q nav vl = Some vs \<Longrightarrow> v \<in> set vs \<Longrightarrow> rv_violation_type v = Hard"
  by (auto simp: check_venue_limits_def bind_Some_iff)

lemma signal_hard:
  "check_signal_requirements X core price = Some vs \<Longrightarrow> v \<in> set vs \<Longrightarrow> rv_violation_type v = Hard"
  by (auto simp: check_signal_requirements_def bind_Some_iff Let_def split: option.splits if_splits)

lemma effective_nav_hard: "effective_nav m fb = Inl v \<Longrightarrow> rv_violation_type v = Hard"
  by (auto simp: effective_nav_def split: if_splits)

lemmas hard_checks = permissions_hard budget_hard account_risk_hard leverage_hard drawdown_hard
  cash_hard instrument_hard venue_hard signal_hard

lemma run_checks_hard:
  assumes "run_checks X core price nav fb al il vl pj path = Some (vs, cs)" and "v \<in> set vs"
  shows "rv_violation_type v = Hard"
  using assms by (auto simp: run_checks_def bind_Some_iff dest: hard_checks split: if_splits)

subsection \<open>The paths through \<open>evaluate\<close>\<close>

lemma evaluate_cases:
  assumes "evaluate X m ord fb path = Some out"
  obtains (early) v where "out = Rejected [v]" and "rv_violation_type v = Hard"
  | (checked) price nav al aa il vl pj hs cs where
      "oc_price (po_core ord) = Some price" and "0 < price" and "0 < oc_qty (po_core ord)"
      and "effective_nav m fb = Inr nav" and "rm_agent_limits m (oc_agent_id (po_core ord)) = Some al"
      and "fb_agent_allocations fb (oc_agent_id (po_core ord)) = Some aa"
      and "rm_instrument_limits m (oc_instrument_id (po_core ord)) = Some il"
      and "rm_venue_limits m (oc_venue_id (po_core ord)) = Some vl"
      and "project_exposures X (po_core ord) price fb aa = Some pj"
      and "run_checks X (po_core ord) price nav fb al il vl pj path = Some (hs, cs)"
      and "out = outcome_of hs cs"
proof (cases "\<exists>v. out = Rejected [v] \<and> rv_violation_type v = Hard")
  case True
  then show thesis using early by blast
next
  case False
  with assms obtain price nav al aa il vl where g:
      "oc_price (po_core ord) = Some price" "0 < price" "0 < oc_qty (po_core ord)"
      "effective_nav m fb = Inr nav" "rm_agent_limits m (oc_agent_id (po_core ord)) = Some al"
      "fb_agent_allocations fb (oc_agent_id (po_core ord)) = Some aa"
      "rm_instrument_limits m (oc_instrument_id (po_core ord)) = Some il"
      "rm_venue_limits m (oc_venue_id (po_core ord)) = Some vl"
    by (auto simp: evaluate_def Let_def dest: effective_nav_hard
        split: option.splits if_splits sum.splits)
  with assms obtain pj hs cs where
      "project_exposures X (po_core ord) price fb aa = Some pj"
      "run_checks X (po_core ord) price nav fb al il vl pj path = Some (hs, cs)"
      "out = outcome_of hs cs"
    by (auto simp: evaluate_def Let_def bind_Some_iff outcome_of_def split: option.splits if_splits)
  with g show thesis by (rule checked)
qed

lemma outcome_of_simps:
  "outcome_of hs cs = Approved w \<longleftrightarrow> hs = [] \<and> cs = [] \<and> w = []"
  "outcome_of hs cs = Rejected vs \<longleftrightarrow> hs = vs \<and> hs \<noteq> []"
  "outcome_of hs cs = Resized q r w \<longleftrightarrow> hs = [] \<and>
     (\<exists>c. tightest_resize cs = Some c \<and> q = rz_new_qty c \<and> r = rz_reason c \<and> w = [rz_warning c])"
  by (auto simp: outcome_of_def tightest_resize_def split: option.splits)

lemma effective_nav_Inr:
  "effective_nav m fb = Inr nav \<longleftrightarrow> 0 < rm_nav m \<and> 0 < fb_nav fb \<and> nav = min (rm_nav m) (fb_nav fb)"
  by (auto simp: effective_nav_def)

lemma representable_caps [simp]: "representable (5 / 100)" "representable (1 / 100)"
  by (rule on_grid_representable [of 2 5, OF on_gridI [where k = 5]]; simp)
    (rule on_grid_representable [of 2 5, OF on_gridI [where k = 1]]; simp)

lemma sizing_ops:
  assumes "exact_arith X" and "sizing_exact core price nav"
  shows "dec_mul X (oc_qty core) price = Some (oc_qty core * price)"
    and "dec_mul X nav (5 / 100) = Some (nav * (5 / 100))"
    and "dec_mul X nav (1 / 100) = Some (nav * (1 / 100))"
    and "dec_mul X (oc_qty core) (risk_per_unit core price) =
      Some (oc_qty core * risk_per_unit core price)"
  using assms(2) unfolding sizing_exact_def
  by (blast intro: exact_arithD(3) [OF assms(1)] representable_caps)+

lemma position_limit_cases:
  assumes "check_position_limit X n price nav = Some cs"
  obtains cap where "dec_mul X nav position_nav_cap = Some cap" and "n \<le> cap" and "cs = []"
  | cap q where "dec_mul X nav position_nav_cap = Some cap" and "cap < n"
      and "dec_div X cap price = Some q" and "map rz_new_qty cs = [q]"
  using assms by (auto simp: check_position_limit_def bind_Some_iff not_less split: if_splits)

lemma account_risk_cases:
  assumes "check_account_risk X core price nav = Some (cs, [])"
    and "exact_arith X" and "sizing_exact core price nav"
  obtains "0 < risk_per_unit core price"
      and "oc_qty core * risk_per_unit core price \<le> nav * (1 / 100)" and "cs = []"
  | q where "0 < risk_per_unit core price"
      and "nav * (1 / 100) < oc_qty core * risk_per_unit core price"
      and "dec_div X (nav * (1 / 100)) (risk_per_unit core price) = Some q"
      and "map rz_new_qty cs = [q]"
proof -
  let ?u = "risk_per_unit core price"
  note m = sizing_ops(3,4) [OF assms(2,3)]
  have u: "(case oc_stop_loss core of None \<Rightarrow> Some price
      | Some sl \<Rightarrow> dec_sub X price sl \<bind> (\<lambda>d. Some \<bar>d\<bar>)) = Some ?u"
    using exact_arithD(2) [OF assms(2), of price] assms(3)
    by (auto simp: sizing_exact_def risk_per_unit_def split: option.splits)
  have "check_account_risk X core price nav = Some (cs, [])" by (rule assms(1))
  with that show thesis unfolding check_account_risk_def account_risk_nav_cap_def u m
    by (auto simp: bind_Some_iff m split: if_splits)
qed

text \<open>Sizing to a cap: the quantity that a cap allows, or the bound on a smaller quantity.\<close>

lemma sized_to_cap:
  fixes q c u e :: rat
  assumes "0 < u" and "\<bar>q' - c / u\<bar> \<le> e" and "q \<le> q'"
  shows "q * u \<le> c + e * u"
proof -
  have "q \<le> c / u + e" using assms(2,3) by linarith
  then have "q * u \<le> (c / u + e) * u" using assms(1) by (simp add: mult_right_mono)
  then show ?thesis using assms(1) by (simp add: algebra_simps)
qed

lemma below_order:
  fixes q c u e n :: rat
  assumes "0 < u" and "\<bar>q - c / u\<bar> \<le> e" and "c < n * u"
  shows "q \<le> n + e"
proof -
  have "c / u < n" using assms(1,3) by (simp add: divide_less_eq)
  then show ?thesis using assms(2) by linarith
qed

lemma smaller_order:
  fixes q n p e c :: rat
  assumes "0 < p" and "q \<le> n + e" and "n * p \<le> c"
  shows "q * p \<le> c + e * p"
proof -
  have "q * p \<le> (n + e) * p" using assms(1,2) by (simp add: mult_right_mono)
  then show ?thesis using assms(3) by (simp add: algebra_simps)
qed

lemma capped_size:
  fixes q n u e c :: rat
  assumes "xs = [] \<and> n * u \<le> c \<or>
      c < n * u \<and> (\<exists>a. map rz_new_qty xs = [a] \<and> \<bar>a - c / u\<bar> \<le> e)"
    and "\<And>a. a \<in> set (map rz_new_qty xs) \<Longrightarrow> q \<le> a" and "0 < u" and "q \<le> n + e"
  shows "q * u \<le> c + e * u"
  using assms(1)
proof
  assume "xs = [] \<and> n * u \<le> c"
  then show ?thesis using smaller_order [OF assms(3,4)] by blast
next
  assume "c < n * u \<and> (\<exists>a. map rz_new_qty xs = [a] \<and> \<bar>a - c / u\<bar> \<le> e)"
  then obtain a where a: "map rz_new_qty xs = [a]" "\<bar>a - c / u\<bar> \<le> e" by (elim conjE exE)
  with assms(2) have "q \<le> a" by simp
  then show ?thesis by (rule sized_to_cap [OF assms(3) a(2)])
qed

subsection \<open>Properties\<close>

text \<open>
  C3: Which orders the risk manager accepts. An order is approved or resized, and not rejected, if
  and only if it has a positive price and quantity, both NAVs are positive, the limits of its
  agent, instrument and venue and the allocation of its agent are configured, the agent may trade
  the instrument at the venue, and with the order applied
  \<^item> the agent has free capital, and its position, gross notional and leverage are within its limits;
  \<^item> the drawdown of the firm is at most 15\% and at least 20\% of the NAV remains in cash;
  \<^item> net and gross quantity and concentration of the instrument, and notional, positions and share
    of the venue are within their limits;
  \<^item> the stop is not at the price, and an order submitted as a signal has a stop and, if it has a
    target, a reward of at least twice the risk.
  No other limit is enforced here.
\<close>

theorem accepted_order_within_limits:
  assumes "evaluate X m ord fb path = Some out"
  shows "(\<nexists>vs. out = Rejected vs) \<longleftrightarrow>
    (\<exists>price al aa il vl pj. oc_price (po_core ord) = Some price \<and> 0 < price \<and>
      0 < oc_qty (po_core ord) \<and> 0 < rm_nav m \<and> 0 < fb_nav fb \<and>
      rm_agent_limits m (oc_agent_id (po_core ord)) = Some al \<and>
      fb_agent_allocations fb (oc_agent_id (po_core ord)) = Some aa \<and>
      rm_instrument_limits m (oc_instrument_id (po_core ord)) = Some il \<and>
      rm_venue_limits m (oc_venue_id (po_core ord)) = Some vl \<and>
      project_exposures X (po_core ord) price fb aa = Some pj \<and>
      permitted (po_core ord) al \<and> agent_limits_ok X al il pj \<and>
      firm_limits_ok X (min (rm_nav m) (fb_nav fb)) fb pj \<and>
      instrument_limits_ok X (min (rm_nav m) (fb_nav fb)) il pj \<and>
      venue_limits_ok X (min (rm_nav m) (fb_nav fb)) vl pj \<and>
      stop_distance_ok X (po_core ord) price \<and>
      (path = SubmitSignal \<longrightarrow> signal_ok X (po_core ord) price))"
  (is "_ \<longleftrightarrow> ?within")
proof
  assume acc: "\<nexists>vs. out = Rejected vs"
  from assms show ?within
  proof (cases rule: evaluate_cases)
    case (checked price nav al aa il vl pj hs cs)
    from checked(11) acc have "hs = []" by (cases "hs = []") (auto simp: outcome_of_def)
    moreover have "0 < rm_nav m" "0 < fb_nav fb" "nav = min (rm_nav m) (fb_nav fb)"
      using checked(4) by (auto simp: effective_nav_Inr)
    ultimately show ?thesis using checked(1-3,5-9) run_checks_hard_iff [OF checked(10,2)] by blast
  qed (use acc in blast)
next
  assume ?within
  then obtain price al aa il vl pj where w: "oc_price (po_core ord) = Some price" "0 < price"
      "0 < oc_qty (po_core ord)" "0 < rm_nav m" "0 < fb_nav fb"
      "rm_agent_limits m (oc_agent_id (po_core ord)) = Some al"
      "fb_agent_allocations fb (oc_agent_id (po_core ord)) = Some aa"
      "rm_instrument_limits m (oc_instrument_id (po_core ord)) = Some il"
      "rm_venue_limits m (oc_venue_id (po_core ord)) = Some vl"
      "project_exposures X (po_core ord) price fb aa = Some pj"
    and ok: "permitted (po_core ord) al \<and> agent_limits_ok X al il pj \<and>
      firm_limits_ok X (min (rm_nav m) (fb_nav fb)) fb pj \<and>
      instrument_limits_ok X (min (rm_nav m) (fb_nav fb)) il pj \<and>
      venue_limits_ok X (min (rm_nav m) (fb_nav fb)) vl pj \<and> stop_distance_ok X (po_core ord) price \<and>
      (path = SubmitSignal \<longrightarrow> signal_ok X (po_core ord) price)" by blast
  have "effective_nav m fb = Inr (min (rm_nav m) (fb_nav fb))" using w(4,5) by (simp add: effective_nav_Inr)
  with assms w obtain hs cs where
      rc: "run_checks X (po_core ord) price (min (rm_nav m) (fb_nav fb)) fb al il vl pj path = Some (hs, cs)"
      and out: "out = outcome_of hs cs"
    by (auto simp: evaluate_def Let_def bind_Some_iff outcome_of_def split: option.splits if_splits)
  from run_checks_hard_iff [OF rc w(2)] ok have "hs = []" by blast
  with out show "\<nexists>vs. out = Rejected vs" using outcome_of_simps(2) [of hs cs] by auto
qed

lemmas risk_example_defs = example_manager_def example_firm_def example_book_def small_order_def
  large_order_def into_validated_def pipeline_new_def example_core_def example_agent_limits_def
  example_allocation_def risk_manager_new_def

lemmas risk_eval_defs = evaluate_def effective_nav_def project_exposures_def run_checks_def
  check_agent_permissions_def check_agent_budget_def check_position_limit_def
  check_account_risk_def check_leverage_def check_drawdown_def check_cash_reserve_def
  check_instrument_limits_def check_venue_limits_def check_signal_requirements_def
  position_nav_cap_def account_risk_nav_cap_def drawdown_halt_pct_def cash_reserve_min_pct_def
  min_risk_reward_ratio_def project_net_and_gross_def map_or_def signed_delta_def push_if_def
  Let_def

lemma small_order_approved:
  "evaluate ideal_ext example_manager small_order example_firm SubmitSignal = Some (Approved [])"
  by (simp add: risk_example_defs risk_eval_defs tightest_resize_def)

theorem accepted_order_within_limits_witness:
  "evaluate ideal_ext example_manager small_order example_firm SubmitSignal = Some (Approved []) \<and>
   (\<exists>al. rm_agent_limits example_manager (AgentId ''satoshi'') = Some al \<and>
     permitted (po_core small_order) al \<and> signal_ok ideal_ext (po_core small_order) 65000)"
proof -
  have "oc_agent_id (po_core small_order) = AgentId ''satoshi''" "oc_price (po_core small_order) = Some 65000"
    by (simp_all add: risk_example_defs)
  with accepted_order_within_limits [OF small_order_approved] small_order_approved show ?thesis
    by auto
qed

text \<open>
  C21: An approval carries no warnings, and the order is within both sizing caps: its notional is
  at most 5\% of the effective NAV and its loss at the stop at most 1\%. An order submitted as a
  signal has a stop loss.
\<close>

theorem approved_order_within_caps:
  assumes "evaluate X m ord fb path = Some (Approved w)" and "exact_arith X"
    and "oc_price (po_core ord) = Some price"
    and "sizing_exact (po_core ord) price (min (rm_nav m) (fb_nav fb))"
  shows "w = [] \<and> oc_qty (po_core ord) * price \<le> min (rm_nav m) (fb_nav fb) * (5 / 100) \<and>
    oc_qty (po_core ord) * risk_per_unit (po_core ord) price \<le>
      min (rm_nav m) (fb_nav fb) * (1 / 100) \<and>
    (path = SubmitSignal \<longrightarrow> oc_stop_loss (po_core ord) \<noteq> None)"
  using assms(1)
proof (cases rule: evaluate_cases)
  case (checked price' nav al aa il vl pj hs cs)
  then have e: "price' = price" "hs = []" "cs = []" "w = []" "nav = min (rm_nav m) (fb_nav fb)"
    using assms(3) outcome_of_simps(1) by (auto simp: effective_nav_Inr dest: sym)
  note n = sizing_ops(1,2) [OF assms(2) assms(4) [folded e(5)]]
  then have on: "pj_order_notional pj = oc_qty (po_core ord) * price"
    using checked(9) e(1) by (auto simp: project_exposures_def bind_Some_iff Let_def)
  note rs = run_checks_silent(6,7) [OF checked(10) [unfolded e]]
  from rs(2) have pos: "check_position_limit X (pj_order_notional pj) price nav = Some []"
      and acc: "check_account_risk X (po_core ord) price nav = Some ([], [])"
    using e(5) by auto
  have "oc_qty (po_core ord) * price \<le> nav * (5 / 100)"
    using pos by (cases rule: position_limit_cases) (use n on in \<open>simp_all add: position_nav_cap_def\<close>)
  moreover have "oc_qty (po_core ord) * risk_per_unit (po_core ord) price \<le> nav * (1 / 100)"
    using acc assms(2) assms(4) [folded e(5)] by (cases rule: account_risk_cases) auto
  moreover have "path = SubmitSignal \<Longrightarrow> oc_stop_loss (po_core ord) \<noteq> None"
    using rs(1) by (cases "oc_stop_loss (po_core ord)") (simp_all add: check_signal_requirements_def)
  ultimately show ?thesis using e by blast
qed simp

lemma example_sizing_exact:
  "sizing_exact (po_core small_order) 65000 1000000"
  "sizing_exact (po_core large_order) 65000 1000000"
  by (simp_all add: sizing_exact_def risk_per_unit_def risk_example_defs representable_numeral
      representable_half)

lemma example_navs: "min (rm_nav example_manager) (fb_nav example_firm) = 1000000"
  by (simp add: risk_example_defs)

theorem approved_order_within_caps_witness:
  "oc_qty (po_core small_order) * 65000 \<le> 1000000 * (5 / 100) \<and>
   oc_stop_loss (po_core small_order) \<noteq> None"
proof -
  have "oc_price (po_core small_order) = Some 65000" by (simp add: risk_example_defs)
  from approved_order_within_caps [OF small_order_approved _ this] example_sizing_exact(1)
  show ?thesis unfolding example_navs by simp
qed

text \<open>
  C22: A resize respects both caps up to the rounding error \<open>e\<close> of one decimal division with a
  quotient of at most the requested quantity: the new quantity has a notional of at most 5\% and a
  loss at the stop of at most 1\% of the effective NAV, and it exceeds the requested quantity at most
  by \<open>e\<close>. The reason given is that of a single soft violation.
\<close>

theorem resized_order_within_caps:
  assumes "evaluate X m ord fb path = Some (Resized q r w)" and "exact_arith X"
    and "oc_price (po_core ord) = Some price"
    and "sizing_exact (po_core ord) price (min (rm_nav m) (fb_nav fb))" and "div_within X (oc_qty (po_core ord)) e"
  shows "q * price \<le> min (rm_nav m) (fb_nav fb) * (5 / 100) + e * price \<and>
    q * risk_per_unit (po_core ord) price \<le>
      min (rm_nav m) (fb_nav fb) * (1 / 100) + e * risk_per_unit (po_core ord) price \<and>
    q \<le> oc_qty (po_core ord) + e \<and> length w = 1"
  using assms(1)
proof (cases rule: evaluate_cases)
  case (checked price' nav al aa il vl pj hs cs)
  have e: "price' = price" "hs = []" "nav = min (rm_nav m) (fb_nav fb)" "0 < price"
    using checked(1,2,4) assms(3) checked(11) [symmetric]
    by (auto simp: effective_nav_Inr outcome_of_simps)
  obtain c where c: "tightest_resize cs = Some c" "q = rz_new_qty c" "w = [rz_warning c]"
    using checked(11) [symmetric] by (auto simp: outcome_of_simps)
  let ?n = "oc_qty (po_core ord)" and ?u = "risk_per_unit (po_core ord) price"
  note n = sizing_ops(1,2) [OF assms(2) assms(4) [folded e(3)]]
  then have on: "pj_order_notional pj = ?n * price"
    using checked(9) e(1) by (auto simp: project_exposures_def bind_Some_iff Let_def)
  from run_checks_silent(7) [OF checked(10) [unfolded e(2)]] e(1)
  obtain ps rs where pos: "check_position_limit X (pj_order_notional pj) price nav = Some ps"
      and acc: "check_account_risk X (po_core ord) price nav = Some (rs, [])" and cs: "cs = ps @ rs"
    by auto
  have q: "q \<in> set (map rz_new_qty cs)" "q' \<in> set (map rz_new_qty cs) \<Longrightarrow> q \<le> q'" for q'
    using min_by_Some [OF c(1) [unfolded tightest_resize_def]] c(2) by auto
  have nav0: "0 < nav" using checked(4) by (auto simp: effective_nav_Inr)
  have rounded: "\<bar>a - c / u\<bar> \<le> e" if "0 < u" "0 \<le> c" "c < ?n * u" "dec_div X c u = Some a" for a c u
  proof -
    have "\<bar>c / u\<bar> \<le> ?n" using that(1-3) by (simp add: divide_le_eq)
    then show ?thesis using assms(5) that(1,4) unfolding div_within_def by (metis less_irrefl)
  qed
  have P: "ps = [] \<and> ?n * price \<le> nav * (5 / 100) \<or>
      nav * (5 / 100) < ?n * price \<and>
      (\<exists>a. map rz_new_qty ps = [a] \<and> \<bar>a - nav * (5 / 100) / price\<bar> \<le> e)"
    using pos n on e(4) nav0 rounded [OF e(4)]
    by (cases rule: position_limit_cases) (auto simp: position_nav_cap_def)
  have R: "0 < ?u \<and> (rs = [] \<and> ?n * ?u \<le> nav * (1 / 100) \<or>
      nav * (1 / 100) < ?n * ?u \<and>
      (\<exists>a. map rz_new_qty rs = [a] \<and> \<bar>a - nav * (1 / 100) / ?u\<bar> \<le> e))"
    using acc assms(2) assms(4) [folded e(3)]
  proof (cases rule: account_risk_cases)
    case (2 a)
    moreover have "\<bar>a - nav * (1 / 100) / ?u\<bar> \<le> e"
      using rounded [OF 2(1) _ _ 2(3)] 2(2) nav0 by simp
    ultimately show ?thesis by (intro conjI disjI2 exI [of _ a])
  qed blast
  have in_cs: "q \<in> set (map rz_new_qty ps) \<or> q \<in> set (map rz_new_qty rs)"
    using q(1) cs by simp
  have le: "q \<le> ?n + e"
    using in_cs
  proof
    assume "q \<in> set (map rz_new_qty ps)"
    then show ?thesis using P below_order [OF e(4), of q "nav * (5 / 100)" e ?n] by fastforce
  next
    assume "q \<in> set (map rz_new_qty rs)"
    then show ?thesis using R below_order [of ?u q "nav * (1 / 100)" e ?n] by fastforce
  qed
  have "q * price \<le> nav * (5 / 100) + e * price"
    by (rule capped_size [OF P _ e(4) le]) (use q(2) cs in auto)
  moreover have "q * ?u \<le> nav * (1 / 100) + e * ?u"
    by (rule capped_size [OF conjunct2 [OF R] _ conjunct1 [OF R] le]) (use q(2) cs in auto)
  ultimately show ?thesis using le c(3) unfolding e(3) by simp
qed simp

lemma large_order_resized:
  "\<exists>r w. evaluate ideal_ext example_manager large_order example_firm SubmitSignal =
     Some (Resized (50000 / 65000) r w)"
  by (simp add: risk_example_defs risk_eval_defs tightest_resize_def)

theorem resized_order_within_caps_witness:
  "50000 / 65000 * 65000 \<le> (1000000 * (5 / 100) + 0 * 65000 :: rat) \<and>
   50000 / 65000 \<le> oc_qty (po_core large_order) + 0"
proof -
  obtain r w where ev: "evaluate ideal_ext example_manager large_order example_firm SubmitSignal =
      Some (Resized (50000 / 65000) r w)" using large_order_resized by blast
  have p: "oc_price (po_core large_order) = Some 65000" by (simp add: risk_example_defs)
  have d: "div_within ideal_ext (oc_qty (po_core large_order)) 0" by simp
  from resized_order_within_caps [OF ev _ p _ d] example_sizing_exact(2)
  show ?thesis unfolding example_navs by simp
qed

text \<open>
  A rejection always says why: it carries at least one violation, and every violation it
  carries is a hard one.
\<close>

theorem rejection_has_hard_violations:
  assumes "evaluate X m ord fb path = Some (Rejected vs)"
  shows "vs \<noteq> [] \<and> (\<forall>v \<in> set vs. rv_violation_type v = Hard)"
  using assms
proof (cases rule: evaluate_cases)
  case (checked price nav al aa il vl pj hs cs)
  then have "hs = vs" "vs \<noteq> []" using checked(11) [symmetric] by (auto simp: outcome_of_simps)
  with run_checks_hard [OF checked(10)] show ?thesis by blast
qed simp

theorem rejection_has_hard_violations_witness:
  "\<exists>vs. evaluate ideal_ext example_manager
       (small_order\<lparr>po_core := (po_core small_order)\<lparr>oc_stop_loss := None\<rparr>\<rparr>) example_firm SubmitSignal =
     Some (Rejected vs) \<and> vs \<noteq> [] \<and> (\<forall>v \<in> set vs. rv_violation_type v = Hard)"
proof -
  obtain vs where ev: "evaluate ideal_ext example_manager
      (small_order\<lparr>po_core := (po_core small_order)\<lparr>oc_stop_loss := None\<rparr>\<rparr>) example_firm SubmitSignal =
      Some (Rejected vs)"
    by (simp add: risk_example_defs risk_eval_defs tightest_resize_def)
  from ev rejection_has_hard_violations [OF ev] show ?thesis by blast
qed

text \<open>
  The risk/reward check looks at distances only: a signal whose target lies on the losing
  side of the entry, at twice the stop distance or more, passes the check. The contract in
  \<open>docs/CONTRACTS.md\<close> states the ratio with signed differences.
\<close>

theorem risk_reward_ignores_direction:
  assumes "exact_arith X" and "oc_stop_loss core = Some sl" and "oc_take_profit core = Some tp"
    and "sl < price" and "tp = price - k * (price - sl)" and "2 \<le> k" and "representable k"
    and "representable price" and "representable sl" and "representable tp"
    and "representable (price - sl)" and "representable (tp - price)"
  shows "tp < price \<and> check_signal_requirements X core price = Some []"
proof -
  have d: "dec_sub X price sl = Some (price - sl)" "dec_sub X tp price = Some (tp - price)"
    using exact_arithD(2) [OF assms(1)] assms by auto
  have kp: "0 < k * (price - sl)" using assms(4,6) by (intro mult_pos_pos) auto
  then have tp: "\<bar>tp - price\<bar> = k * (price - sl)" "tp < price" using assms(5) by auto
  have r: "representable \<bar>tp - price\<bar>" using assms(12)
    by (rule representable_abs)
  have "dec_div X \<bar>tp - price\<bar> \<bar>price - sl\<bar> = Some k"
    using exact_arithD(4) [OF assms(1) r assms(11)] assms(4,7) tp(1) by simp
  with d tp assms(2-4,6) show ?thesis
    by (simp add: check_signal_requirements_def min_risk_reward_ratio_def push_if_def)
qed

theorem risk_reward_ignores_direction_witness:
  "(55000::rat) < 65000 \<and> check_signal_requirements ideal_ext
     (example_core\<lparr>oc_stop_loss := Some 60000, oc_take_profit := Some 55000\<rparr>) 65000 = Some []"
  by (rule risk_reward_ignores_direction [where sl = 60000 and k = 2])
    (simp_all add: representable_numeral representable_of_int [of "- 10000", simplified])

text \<open>
  The per-agent drawdown, daily-loss and open-order limits are not enforced here: the
  outcome depends neither on the agent's P\&L, drawdown and status in the firm book nor on
  those limits. \<open>docs/CONTRACTS.md\<close> lists the agent drawdown as check 4 of this evaluator.
\<close>

theorem evaluate_ignores_agent_drawdown:
  "evaluate X
     (m\<lparr>rm_agent_limits := (\<lambda>a. map_option (\<lambda>al. al\<lparr>al_max_drawdown_pct := dp a,
        al_max_daily_loss := dl a, al_max_open_orders := oo a\<rparr>) (rm_agent_limits m a))\<rparr>) ord
     (fb\<lparr>fb_agent_allocations := (\<lambda>a. map_option (\<lambda>aa. aa\<lparr>aa_realized_pnl := rp a,
        aa_unrealized_pnl := up a, aa_current_drawdown := dd a, aa_max_drawdown_limit := ml a,
        aa_status := st a\<rparr>) (fb_agent_allocations fb a))\<rparr>) path =
   evaluate X m ord fb path"
proof -
  let ?m = "m\<lparr>rm_agent_limits := (\<lambda>a. map_option (\<lambda>al. al\<lparr>al_max_drawdown_pct := dp a,
      al_max_daily_loss := dl a, al_max_open_orders := oo a\<rparr>) (rm_agent_limits m a))\<rparr>"
  let ?fb = "fb\<lparr>fb_agent_allocations := (\<lambda>a. map_option (\<lambda>aa. aa\<lparr>aa_realized_pnl := rp a,
      aa_unrealized_pnl := up a, aa_current_drawdown := dd a, aa_max_drawdown_limit := ml a,
      aa_status := st a\<rparr>) (fb_agent_allocations fb a))\<rparr>"
  have "project_exposures X core price ?fb (aa\<lparr>aa_realized_pnl := r, aa_unrealized_pnl := u,
      aa_current_drawdown := d, aa_max_drawdown_limit := l, aa_status := s\<rparr>) =
      project_exposures X core price fb aa" for core price aa s d l r u
    by (simp add: project_exposures_def)
  moreover have "run_checks X core price nav ?fb (al\<lparr>al_max_drawdown_pct := a,
      al_max_daily_loss := b, al_max_open_orders := c\<rparr>) il vl pj path =
      run_checks X core price nav fb al il vl pj path" for core price nav al il vl pj a b c
    by (simp add: run_checks_def check_drawdown_def check_cash_reserve_def
        check_agent_permissions_def check_agent_budget_def)
  moreover have "effective_nav ?m ?fb = effective_nav m fb" by (simp add: effective_nav_def)
  ultimately show ?thesis
    by (simp add: evaluate_def Let_def split: option.split sum.split)
qed

end
