(* ===== verification/Market.thy ===== *)
theory Market
  imports Venue_Health Pipeline Exposure
begin

text \<open>
  Market data and valuation: order book snapshots with their validation
  (\<open>types/src/market_data.rs\<close>), price observations and mark-to-market (\<open>types/src/pnl.rs\<close>), fee
  schedules (\<open>types/src/fees.rs\<close>), reconciliation reports (\<open>types/src/reconciliation.rs\<close>) and the
  events of the engine (\<open>types/src/event.rs\<close>). The lemmas characterise the books that pass
  validation and the arithmetic of mark-to-market.
\<close>

subsection \<open>Order books\<close>

datatype market_data_error =
    NonPositivePrice string nat decimal
  | NonPositiveQty string nat decimal
  | BidsUnsorted nat decimal decimal
  | AsksUnsorted nat decimal decimal
  | CrossedBook decimal decimal

record price_level =
  pl_price :: decimal
  pl_qty :: decimal

definition level_notional :: "ext \<Rightarrow> price_level \<Rightarrow> decimal option" where
  "level_notional X l = dec_mul X (pl_price l) (pl_qty l)"

record orderbook_snapshot =
  ob_venue_id :: venue_id
  ob_instrument_id :: instrument_id
  ob_market_id :: market_id
  ob_bids :: "price_level list"
  ob_asks :: "price_level list"
  ob_observed_at :: datetime
  ob_received_at :: datetime

definition first :: "'a list \<Rightarrow> 'a option" where
  "first xs = (case xs of [] \<Rightarrow> None | x # _ \<Rightarrow> Some x)"

definition best_bid :: "orderbook_snapshot \<Rightarrow> price_level option" where
  "best_bid b = first (ob_bids b)"

definition best_ask :: "orderbook_snapshot \<Rightarrow> price_level option" where
  "best_ask b = first (ob_asks b)"

text \<open>The inner option is the \<open>Option\<close> of the source, the outer one a panic.\<close>

definition mid_price :: "ext \<Rightarrow> orderbook_snapshot \<Rightarrow> decimal option option" where
  "mid_price X b = (case (best_bid b, best_ask b) of
       (Some bid, Some ask) \<Rightarrow> do {
         s \<leftarrow> dec_add X (pl_price bid) (pl_price ask);
         m \<leftarrow> dec_div X s 2;
         Some (Some m) }
     | _ \<Rightarrow> Some None)"

text \<open>The loop of \<open>validate_side\<close>, with the index and the previous price as its variables.\<close>

fun validate_side_from ::
  "nat \<Rightarrow> decimal option \<Rightarrow> price_level list \<Rightarrow> string \<Rightarrow> bool \<Rightarrow> market_data_error + unit"
where
  "validate_side_from index previous_price [] side_name descending = Inr ()"
| "validate_side_from index previous_price (level # levels) side_name descending =
     (if pl_price level \<le> 0 then Inl (NonPositivePrice side_name index (pl_price level))
      else if pl_qty level \<le> 0 then Inl (NonPositiveQty side_name index (pl_qty level))
      else (case previous_price of
          Some previous \<Rightarrow>
            if \<not> (if descending then pl_price level \<le> previous else previous \<le> pl_price level)
            then (if descending then Inl (BidsUnsorted index previous (pl_price level))
                  else Inl (AsksUnsorted index previous (pl_price level)))
            else validate_side_from (Suc index) (Some (pl_price level)) levels side_name descending
        | None \<Rightarrow>
            validate_side_from (Suc index) (Some (pl_price level)) levels side_name descending))"

definition validate_side :: "price_level list \<Rightarrow> string \<Rightarrow> bool \<Rightarrow> market_data_error + unit" where
  "validate_side levels side_name descending = validate_side_from 0 None levels side_name descending"

definition validate_book :: "orderbook_snapshot \<Rightarrow> market_data_error + unit" where
  "validate_book b = (case validate_side (ob_bids b) ''bid'' True of
       Inl e \<Rightarrow> Inl e
     | Inr _ \<Rightarrow> (case validate_side (ob_asks b) ''ask'' False of
         Inl e \<Rightarrow> Inl e
       | Inr _ \<Rightarrow> (case (best_bid b, best_ask b) of
           (Some bid, Some ask) \<Rightarrow>
             if pl_price ask < pl_price bid then Inl (CrossedBook (pl_price bid) (pl_price ask))
             else Inr ()
         | _ \<Rightarrow> Inr ())))"

subsection \<open>Prices and mark-to-market\<close>

record price_snapshot =
  ps_instrument :: instrument_id
  ps_bid :: decimal
  ps_ask :: decimal
  ps_mid :: decimal
  ps_last :: decimal
  ps_observed_at :: datetime
  ps_received_at :: datetime

text \<open>The trait \<open>PriceSource\<close>: the cache is read through these two functions.\<close>

record price_source =
  latest_price :: "instrument_id \<Rightarrow> price_snapshot option"
  is_stale :: "instrument_id \<Rightarrow> nat \<Rightarrow> bool"

definition spread :: "ext \<Rightarrow> price_snapshot \<Rightarrow> decimal option" where
  "spread X p = dec_sub X (ps_ask p) (ps_bid p)"

definition spread_bps :: "ext \<Rightarrow> price_snapshot \<Rightarrow> decimal option option" where
  "spread_bps X p =
     (if ps_mid p = 0 then Some None
      else do { s \<leftarrow> spread X p; r \<leftarrow> dec_div X s (ps_mid p); b \<leftarrow> dec_mul X r 10000; Some (Some b) })"

record mark_to_market_snapshot =
  mm_instrument :: instrument_id
  mm_qty :: decimal
  mm_avg_entry_price :: decimal
  mm_mark_price :: decimal
  mm_unrealized_pnl :: decimal
  mm_notional_value :: decimal
  mm_computed_at :: datetime

definition mtm_compute ::
  "ext \<Rightarrow> instrument_id \<Rightarrow> decimal \<Rightarrow> decimal \<Rightarrow> decimal \<Rightarrow> datetime \<Rightarrow>
   mark_to_market_snapshot option"
where
  "mtm_compute X instrument qty avg_entry_price mark_price now = do {
     d \<leftarrow> dec_sub X mark_price avg_entry_price;
     unrealized_pnl \<leftarrow> dec_mul X d qty;
     notional_value \<leftarrow> dec_mul X \<bar>qty\<bar> mark_price;
     Some \<lparr>mm_instrument = instrument, mm_qty = qty, mm_avg_entry_price = avg_entry_price,
           mm_mark_price = mark_price, mm_unrealized_pnl = unrealized_pnl,
           mm_notional_value = notional_value, mm_computed_at = now\<rparr> }"

subsection \<open>Fees\<close>

datatype fee_error =
    NoSchedule venue_id
  | NoInstrumentSchedule instrument_id venue_id
  | FeeCalculation msg

record fee_estimate =
  fe_as_maker :: decimal
  fe_as_taker :: decimal
  fe_worst_case :: decimal
  fe_gas_estimate :: decimal

record fee =
  fe_trading_fee :: decimal
  fe_gas_fee :: decimal
  fe_rebate :: decimal
  fe_funding_fee :: decimal
  fe_net :: decimal

datatype gas_model = GasNone | GasFixed (fee_per_tx: decimal) | GasDynamic (base_fee: decimal) (priority_fee: decimal)

record instrument_fee_override =
  fo_instrument_id :: instrument_id
  fo_maker_rate :: decimal
  fo_taker_rate :: decimal

record fee_schedule =
  sc_venue_id :: venue_id
  sc_tier :: string
  sc_maker_rate :: decimal
  sc_taker_rate :: decimal
  sc_gas_model :: gas_model
  sc_instrument_overrides :: "instrument_fee_override list"

subsection \<open>Reconciliation reports\<close>

datatype reconciliation_action = AcceptVenue | AlertOnly | CancelOrphan

record position_divergence =
  pd_instrument :: instrument_id
  pd_engine_qty :: decimal
  pd_venue_qty :: decimal
  pd_delta :: decimal
  pd_action :: reconciliation_action

datatype order_divergence =
    MissingOnVenue order_id string
  | OrphanOnVenue venue_order_id string
  | StateMismatch order_id venue_order_id string string

record balance_divergence =
  bd_engine_balance :: decimal
  bd_venue_balance :: decimal
  bd_delta :: decimal

record reconciliation_report =
  rr_venue_id :: venue_id
  rr_account_id :: account_id
  rr_started_at :: datetime
  rr_completed_at :: datetime
  rr_position_divergences :: "position_divergence list"
  rr_order_divergences :: "order_divergence list"
  rr_balance_divergence :: "balance_divergence option"

definition is_clean :: "reconciliation_report \<Rightarrow> bool" where
  "is_clean r = (rr_position_divergences r = [] \<and> rr_order_divergences r = [] \<and>
     rr_balance_divergence r = None)"

definition divergence_count :: "reconciliation_report \<Rightarrow> nat" where
  "divergence_count r = length (rr_position_divergences r) + length (rr_order_divergences r) +
     (if rr_balance_divergence r = None then 0 else 1)"

record reconciliation_config =
  rg_interval :: nat
  rg_on_reconnect :: bool
  rg_auto_correct_threshold :: decimal
  rg_halt_threshold :: decimal

definition reconciliation_config_default :: reconciliation_config where
  "reconciliation_config_default = \<lparr>rg_interval = 60000, rg_on_reconnect = True,
     rg_auto_correct_threshold = 1 / 10000, rg_halt_threshold = 10\<rparr>"

subsection \<open>Engine events\<close>

datatype risk_outcome_kind = KindApproved | KindResized | KindRejected

datatype engine_event =
    EvOrderReceived order_id agent_id instrument_id venue_id
  | EvOrderValidated order_id
  | EvOrderRiskChecked order_id risk_outcome_kind
  | EvOrderRouted order_id venue_id
  | EvOrderSubmitted order_id venue_order_id
  | EvOrderFilled order_id decimal decimal decimal
  | EvOrderPartiallyFilled order_id decimal decimal decimal decimal
  | EvOrderCancelled order_id msg
  | EvOrderRejected order_id string msg
  | EvOrderAmended order_id "decimal option" "decimal option"
  | EvRiskBreached agent_id string msg
  | EvCircuitBreakerTripped string msg
  | EvCircuitBreakerReset string
  | EvPositionCorrected instrument_id venue_id decimal decimal
  | EvReconciliationCompleted venue_id u32
  | EvAgentPaused agent_id msg
  | EvAgentResumed agent_id
  | EvEngineStarted string
  | EvEngineHalted msg
  | EvSnapshotCreated sequence_id
  | EvVenueConnected venue_id
  | EvVenueDisconnected venue_id msg
  | EvSubsystemDegraded subsystem_id msg
  | EvSubsystemRecovered subsystem_id

record 'a sequenced_event =
  se_sequence_id :: sequence_id
  se_timestamp :: datetime
  se_event :: 'a

text \<open>A two-level book.\<close>

definition example_orderbook :: orderbook_snapshot where
  "example_orderbook = \<lparr>ob_venue_id = VenueId ''paper'', ob_instrument_id = InstrumentId ''BTC'',
     ob_market_id = MarketId ''BTCUSDT'',
     ob_bids = [\<lparr>pl_price = 10000, pl_qty = 2\<rparr>, \<lparr>pl_price = 9990, pl_qty = 3\<rparr>],
     ob_asks = [\<lparr>pl_price = 10010, pl_qty = 1\<rparr>, \<lparr>pl_price = 10020, pl_qty = 4\<rparr>],
     ob_observed_at = 0, ob_received_at = 0\<rparr>"

subsection \<open>Validation of one side\<close>

definition side_ok :: "bool \<Rightarrow> price_level list \<Rightarrow> bool" where
  "side_ok descending ls \<longleftrightarrow> (\<forall>l \<in> set ls. 0 < pl_price l \<and> 0 < pl_qty l) \<and>
     (if descending then sorted_wrt (\<ge>) (map pl_price ls) else sorted_wrt (\<le>) (map pl_price ls))"

lemma validate_side_from_ok:
  "validate_side_from i (Some p) ls n desc = Inr () \<longleftrightarrow>
   (\<forall>l \<in> set ls. 0 < pl_price l \<and> 0 < pl_qty l) \<and>
   (if desc then sorted_wrt (\<ge>) (p # map pl_price ls) else sorted_wrt (\<le>) (p # map pl_price ls))"
proof (induction ls arbitrary: i p desc)
  case (Cons l ls)
  show ?case by (auto simp: Cons.IH intro: order_trans)
qed simp

lemma validate_side_ok: "validate_side ls n desc = Inr () \<longleftrightarrow> side_ok desc ls"
  by (cases ls) (auto simp: validate_side_def side_ok_def validate_side_from_ok)

lemma validate_book_iff:
  "validate_book b = Inr () \<longleftrightarrow> side_ok True (ob_bids b) \<and> side_ok False (ob_asks b) \<and>
   (\<forall>bid ask. best_bid b = Some bid \<longrightarrow> best_ask b = Some ask \<longrightarrow> pl_price bid \<le> pl_price ask)"
  using validate_side_ok [of "ob_bids b" "''bid''" True] validate_side_ok [of "ob_asks b" "''ask''" False]
  unfolding validate_book_def
  by (cases "validate_side (ob_bids b) ''bid'' True"; cases "validate_side (ob_asks b) ''ask'' False")
    (auto split: option.split)

text \<open>Every bid of a valid book is at most every ask.\<close>

lemma sorted_first:
  "sorted_wrt (\<ge>) (map f (x # xs)) \<Longrightarrow> y \<in> set (x # xs) \<Longrightarrow> f y \<le> (f x :: rat)"
  "sorted_wrt (\<le>) (map f (x # xs)) \<Longrightarrow> y \<in> set (x # xs) \<Longrightarrow> f x \<le> (f y :: rat)"
  by auto

lemma uncrossed:
  assumes "side_ok True bs" and "side_ok False as" and "b \<in> set bs" and "a \<in> set as"
    and "\<And>x y. first bs = Some x \<Longrightarrow> first as = Some y \<Longrightarrow> pl_price x \<le> pl_price y"
  shows "pl_price b \<le> pl_price a"
proof -
  obtain x bs' y as' where l: "bs = x # bs'" "as = y # as'" using assms(3,4) by (cases bs; cases as) auto
  then have "pl_price b \<le> pl_price x" "pl_price y \<le> pl_price a"
    using assms(1-4) sorted_first [of pl_price] by (auto simp: side_ok_def)
  with assms(5) [of x y] l show ?thesis by (simp add: first_def)
qed

subsection \<open>Properties\<close>

text \<open>
  C36: Validation accepts exactly the well-formed books: every level has a positive price and
  quantity, bids descend and asks ascend; and then no bid anywhere in the book is above any ask.
\<close>

theorem validate_book_correct:
  "(validate_book b = Inr () \<longleftrightarrow> side_ok True (ob_bids b) \<and> side_ok False (ob_asks b) \<and>
     (\<forall>x \<in> set (ob_bids b). \<forall>y \<in> set (ob_asks b). pl_price x \<le> pl_price y))"
proof
  assume "validate_book b = Inr ()"
  then show "side_ok True (ob_bids b) \<and> side_ok False (ob_asks b) \<and>
     (\<forall>x \<in> set (ob_bids b). \<forall>y \<in> set (ob_asks b). pl_price x \<le> pl_price y)"
    using uncrossed by (auto simp: validate_book_iff best_bid_def best_ask_def)
next
  assume "side_ok True (ob_bids b) \<and> side_ok False (ob_asks b) \<and>
     (\<forall>x \<in> set (ob_bids b). \<forall>y \<in> set (ob_asks b). pl_price x \<le> pl_price y)"
  then show "validate_book b = Inr ()"
    by (auto simp: validate_book_iff best_bid_def best_ask_def first_def split: list.splits)
qed

theorem validate_book_correct_witness:
  "validate_book example_orderbook = Inr ()"
  unfolding validate_book_correct by (auto simp: example_orderbook_def side_ok_def)

text \<open>
  Mark-to-market on grids: with prices of scale \<open>s\<close> and a quantity of scale \<open>t\<close> the snapshot
  is computed without panic and exactly; the P\&L of a position and of its mirror image cancel,
  and the notional is never negative for a positive mark.
\<close>

theorem mtm_compute_exact:
  assumes "exact_arith X" and "s + t \<le> 28" and "0 < A" and "0 < B" and "2 * A * B < 2 ^ 96"
    and "on_grid s A mark" and "on_grid s A entry" and "on_grid t B qty" and "0 < mark"
  shows "\<exists>p q. mtm_compute X i qty entry mark now = Some p \<and>
    mtm_compute X i (- qty) entry mark now = Some q \<and>
    mm_unrealized_pnl p = (mark - entry) * qty \<and> mm_unrealized_pnl q = - mm_unrealized_pnl p \<and>
    mm_notional_value p = \<bar>qty\<bar> * mark \<and> 0 \<le> mm_notional_value p"
proof -
  have AB: "A \<le> 2 * A * B" "B \<le> 2 * A * B" "2 * A \<le> 2 * A * B" "A * B \<le> 2 * A * B"
    using assms(3,4) mult_mono [of 1 A 1 B] mult_mono [of 1 A B B] mult_mono [of A A 1 B] by auto
  have g: "on_grid s (2 * A) (mark - entry)" "on_grid t B \<bar>qty\<bar>" "on_grid t B (- qty)"
    using on_grid_diff [OF assms(6,7)] assms(8) by (auto intro: on_grid_abs on_grid_uminus)
  have p: "on_grid (s + t) (2 * A * B) ((mark - entry) * qty)"
      "on_grid (s + t) (2 * A * B) ((mark - entry) * (- qty))"
      "on_grid (t + s) (B * A) (\<bar>qty\<bar> * mark)"
    using on_grid_mult [OF g(1) assms(8)] on_grid_mult [OF g(1,3)] on_grid_mult [OF g(2) assms(6)] .
  have r: "representable mark" "representable entry" "representable qty" "representable (- qty)"
      "representable \<bar>qty\<bar>" "representable (mark - entry)" "representable ((mark - entry) * qty)"
      "representable ((mark - entry) * (- qty))" "representable (\<bar>qty\<bar> * mark)"
    using on_grid_representable [OF assms(6)] on_grid_representable [OF assms(7)]
      on_grid_representable [OF assms(8)] on_grid_representable [OF g(1)]
      on_grid_representable [OF g(2)] on_grid_representable [OF g(3)]
      on_grid_representable [OF p(1)] on_grid_representable [OF p(2)] on_grid_representable [OF p(3)]
      assms(2,5) AB by (simp_all add: mult.commute [of B A])
  have "dec_sub X mark entry = Some (mark - entry)"
      "dec_mul X (mark - entry) qty = Some ((mark - entry) * qty)"
      "dec_mul X (mark - entry) (- qty) = Some ((mark - entry) * (- qty))"
      "dec_mul X \<bar>qty\<bar> mark = Some (\<bar>qty\<bar> * mark)"
    by (rule exact_arithD [OF assms(1)]; rule r)+
  then show ?thesis using assms(9) by (simp add: mtm_compute_def)
qed

theorem mtm_compute_exact_witness:
  "\<exists>p. mtm_compute ideal_ext (InstrumentId ''ETH'') (- 10) 3000 2800 0 = Some p \<and>
     mm_unrealized_pnl p = (2800 - 3000) * (- 10)"
proof -
  have "on_grid 0 3000 2800" "on_grid 0 3000 3000" "on_grid 0 10 (- 10)"
    by (rule on_gridI [where k = 2800] on_gridI [where k = 3000] on_gridI [where k = "- 10"]; simp)+
  from mtm_compute_exact [of ideal_ext 0 0 3000 10, OF _ _ _ _ _ this] show ?thesis by auto
qed

end
