(* ===== verification/Signal_Bridge.thy ===== *)
theory Signal_Bridge
  imports Market
begin

text \<open>
  The bridge from agent signals to draft orders (\<open>gateway/src/lib.rs\<close>): gateway errors, the
  symbol map between venue-native symbols and instruments, conviction sizing, venue selection
  and the construction of the draft order. The lemmas show that both directions of the symbol
  map always agree, and characterise the drafts that a signal gives rise to: their price, size,
  exits and venue. Logging is not modelled; \<open>Duration\<close>s are in nanoseconds.
\<close>

subsection \<open>Errors\<close>

datatype gateway_error =
    GwVenueNotConnected string msg
  | GwAgentAllocationNotFound string
  | GwPriceUnavailable string
  | GwStalePrice string nat
  | GwRoutingUnavailable string msg
  | GwTimeout string nat
  | GwVenueRejected msg
  | GwOrderNotFound string
  | GwUnsupported msg
  | GwValidation msg
  | GwInternal msg

fun gateway_error_display :: "gateway_error \<Rightarrow> msg" where
  "gateway_error_display (GwVenueNotConnected v st) =
     [PStr ''venue '', PStr v, PStr '' is not connected (state: ''] @ st @ [PStr '')'']"
| "gateway_error_display (GwAgentAllocationNotFound a) =
     [PStr ''agent allocation not found for '', PStr a]"
| "gateway_error_display (GwPriceUnavailable i) =
     [PStr ''price unavailable for instrument '', PStr i]"
| "gateway_error_display (GwStalePrice i age) =
     [PStr ''price for instrument '', PStr i, PStr '' is stale (max age '', PInt (int age), PStr '')'']"
| "gateway_error_display (GwRoutingUnavailable i r) =
     [PStr ''no route available for instrument '', PStr i, PStr '': ''] @ r"
| "gateway_error_display (GwTimeout op t) =
     [PStr ''operation timed out after '', PInt (int t), PStr '': '', PStr op]"
| "gateway_error_display (GwVenueRejected r) = PStr ''venue rejected order: '' # r"
| "gateway_error_display (GwOrderNotFound i) = [PStr ''order not found: '', PStr i]"
| "gateway_error_display (GwUnsupported r) = PStr ''venue does not support: '' # r"
| "gateway_error_display (GwValidation r) = PStr ''validation failed: '' # r"
| "gateway_error_display (GwInternal r) = r"

type_synonym 'a gw_result = "(gateway_error + 'a) option"

subsection \<open>The symbol map\<close>

record venue_symbol =
  vs_venue_id :: venue_id
  vs_symbol :: string

record symbol_map =
  sm_forward :: "(venue_id \<times> string) \<rightharpoonup> instrument_id"
  sm_reverse :: "instrument_id \<rightharpoonup> venue_symbol list"

definition symbol_map_default :: symbol_map where
  "symbol_map_default = \<lparr>sm_forward = Map.empty, sm_reverse = Map.empty\<rparr>"

definition symbol_map_insert ::
  "symbol_map \<Rightarrow> venue_id \<Rightarrow> string \<Rightarrow> instrument_id \<Rightarrow> gateway_error + symbol_map"
where
  "symbol_map_insert sm v symb i = (case sm_forward sm (v, symb) of
       Some existing \<Rightarrow>
         if existing \<noteq> i
         then Inl (GwValidation [PStr ''symbol map conflict for '', PStr (venue_id_str v), PStr '':'',
                PStr symb, PStr '': already mapped to '', PStr (instrument_id_str existing)])
         else Inr sm
     | None \<Rightarrow>
         (let entry = unwrap_or (sm_reverse sm i) [];
              vsym = \<lparr>vs_venue_id = v, vs_symbol = symb\<rparr>;
              entry' = (if \<not> list_ex (\<lambda>c. vs_venue_id c = v \<and> vs_symbol c = symb) entry
                        then entry @ [vsym] else entry)
          in Inr (sm\<lparr>sm_forward := (sm_forward sm)((v, symb) \<mapsto> i),
                     sm_reverse := (sm_reverse sm)(i \<mapsto> entry')\<rparr>)))"

definition instrument_for :: "symbol_map \<Rightarrow> venue_id \<Rightarrow> string \<Rightarrow> instrument_id option" where
  "instrument_for sm v symb = sm_forward sm (v, symb)"

definition venues_for :: "symbol_map \<Rightarrow> instrument_id \<Rightarrow> venue_symbol list option" where
  "venues_for sm i = sm_reverse sm i"

subsection \<open>Configuration\<close>

record venue_route_state =
  vr_connection_health :: venue_connection_health
  vr_available_balance :: decimal

definition vr_venue_id :: "venue_route_state \<Rightarrow> venue_id" where
  "vr_venue_id st = vh_venue_id (vr_connection_health st)"

datatype signal_routing_policy = FirstListed | HighestAvailableBalance

record signal_order_bridge_config =
  bc_default_order_type :: order_type
  bc_default_time_in_force :: time_in_force
  bc_dry_run :: bool
  bc_routing_policy :: signal_routing_policy
  bc_max_price_age :: nat

definition bridge_config_default :: signal_order_bridge_config where
  "bridge_config_default = \<lparr>bc_default_order_type = Market, bc_default_time_in_force = IOC,
     bc_dry_run = True, bc_routing_policy = HighestAvailableBalance,
     bc_max_price_age = 30 * 10 ^ 9\<rparr>"

record signal_order_bridge =
  br_config :: signal_order_bridge_config
  br_symbol_map :: symbol_map

definition bridge_new :: "signal_order_bridge_config \<Rightarrow> symbol_map \<Rightarrow> signal_order_bridge" where
  "bridge_new config sm = \<lparr>br_config = config, br_symbol_map = sm\<rparr>"

subsection \<open>Validation of a signal\<close>

text \<open>
  \<open>str::trim().is_empty()\<close> on the bytes of a UTF-8 string: every character is white space in
  the sense of Unicode (\<open>U+0009\<close> to \<open>U+000D\<close>, space, \<open>U+0085\<close>, \<open>U+00A0\<close>, \<open>U+1680\<close>, \<open>U+2000\<close> to
  \<open>U+200A\<close>, \<open>U+2028\<close>, \<open>U+2029\<close>, \<open>U+202F\<close>, \<open>U+205F\<close>, \<open>U+3000\<close>).
\<close>

fun trim_is_empty :: "string \<Rightarrow> bool" where
  "trim_is_empty [] \<longleftrightarrow> True"
| "trim_is_empty (a # s) \<longleftrightarrow>
     (let n = (of_char a :: nat) in
      (9 \<le> n \<and> n \<le> 13 \<or> n = 32) \<and> trim_is_empty s \<or>
      (case s of [] \<Rightarrow> False | b # t \<Rightarrow>
         (let k = (of_char b :: nat) in
          n = 0xC2 \<and> (k = 0x85 \<or> k = 0xA0) \<and> trim_is_empty t \<or>
          (case t of [] \<Rightarrow> False | c # u \<Rightarrow>
             (let l = (of_char c :: nat) in
              (n = 0xE1 \<and> k = 0x9A \<and> l = 0x80 \<or>
               n = 0xE2 \<and> k = 0x80 \<and> (0x80 \<le> l \<and> l \<le> 0x8A \<or> l = 0xA8 \<or> l = 0xA9 \<or> l = 0xAF) \<or>
               n = 0xE2 \<and> k = 0x81 \<and> l = 0x9F \<or>
               n = 0xE3 \<and> k = 0x80 \<and> l = 0x80) \<and> trim_is_empty u)))))"

definition validate_signal :: "signal \<Rightarrow> gateway_error + unit" where
  "validate_signal sg =
     (if sig_conviction sg < 0 \<or> 1 < sig_conviction sg
      then Inl (GwValidation [PStr ''signal conviction must be within 0.0..=1.0, got '',
             PDec (sig_conviction sg)])
      else if sig_conviction sg = 0 \<and> sig_sizing_hint sg \<noteq> None
      then Inl (GwValidation
             (lit ''sizing_hint provided with zero conviction; intent is ambiguous''))
      else if sig_stop_loss sg \<le> 0
      then Inl (GwValidation [PStr ''signal stop_loss must be positive, got '',
             PDec (sig_stop_loss sg)])
      else if trim_is_empty (sig_thesis sg)
      then Inl (GwValidation (lit ''signal thesis must be non-empty''))
      else (case sig_sizing_hint sg of
          Some hint \<Rightarrow>
            if hint \<le> 0
            then Inl (GwValidation [PStr ''signal sizing_hint must be positive, got '', PDec hint])
            else Inr ()
        | None \<Rightarrow> Inr ()))"

fun side_debug :: "side \<Rightarrow> string" where
  "side_debug Buy = ''Buy''"
| "side_debug Sell = ''Sell''"

definition validate_exit_targets :: "signal \<Rightarrow> decimal \<Rightarrow> gateway_error + unit" where
  "validate_exit_targets sg reference_price =
     (let valid_stop_loss = (case sig_direction sg of
            Buy \<Rightarrow> sig_stop_loss sg < reference_price
          | Sell \<Rightarrow> reference_price < sig_stop_loss sg)
      in if \<not> valid_stop_loss
         then Inl (GwValidation [PStr ''stop_loss '', PDec (sig_stop_loss sg),
                PStr '' is not on the losing side of reference price '', PDec reference_price,
                PStr '' for '', PStr (side_debug (sig_direction sg))])
         else (case sig_take_profit sg of
             None \<Rightarrow> Inr ()
           | Some take_profit \<Rightarrow>
               (let valid_take_profit = (case sig_direction sg of
                      Buy \<Rightarrow> reference_price < take_profit
                    | Sell \<Rightarrow> take_profit < reference_price)
                in if \<not> valid_take_profit
                   then Inl (GwValidation [PStr ''take_profit '', PDec take_profit,
                          PStr '' is not on the profitable side of reference price '',
                          PDec reference_price, PStr '' for '',
                          PStr (side_debug (sig_direction sg))])
                   else Inr ())))"

definition reference_price_for ::
  "signal_order_bridge \<Rightarrow> signal \<Rightarrow> price_source \<Rightarrow> gateway_error + decimal"
where
  "reference_price_for br sg prices = (case latest_price prices (sig_instrument sg) of
       None \<Rightarrow> Inl (GwPriceUnavailable (instrument_id_str (sig_instrument sg)))
     | Some snapshot \<Rightarrow>
         if is_stale prices (sig_instrument sg) (bc_max_price_age (br_config br))
         then Inl (GwStalePrice (instrument_id_str (sig_instrument sg))
                (bc_max_price_age (br_config br)))
         else (let reference_price = (case sig_direction sg of
                     Buy \<Rightarrow> ps_ask snapshot | Sell \<Rightarrow> ps_bid snapshot)
               in if reference_price \<le> 0
                  then Inl (GwValidation [PStr ''reference price must be positive, got '',
                         PDec reference_price])
                  else Inr reference_price))"

subsection \<open>Sizing and venue selection\<close>

definition size_signal :: "ext \<Rightarrow> signal \<Rightarrow> decimal \<Rightarrow> decimal \<Rightarrow> decimal gw_result" where
  "size_signal X sg allocated_capital reference_price =
     try_then
       (case sig_sizing_hint sg of
          Some hint \<Rightarrow>
            if allocated_capital < hint
            then Some (Inl (GwValidation [PStr ''sizing_hint '', PDec hint,
                   PStr '' exceeds agent allocated_capital '', PDec allocated_capital]))
            else map_option Inr (dec_div X hint reference_price)
        | None \<Rightarrow> do {
            d \<leftarrow> dec_sub X reference_price (sig_stop_loss sg);
            let max_loss_per_unit = \<bar>d\<bar>;
            if max_loss_per_unit \<le> 0
            then Some (Inl (GwValidation
                   (lit ''signal stop_loss must differ from the reference price'')))
            else do {
              budget \<leftarrow> dec_mul X (sig_conviction sg) allocated_capital;
              map_option Inr (dec_div X budget max_loss_per_unit) } })
       (\<lambda>qty.
          if qty \<le> 0
          then Some (Inl (GwValidation
                 [PStr ''signal sizing produced a non-positive quantity: '', PDec qty]))
          else Some (Inr qty))"

text \<open>The closure of \<open>filter_map\<close> in \<open>select_venue\<close>.\<close>

definition eligible_state ::
  "venue_id list option \<Rightarrow> venue_route_state list \<Rightarrow> venue_symbol \<Rightarrow>
   (venue_symbol \<times> venue_route_state) option"
where
  "eligible_state allowed_venues venue_states mapping =
     (case List.find (\<lambda>c. vr_venue_id c = vs_venue_id mapping) venue_states of
        None \<Rightarrow> None
      | Some st \<Rightarrow>
          if (case allowed_venues of
                Some vs \<Rightarrow> \<not> list_ex (\<lambda>v. v = vs_venue_id mapping) vs | None \<Rightarrow> False)
          then None
          else if \<not> is_submittable (vr_connection_health st) then None
          else Some (mapping, st))"

definition select_venue ::
  "signal_order_bridge \<Rightarrow> signal \<Rightarrow> agent_risk_limits option \<Rightarrow> venue_route_state list \<Rightarrow>
   gateway_error + venue_symbol"
where
  "select_venue br sg limits venue_states =
     (let i = instrument_id_str (sig_instrument sg) in
      if (case Option.bind limits al_allowed_instruments of
            Some insts \<Rightarrow> \<not> list_ex (\<lambda>j. j = sig_instrument sg) insts | None \<Rightarrow> False)
      then Inl (GwRoutingUnavailable i [PStr ''instrument '', PStr i,
             PStr '' is not allowed for agent '', PStr (agent_id_str (sig_agent sg))])
      else (case venues_for (br_symbol_map br) (sig_instrument sg) of
          None \<Rightarrow> Inl (GwRoutingUnavailable i (lit ''instrument is missing from the symbol map''))
        | Some mapped_venues \<Rightarrow>
            (let allowed_venues = Option.bind limits al_allowed_venues;
                 eligible = List.map_filter (eligible_state allowed_venues venue_states) mapped_venues
             in if eligible = []
                then Inl (GwRoutingUnavailable i
                       [PStr ''no mapped venue is simultaneously allowed and connected for '',
                        PStr i])
                else (case bc_routing_policy (br_config br) of
                    FirstListed \<Rightarrow> Inr (fst (hd eligible))
                  | HighestAvailableBalance \<Rightarrow>
                      (case max_by (\<lambda>p. vr_available_balance (snd p)) eligible of
                         Some p \<Rightarrow> Inr (fst p)
                       | None \<Rightarrow> Inl (GwRoutingUnavailable i
                           (lit ''no eligible venues remained after routing'')))))))"

definition order_id_for_signal :: "signal_id \<Rightarrow> order_id" where
  "order_id_for_signal i = OrderId (''ord-'' @ signal_id_str i)"

subsection \<open>The draft orders of a signal\<close>

definition signal_to_orders ::
  "ext \<Rightarrow> signal_order_bridge \<Rightarrow> signal \<Rightarrow> firm_book \<Rightarrow> agent_risk_limits option \<Rightarrow> price_source \<Rightarrow>
   venue_route_state list \<Rightarrow> datetime \<Rightarrow> draft pipeline_order list gw_result"
where
  "signal_to_orders X br sg fb limits prices venue_states now =
     try_then (Some (validate_signal sg)) (\<lambda>_.
     try_then
       (case fb_agent_allocations fb (sig_agent sg) of
          None \<Rightarrow> Some (Inl (GwAgentAllocationNotFound (agent_id_str (sig_agent sg))))
        | Some allocation \<Rightarrow> Some (Inr allocation)) (\<lambda>allocation.
     if aa_status allocation \<noteq> AgentActive
     then Some (Inl (GwValidation [PStr ''agent '', PStr (agent_id_str (sig_agent sg)),
            PStr '' is not active: '', PStr (agent_status_display (aa_status allocation))]))
     else if sig_conviction sg = 0 then Some (Inr [])
     else
       try_then (Some (reference_price_for br sg prices)) (\<lambda>reference_price.
       try_then (Some (validate_exit_targets sg reference_price)) (\<lambda>_.
       try_then (size_signal X sg (aa_allocated_capital allocation) reference_price) (\<lambda>qty.
       try_then (Some (select_venue br sg limits venue_states)) (\<lambda>venue.
         Some (Inr [pipeline_new
           \<lparr>oc_id = order_id_for_signal (sig_id sg),
            oc_basket_id = sig_basket_id sg,
            oc_agent_id = sig_agent sg,
            oc_instrument_id = sig_instrument sg,
            oc_market_id = MarketId (vs_symbol venue),
            oc_venue_id = vs_venue_id venue,
            oc_side = sig_direction sg,
            oc_order_type = bc_default_order_type (br_config br),
            oc_time_in_force = bc_default_time_in_force (br_config br),
            oc_qty = qty,
            oc_price = Some reference_price,
            oc_trigger_price = None,
            oc_stop_loss = Some (sig_stop_loss sg),
            oc_take_profit = sig_take_profit sg,
            oc_post_only = False,
            oc_reduce_only = False,
            oc_dry_run = bc_dry_run (br_config br),
            oc_exec_hint = exec_hint_default,
            oc_created_at = now\<rparr>])))))))"

subsection \<open>Specification\<close>

text \<open>Symbol maps are built by insertions only: the fields are private.\<close>

inductive reachable_symbols :: "symbol_map \<Rightarrow> bool" where
  empty_symbols: "reachable_symbols symbol_map_default"
| insert_symbol: "reachable_symbols sm \<Longrightarrow> symbol_map_insert sm v symb i = Inr sm' \<Longrightarrow> reachable_symbols sm'"

definition symbols_agree :: "symbol_map \<Rightarrow> bool" where
  "symbols_agree sm \<longleftrightarrow>
     (\<forall>v symb i. sm_forward sm (v, symb) = Some i \<longleftrightarrow>
        (\<exists>l. sm_reverse sm i = Some l \<and> \<lparr>vs_venue_id = v, vs_symbol = symb\<rparr> \<in> set l)) \<and>
     (\<forall>i l. sm_reverse sm i = Some l \<longrightarrow> l \<noteq> [] \<and> distinct l)"

text \<open>The routes a signal may take: listed, reported, allowed and connected.\<close>

definition routable ::
  "signal_order_bridge \<Rightarrow> signal \<Rightarrow> agent_risk_limits option \<Rightarrow> venue_route_state list \<Rightarrow>
   venue_symbol \<Rightarrow> venue_route_state \<Rightarrow> bool"
where
  "routable br sg limits sts m st \<longleftrightarrow>
     (case limits of None \<Rightarrow> True | Some al \<Rightarrow>
        (case al_allowed_instruments al of None \<Rightarrow> True | Some ins \<Rightarrow> sig_instrument sg \<in> set ins) \<and>
        (case al_allowed_venues al of None \<Rightarrow> True | Some vs \<Rightarrow> vs_venue_id m \<in> set vs)) \<and>
     (\<exists>l. venues_for (br_symbol_map br) (sig_instrument sg) = Some l \<and> m \<in> set l) \<and>
     List.find (\<lambda>c. vr_venue_id c = vs_venue_id m) sts = Some st \<and>
     vh_state (vr_connection_health st) = Connected"

text \<open>The candidates of \<open>select_venue\<close>, in the order of the listing.\<close>

definition candidates ::
  "signal_order_bridge \<Rightarrow> signal \<Rightarrow> agent_risk_limits option \<Rightarrow> venue_route_state list \<Rightarrow>
   (venue_symbol \<times> venue_route_state) list"
where
  "candidates br sg limits sts =
     (if case Option.bind limits al_allowed_instruments of
           None \<Rightarrow> True | Some ins \<Rightarrow> sig_instrument sg \<in> set ins
      then List.map_filter (eligible_state (Option.bind limits al_allowed_venues) sts)
             (unwrap_or (venues_for (br_symbol_map br) (sig_instrument sg)) [])
      else [])"

definition exits_ok :: "side \<Rightarrow> decimal \<Rightarrow> decimal \<Rightarrow> decimal option \<Rightarrow> bool" where
  "exits_ok sd price stop target \<longleftrightarrow> (case sd of
       Buy \<Rightarrow> stop < price \<and> (\<forall>t \<in> set_option target. price < t)
     | Sell \<Rightarrow> price < stop \<and> (\<forall>t \<in> set_option target. t < price))"

definition quoted :: "side \<Rightarrow> price_snapshot \<Rightarrow> decimal" where
  "quoted sd p = (case sd of Buy \<Rightarrow> ps_ask p | Sell \<Rightarrow> ps_bid p)"

definition example_symbols :: symbol_map where
  "example_symbols = \<lparr>
     sm_forward = [(VenueId ''bybit'', ''BTCUSDT'') \<mapsto> InstrumentId ''BTC''],
     sm_reverse = [InstrumentId ''BTC'' \<mapsto>
       [\<lparr>vs_venue_id = VenueId ''bybit'', vs_symbol = ''BTCUSDT''\<rparr>]]\<rparr>"

definition example_signal :: signal where
  "example_signal = \<lparr>sig_id = SignalId ''sig-1'', sig_basket_id = None,
     sig_agent = AgentId ''athena'', sig_instrument = InstrumentId ''BTC'', sig_direction = Buy,
     sig_conviction = 1 / 2, sig_sizing_hint = None, sig_arb_type = ''directional'',
     sig_stop_loss = 9900, sig_take_profit = Some 10250, sig_thesis = ''follow breakout'',
     sig_urgency = UrgencyHigh, sig_metadata = '''', sig_created_at = 0\<rparr>"

definition example_prices :: price_source where
  "example_prices = \<lparr>latest_price = (\<lambda>i. Some \<lparr>ps_instrument = i, ps_bid = 9990, ps_ask = 10000,
     ps_mid = 9995, ps_last = 10000, ps_observed_at = 0, ps_received_at = 0\<rparr>),
     is_stale = (\<lambda>_ _. False)\<rparr>"

definition example_signal_book :: firm_book where
  "example_signal_book = \<lparr>fb_nav = 100000, fb_gross_notional = 0, fb_net_notional = 0,
     fb_realized_pnl = 0, fb_unrealized_pnl = 0, fb_daily_pnl = 0, fb_hourly_pnl = 0,
     fb_current_drawdown_pct = 0, fb_allocated_capital = 40000, fb_cash_available = 60000,
     fb_total_fees_paid = 0, fb_agent_allocations = [AgentId ''athena'' \<mapsto>
       \<lparr>aa_allocated_capital = 20000, aa_used_capital = 0, aa_free_capital = 20000,
        aa_realized_pnl = 0, aa_unrealized_pnl = 0, aa_current_drawdown = 0,
        aa_max_drawdown_limit = 15 / 100, aa_status = AgentActive\<rparr>],
     fb_instruments = [],
     fb_prediction_exposure =
       \<lparr>pe_total_notional = 0, pe_pct_of_nav = 0, pe_unresolved_markets = 0\<rparr>,
     fb_as_of = 0\<rparr>"

definition example_route :: venue_route_state where
  "example_route = \<lparr>vr_connection_health = (venue_health_new (VenueId ''bybit''))
     \<lparr>vh_state := Connected\<rparr>, vr_available_balance = 5000\<rparr>"

declare trim_is_empty.simps [simp del]

subsection \<open>The symbol map\<close>

lemma symbol_map_insert_Inr:
  "symbol_map_insert sm v symb i = Inr sm' \<longleftrightarrow>
   sm_forward sm (v, symb) = Some i \<and> sm' = sm \<or>
   sm_forward sm (v, symb) = None \<and>
   (let entry = unwrap_or (sm_reverse sm i) []; m = \<lparr>vs_venue_id = v, vs_symbol = symb\<rparr>
    in sm' = sm\<lparr>sm_forward := (sm_forward sm)((v, symb) \<mapsto> i),
         sm_reverse := (sm_reverse sm)(i \<mapsto> if m \<in> set entry then entry else entry @ [m])\<rparr>)"
proof -
  have "list_ex (\<lambda>c. vs_venue_id c = v \<and> vs_symbol c = symb) l \<longleftrightarrow>
      \<lparr>vs_venue_id = v, vs_symbol = symb\<rparr> \<in> set l" for l :: "venue_symbol list"
    by (induction l) (auto intro: venue_symbol.equality)
  then show ?thesis
    by (auto simp: symbol_map_insert_def Let_def split: option.splits)
qed

lemma unwrap_or_member:
  "m \<in> set (unwrap_or x []) \<longleftrightarrow> (\<exists>l. x = Some l \<and> m \<in> set l)"
  by (cases x) (auto simp: unwrap_or_def)

lemma insert_agrees:
  assumes "symbols_agree sm" and "symbol_map_insert sm v symb i = Inr sm'"
  shows "symbols_agree sm'"
proof (cases "sm_forward sm (v, symb)")
  case (Some j)
  with assms show ?thesis by (auto simp: symbol_map_insert_Inr)
next
  case None
  let ?m = "\<lparr>vs_venue_id = v, vs_symbol = symb\<rparr>" and ?entry = "unwrap_or (sm_reverse sm i) []"
  have new: "?m \<notin> set l" if "sm_reverse sm j = Some l" for j l
    using assms(1) None that by (force simp: symbols_agree_def)
  then have "?m \<notin> set ?entry" by (auto simp: unwrap_or_member)
  then have sm': "sm' = sm\<lparr>sm_forward := (sm_forward sm)((v, symb) \<mapsto> i),
      sm_reverse := (sm_reverse sm)(i \<mapsto> ?entry @ [?m])\<rparr>"
    using assms(2) None by (auto simp: symbol_map_insert_Inr Let_def)
  have "distinct (?entry @ [?m])"
    using assms(1) \<open>?m \<notin> set ?entry\<close>
    by (cases "sm_reverse sm i") (auto simp: unwrap_or_def symbols_agree_def)
  moreover have "(if w = v \<and> t = symb then Some i else sm_forward sm (w, t)) = Some j \<longleftrightarrow>
      (\<exists>l. ((sm_reverse sm)(i \<mapsto> ?entry @ [?m])) j = Some l \<and>
           \<lparr>vs_venue_id = w, vs_symbol = t\<rparr> \<in> set l)" for w t j
    using assms(1) new unfolding symbols_agree_def
    by (cases "w = v \<and> t = symb"; cases "j = i") (auto simp: unwrap_or_member)
  ultimately show ?thesis
    using assms(1) unfolding sm' symbols_agree_def by (auto split: if_splits)
qed

lemma reachable_agrees: "reachable_symbols sm \<Longrightarrow> symbols_agree sm"
proof (induction rule: reachable_symbols.induct)
  case empty_symbols
  show ?case by (simp add: symbols_agree_def symbol_map_default_def)
qed (rule insert_agrees)

subsection \<open>Drafting\<close>

lemma validate_signal_Inr:
  "validate_signal sg = Inr u \<longleftrightarrow>
   0 \<le> sig_conviction sg \<and> sig_conviction sg \<le> 1 \<and> 0 < sig_stop_loss sg \<and>
   \<not> trim_is_empty (sig_thesis sg) \<and> (\<forall>h \<in> set_option (sig_sizing_hint sg). 0 < h \<and> sig_conviction sg \<noteq> 0)"
  by (auto simp: validate_signal_def split: option.split)

lemma validate_exit_targets_Inr:
  "validate_exit_targets sg p = Inr u \<longleftrightarrow>
   exits_ok (sig_direction sg) p (sig_stop_loss sg) (sig_take_profit sg)"
  by (auto simp: validate_exit_targets_def exits_ok_def Let_def split: option.split side.split)

lemma reference_price_for_Inr:
  "reference_price_for br sg prices = Inr p \<longleftrightarrow>
   (\<exists>snap. latest_price prices (sig_instrument sg) = Some snap \<and>
      \<not> is_stale prices (sig_instrument sg) (bc_max_price_age (br_config br)) \<and>
      p = quoted (sig_direction sg) snap \<and> 0 < p)"
  by (auto simp: reference_price_for_def quoted_def Let_def split: option.split side.split)

lemma size_signal_positive: "size_signal X sg cap p = Some (Inr qty) \<Longrightarrow> 0 < qty"
  by (auto simp: size_signal_def try_then_Inr split: if_splits)

lemma size_signal_cases:
  assumes "size_signal X sg cap p = Some (Inr qty)"
  obtains (hinted) h where "sig_sizing_hint sg = Some h" "h \<le> cap" "dec_div X h p = Some qty"
  | (conviction) d b where "sig_sizing_hint sg = None" "dec_sub X p (sig_stop_loss sg) = Some d"
      "d \<noteq> 0" "dec_mul X (sig_conviction sg) cap = Some b" "dec_div X b \<bar>d\<bar> = Some qty"
  using assms by (cases "sig_sizing_hint sg")
    (auto simp: size_signal_def try_then_Inr bind_Some_iff Let_def split: if_splits)

lemma map_filter_mem: "y \<in> set (List.map_filter f xs) \<longleftrightarrow> (\<exists>x \<in> set xs. f x = Some y)"
  by (induction xs) (auto simp: map_filter_simps split: option.split)

lemma eligible_state_Some:
  "eligible_state vs sts m = Some p \<longleftrightarrow>
   (\<exists>st. p = (m, st) \<and> List.find (\<lambda>c. vr_venue_id c = vs_venue_id m) sts = Some st \<and>
      (case vs of None \<Rightarrow> True | Some vs \<Rightarrow> vs_venue_id m \<in> set vs) \<and>
      vh_state (vr_connection_health st) = Connected)"
  by (auto simp: eligible_state_def is_submittable_iff list_ex_iff split: option.splits if_splits)

lemma candidates_mem: "(m, st) \<in> set (candidates br sg limits sts) \<longleftrightarrow> routable br sg limits sts m st"
  by (cases limits; cases "venues_for (br_symbol_map br) (sig_instrument sg)")
    (auto simp: candidates_def routable_def map_filter_mem eligible_state_Some unwrap_or_def
      split: option.splits)

lemma select_venue_spec:
  "case select_venue br sg limits sts of
     Inl e \<Rightarrow> candidates br sg limits sts = []
   | Inr m \<Rightarrow> candidates br sg limits sts \<noteq> [] \<and>
       (case bc_routing_policy (br_config br) of
          FirstListed \<Rightarrow> m = fst (hd (candidates br sg limits sts))
        | HighestAvailableBalance \<Rightarrow> \<exists>st.
            max_by (\<lambda>p. vr_available_balance (snd p)) (candidates br sg limits sts) = Some (m, st))"
  by (auto simp: select_venue_def candidates_def Let_def list_ex_iff unwrap_or_def map_filter_simps
      split: option.splits signal_routing_policy.splits)

lemma select_venue_routable:
  assumes "select_venue br sg limits sts = Inr m"
  shows "\<exists>st. routable br sg limits sts m st"
proof -
  have sel: "candidates br sg limits sts \<noteq> []"
    using select_venue_spec [of br sg limits sts] assms by simp
  have "\<exists>st. (m, st) \<in> set (candidates br sg limits sts)"
  proof (cases "bc_routing_policy (br_config br)")
    case FirstListed
    then have "m = fst (hd (candidates br sg limits sts))"
      using select_venue_spec [of br sg limits sts] assms by simp
    with hd_in_set [OF sel] show ?thesis by (metis prod.collapse)
  next
    case HighestAvailableBalance
    then show ?thesis
      using select_venue_spec [of br sg limits sts] assms by (auto dest: max_by_Some(1))
  qed
  then show ?thesis by (simp add: candidates_mem)
qed

lemma signal_to_orders_Inr:
  assumes "signal_to_orders X br sg fb limits prices sts now = Some (Inr orders)"
  obtains (idle) alloc where "validate_signal sg = Inr ()"
      "fb_agent_allocations fb (sig_agent sg) = Some alloc" "aa_status alloc = AgentActive"
      "sig_conviction sg = 0" "orders = []"
  | (drafted) alloc p qty m core where "validate_signal sg = Inr ()"
      "fb_agent_allocations fb (sig_agent sg) = Some alloc" "aa_status alloc = AgentActive"
      "sig_conviction sg \<noteq> 0" "reference_price_for br sg prices = Inr p"
      "exits_ok (sig_direction sg) p (sig_stop_loss sg) (sig_take_profit sg)"
      "size_signal X sg (aa_allocated_capital alloc) p = Some (Inr qty)"
      "select_venue br sg limits sts = Inr m" "orders = [pipeline_new core]"
      "oc_id core = order_id_for_signal (sig_id sg)" "oc_agent_id core = sig_agent sg"
      "oc_instrument_id core = sig_instrument sg" "oc_side core = sig_direction sg"
      "oc_market_id core = MarketId (vs_symbol m)" "oc_venue_id core = vs_venue_id m"
      "oc_qty core = qty" "oc_price core = Some p" "oc_stop_loss core = Some (sig_stop_loss sg)"
      "oc_take_profit core = sig_take_profit sg" "oc_dry_run core = bc_dry_run (br_config br)"
  using assms unfolding signal_to_orders_def
  by (auto simp: try_then_Inr validate_exit_targets_Inr split: option.splits if_splits)

lemma example_drafts:
  "\<exists>core. signal_to_orders ideal_ext (bridge_new bridge_config_default example_symbols)
     example_signal example_signal_book None example_prices [example_route] 0 =
       Some (Inr [pipeline_new core]) \<and> oc_price core = Some 10000"
proof -
  let ?br = "bridge_new bridge_config_default example_symbols" and ?sg = example_signal
  have thesis_ok: "\<not> trim_is_empty (sig_thesis ?sg)"
    by (simp add: example_signal_def) (subst trim_is_empty.simps, simp split: list.split)
  have "validate_signal ?sg = Inr ()"
    using thesis_ok by (simp add: validate_signal_Inr) (simp add: example_signal_def)
  moreover have "reference_price_for ?br ?sg example_prices = Inr 10000"
    by (simp add: reference_price_for_Inr quoted_def example_prices_def example_signal_def)
  moreover have "validate_exit_targets ?sg 10000 = Inr ()"
    by (simp add: validate_exit_targets_Inr exits_ok_def example_signal_def)
  moreover have "size_signal ideal_ext ?sg 20000 10000 = Some (Inr 100)"
    by (simp add: size_signal_def example_signal_def)
  moreover have "select_venue ?br ?sg None [example_route] =
      Inr \<lparr>vs_venue_id = VenueId ''bybit'', vs_symbol = ''BTCUSDT''\<rparr>"
    by (simp add: select_venue_def venues_for_def eligible_state_def map_filter_simps vr_venue_id_def
      bridge_new_def bridge_config_default_def example_symbols_def example_signal_def
      example_route_def venue_health_new_def is_submittable_def)
  ultimately show ?thesis
    by (simp add: signal_to_orders_def example_signal_book_def example_signal_def)
      (intro exI conjI, rule refl, simp)
qed

subsection \<open>Properties\<close>

text \<open>
  In every symbol map built by insertions the two directions agree: a symbol of a venue maps
  to an instrument exactly when it is among the listings of that instrument, which are free of
  duplicates. An insertion fails exactly when the symbol is mapped to another instrument;
  otherwise it maps that symbol, changes no other mapping, and the map still agrees.
\<close>

theorem symbol_map_consistent:
  assumes "reachable_symbols sm"
  shows "(instrument_for sm w t = Some j \<longleftrightarrow>
      (\<exists>l. venues_for sm j = Some l \<and> \<lparr>vs_venue_id = w, vs_symbol = t\<rparr> \<in> set l \<and> distinct l)) \<and>
    (case symbol_map_insert sm v symb i of
       Inl e \<Rightarrow> \<exists>k. k \<noteq> i \<and> instrument_for sm v symb = Some k
     | Inr sm' \<Rightarrow> instrument_for sm' w t =
         (if w = v \<and> t = symb then Some i else instrument_for sm w t) \<and> symbols_agree sm')"
proof
  show "instrument_for sm w t = Some j \<longleftrightarrow>
      (\<exists>l. venues_for sm j = Some l \<and> \<lparr>vs_venue_id = w, vs_symbol = t\<rparr> \<in> set l \<and> distinct l)"
    using reachable_agrees [OF assms] by (auto simp: symbols_agree_def instrument_for_def venues_for_def)
next
  show "case symbol_map_insert sm v symb i of
       Inl e \<Rightarrow> \<exists>k. k \<noteq> i \<and> instrument_for sm v symb = Some k
     | Inr sm' \<Rightarrow> instrument_for sm' w t =
         (if w = v \<and> t = symb then Some i else instrument_for sm w t) \<and> symbols_agree sm'"
  proof (cases "symbol_map_insert sm v symb i")
    case (Inl e)
    then show ?thesis
      by (auto simp: symbol_map_insert_def instrument_for_def Let_def split: option.splits if_splits)
  next
    case (Inr sm')
    have "instrument_for sm' w t = (if w = v \<and> t = symb then Some i else instrument_for sm w t)"
      using Inr by (auto simp: symbol_map_insert_Inr instrument_for_def Let_def)
    with insert_agrees [OF reachable_agrees [OF assms] Inr] Inr show ?thesis by simp
  qed
qed

theorem symbol_map_consistent_witness:
  "reachable_symbols example_symbols \<and>
   instrument_for example_symbols (VenueId ''bybit'') ''BTCUSDT'' = Some (InstrumentId ''BTC'')"
proof -
  have "symbol_map_insert symbol_map_default (VenueId ''bybit'') ''BTCUSDT'' (InstrumentId ''BTC'') =
      Inr example_symbols"
    by (simp add: symbol_map_insert_def symbol_map_default_def example_symbols_def unwrap_or_def)
  then have r: "reachable_symbols example_symbols" by (rule insert_symbol [OF empty_symbols])
  from symbol_map_consistent [OF r, of "VenueId ''bybit''" "''BTCUSDT''" "InstrumentId ''BTC''"] r
  show ?thesis by (simp add: venues_for_def example_symbols_def)
qed

text \<open>
  C25: A signal becomes an order only for an active agent, at a fresh and positive quote. A signal
  without conviction gives no order. Otherwise there is exactly one draft, for the agent,
  instrument and direction of the signal, with a positive quantity, priced at the ask for a buy
  and at the bid for a sell, with its stop on the losing and its target on the winning side of
  that price, and sent to a venue that lists the instrument under the order's market, is
  connected and is allowed by the agent's limits.
\<close>

theorem signal_drafts_well_formed:
  assumes "signal_to_orders X br sg fb limits prices sts now = Some (Inr orders)"
  shows "(\<exists>alloc. fb_agent_allocations fb (sig_agent sg) = Some alloc \<and> aa_status alloc = AgentActive) \<and>
    (if sig_conviction sg = 0 then orders = []
     else \<exists>core snap m st. orders = [pipeline_new core] \<and>
       oc_agent_id core = sig_agent sg \<and> oc_instrument_id core = sig_instrument sg \<and>
       oc_side core = sig_direction sg \<and> oc_dry_run core = bc_dry_run (br_config br) \<and>
       0 < oc_qty core \<and>
       latest_price prices (sig_instrument sg) = Some snap \<and>
       \<not> is_stale prices (sig_instrument sg) (bc_max_price_age (br_config br)) \<and>
       oc_price core = Some (quoted (sig_direction sg) snap) \<and> 0 < quoted (sig_direction sg) snap \<and>
       oc_stop_loss core = Some (sig_stop_loss sg) \<and> oc_take_profit core = sig_take_profit sg \<and>
       exits_ok (oc_side core) (quoted (sig_direction sg) snap) (sig_stop_loss sg) (oc_take_profit core) \<and>
       oc_venue_id core = vs_venue_id m \<and> oc_market_id core = MarketId (vs_symbol m) \<and>
       routable br sg limits sts m st)"
  using assms
proof (cases rule: signal_to_orders_Inr)
  case (drafted alloc p qty m core)
  obtain snap where snap: "latest_price prices (sig_instrument sg) = Some snap"
      "\<not> is_stale prices (sig_instrument sg) (bc_max_price_age (br_config br))"
      "p = quoted (sig_direction sg) snap" "0 < p"
    using drafted(5) by (auto simp: reference_price_for_Inr)
  obtain st where st: "routable br sg limits sts m st"
    using select_venue_routable [OF drafted(8)] by blast
  note size = size_signal_positive [OF drafted(7)]
  show ?thesis unfolding if_not_P [OF drafted(4)]
    by (intro conjI exI [of _ alloc] exI [of _ core] exI [of _ snap] exI [of _ m] exI [of _ st])
      (use drafted snap st size in simp_all)
qed simp

theorem signal_drafts_well_formed_witness:
  "\<exists>orders. signal_to_orders ideal_ext (bridge_new bridge_config_default example_symbols)
     example_signal example_signal_book None example_prices [example_route] 0 = Some (Inr orders) \<and>
   length orders = 1"
proof -
  obtain core where o: "signal_to_orders ideal_ext (bridge_new bridge_config_default example_symbols)
     example_signal example_signal_book None example_prices [example_route] 0 =
       Some (Inr [pipeline_new core])"
    using example_drafts by blast
  from signal_drafts_well_formed [OF o] o show ?thesis by (auto simp: example_signal_def)
qed

text \<open>
  C26: The size of a draft is positive. With a sizing hint the order is worth the hint, which is at
  most the agent's allocated capital; without one the loss at the stop is the conviction times
  the allocated capital, hence at most that capital, while the notional has no bound of its own. Both
  hold up to the rounding error \<open>e\<close> of one division with a quotient of at most \<open>m\<close>.
\<close>

theorem signal_size_bounded:
  assumes "signal_to_orders X br sg fb limits prices sts now = Some (Inr [ord])"
    and "fb_agent_allocations fb (sig_agent sg) = Some alloc"
    and "oc_price (po_core ord) = Some p"
    and "exact_arith X" and "div_within X m e"
    and "representable p" and "representable (sig_stop_loss sg)"
    and "representable (p - sig_stop_loss sg)" and "representable (sig_conviction sg)"
    and "representable (aa_allocated_capital alloc)"
    and "representable (sig_conviction sg * aa_allocated_capital alloc)"
    and "0 \<le> aa_allocated_capital alloc"
    and "aa_allocated_capital alloc \<le> m * p" and "aa_allocated_capital alloc \<le> m * \<bar>p - sig_stop_loss sg\<bar>"
  shows "0 < oc_qty (po_core ord) \<and> (case sig_sizing_hint sg of
      Some h \<Rightarrow> h \<le> aa_allocated_capital alloc \<and> \<bar>oc_qty (po_core ord) * p - h\<bar> \<le> e * p
    | None \<Rightarrow> (let d = \<bar>p - sig_stop_loss sg\<bar> in
        \<bar>oc_qty (po_core ord) * d - sig_conviction sg * aa_allocated_capital alloc\<bar> \<le> e * d \<and>
        oc_qty (po_core ord) * d \<le> aa_allocated_capital alloc + e * d))"
proof -
  have scaled: "\<bar>q * b - a\<bar> \<le> e * b" if "dec_div X a b = Some q" "0 < b" "0 \<le> a" "a \<le> m * b"
    for a b q :: decimal
  proof -
    have "\<bar>a / b\<bar> \<le> m" using that(2-4) by (simp add: divide_le_eq)
    then have "\<bar>q - a / b\<bar> \<le> e" using assms(5) that by (auto simp: div_within_def)
    then have "\<bar>q - a / b\<bar> * b \<le> e * b" using that(2) by simp
    moreover have "\<bar>q - a / b\<bar> * b = \<bar>q * b - a\<bar>"
      using that(2) by (simp add: abs_mult_pos left_diff_distrib)
    ultimately show ?thesis by simp
  qed
  from assms(1) show ?thesis
  proof (cases rule: signal_to_orders_Inr)
    case (drafted alloc' p' qty sy core)
    then have eqs: "alloc' = alloc" "p' = p" "oc_qty (po_core ord) = qty" and "0 < p"
      using assms(2,3) by (auto simp: pipeline_new_def reference_price_for_Inr)
    have pos: "0 < qty" by (rule size_signal_positive [OF drafted(7)])
    from drafted(7) [unfolded eqs] show ?thesis
    proof (cases rule: size_signal_cases)
      case (hinted h)
      moreover have "0 \<le> h" using drafted(1) hinted(1) by (simp add: validate_signal_Inr)
      moreover have "h \<le> m * p" using hinted(2) assms(13) by linarith
      ultimately show ?thesis using scaled [OF hinted(3)] \<open>0 < p\<close> pos by (simp add: eqs(3))
    next
      case (conviction d b)
      have db: "d = p - sig_stop_loss sg" "b = sig_conviction sg * aa_allocated_capital alloc"
        using conviction(2,4) exact_arithD [OF assms(4)] assms(6-11) by auto
      have "sig_conviction sg * aa_allocated_capital alloc \<le> aa_allocated_capital alloc"
        using drafted(1) assms(12) by (simp add: validate_signal_Inr mult_left_le_one_le)
      moreover have "0 \<le> b" unfolding db using drafted(1) assms(12) by (simp add: validate_signal_Inr)
      moreover have "b \<le> m * \<bar>d\<bar>" using calculation(1) assms(14) unfolding db by linarith
      ultimately have "\<bar>qty * \<bar>d\<bar> - b\<bar> \<le> e * \<bar>d\<bar>" "b \<le> aa_allocated_capital alloc"
        using scaled [OF conviction(5)] conviction(3) unfolding db by simp_all
      then show ?thesis using conviction(1) pos by (auto simp: db Let_def eqs(3) abs_le_iff)
    qed
  qed simp
qed


theorem signal_size_bounded_witness:
  "\<exists>core. signal_to_orders ideal_ext (bridge_new bridge_config_default example_symbols)
     example_signal example_signal_book None example_prices [example_route] 0 =
       Some (Inr [pipeline_new core]) \<and> 0 < oc_qty core \<and> oc_qty core * 100 \<le> 20000"
proof -
  obtain core where o: "signal_to_orders ideal_ext (bridge_new bridge_config_default example_symbols)
     example_signal example_signal_book None example_prices [example_route] 0 =
       Some (Inr [pipeline_new core])" "oc_price (po_core (pipeline_new core)) = Some 10000"
    using example_drafts by (auto simp: pipeline_new_def)
  have "fb_agent_allocations example_signal_book (sig_agent example_signal) =
      Some \<lparr>aa_allocated_capital = 20000, aa_used_capital = 0, aa_free_capital = 20000,
        aa_realized_pnl = 0, aa_unrealized_pnl = 0, aa_current_drawdown = 0,
        aa_max_drawdown_limit = 15 / 100, aa_status = AgentActive\<rparr>"
    by (simp add: example_signal_book_def example_signal_def)
  from signal_size_bounded [OF o(1) this o(2) ideal_ext_exact div_within_ideal [of 1000]] o(1) show ?thesis
    by (simp add: example_signal_def representable_numeral representable_half pipeline_new_def)
qed

end
