(* ===== verification/Fill_Simulator.thy ===== *)
theory Fill_Simulator
  imports Signal_Bridge
begin

text \<open>
  Paper-mode fill simulation against order book depth (\<open>gateway/src/lib.rs\<close>,
  \<open>LiveOrderbookFillSimulator\<close>): the walk over the levels of one side, the averaging of the price
  and the quality diagnostics. The fee model is an interface of the program (the trait
  \<open>FeeModel\<close>) without an implementation in the sources, hence a parameter. The lemmas show
  that the walk computes the greedy execution, that this execution is the best possible one
  within the order's limit, and that it satisfies the contract on which the paper adapter
  relies.
\<close>

subsection \<open>Displayed errors\<close>

fun market_data_error_display :: "market_data_error \<Rightarrow> msg" where
  "market_data_error_display (NonPositivePrice sd level price) =
     [PStr ''non-positive price on '', PStr sd, PStr '' side at level '', PInt (int level), PStr '': '',
      PDec price]"
| "market_data_error_display (NonPositiveQty sd level qty) =
     [PStr ''non-positive quantity on '', PStr sd, PStr '' side at level '', PInt (int level),
      PStr '': '', PDec qty]"
| "market_data_error_display (BidsUnsorted level previous current) =
     [PStr ''bids must be sorted descending; level '', PInt (int level), PStr '' is '', PDec current,
      PStr '' after '', PDec previous]"
| "market_data_error_display (AsksUnsorted level previous current) =
     [PStr ''asks must be sorted ascending; level '', PInt (int level), PStr '' is '', PDec current,
      PStr '' after '', PDec previous]"
| "market_data_error_display (CrossedBook bid ask) =
     [PStr ''crossed book: best bid '', PDec bid, PStr '' > best ask '', PDec ask]"

fun fee_error_display :: "fee_error \<Rightarrow> msg" where
  "fee_error_display (NoSchedule v) = [PStr ''no fee schedule for venue '', PStr (venue_id_str v)]"
| "fee_error_display (NoInstrumentSchedule i v) =
     [PStr ''no fee schedule for instrument '', PStr (instrument_id_str i), PStr '' on venue '',
      PStr (venue_id_str v)]"
| "fee_error_display (FeeCalculation r) = PStr ''fee calculation failed: '' # r"

text \<open>The operations of the trait \<open>FeeModel\<close> that read the model.\<close>

record fee_model =
  fm_estimate :: "order_core \<Rightarrow> fee_error + fee_estimate"
  fm_calculate :: "fill \<Rightarrow> fee_error + fee"
  fm_schedule :: "venue_id \<Rightarrow> fee_error + fee_schedule"

subsection \<open>Simulated fills\<close>

record simulated_fill =
  sf_fill :: fill
  sf_remaining_qty :: decimal
  sf_slippage_bps :: decimal
  sf_market_impact_bps :: decimal

definition is_complete :: "simulated_fill \<Rightarrow> bool" where
  "is_complete sf \<longleftrightarrow> sf_remaining_qty sf = 0"

datatype fill_simulation_outcome = Resting | Executed simulated_fill

type_synonym fill_simulator =
  "order_core \<Rightarrow> venue_order_id \<Rightarrow> orderbook_snapshot \<Rightarrow> fee_model \<Rightarrow> fill_simulation_outcome gw_result"

fun is_level_fillable :: "side \<Rightarrow> decimal option \<Rightarrow> decimal \<Rightarrow> bool" where
  "is_level_fillable sd None level_price \<longleftrightarrow> True"
| "is_level_fillable Buy (Some limit) level_price \<longleftrightarrow> level_price \<le> limit"
| "is_level_fillable Sell (Some limit) level_price \<longleftrightarrow> limit \<le> level_price"

definition basis_points_delta :: "ext \<Rightarrow> decimal \<Rightarrow> decimal \<Rightarrow> decimal option" where
  "basis_points_delta X actual reference =
     (if reference = 0 then Some 0
      else do {
        d \<leftarrow> dec_sub X actual reference;
        r \<leftarrow> dec_div X \<bar>d\<bar> reference;
        dec_mul X r 10000 })"

text \<open>The variables of the loop over the levels.\<close>

record walk =
  wk_remaining_qty :: decimal
  wk_executed_qty :: decimal
  wk_executed_notional :: decimal
  wk_worst_price :: "decimal option"

fun walk_levels ::
  "ext \<Rightarrow> side \<Rightarrow> decimal option \<Rightarrow> price_level list \<Rightarrow> walk \<Rightarrow> walk option"
where
  "walk_levels X sd price_limit [] w = Some w"
| "walk_levels X sd price_limit (level # levels) w =
     (if \<not> is_level_fillable sd price_limit (pl_price level) then Some w
      else do {
        let level_fill_qty = (if wk_remaining_qty w < pl_qty level then wk_remaining_qty w
                              else pl_qty level);
        executed_qty \<leftarrow> dec_add X (wk_executed_qty w) level_fill_qty;
        notional \<leftarrow> dec_mul X level_fill_qty (pl_price level);
        executed_notional \<leftarrow> dec_add X (wk_executed_notional w) notional;
        remaining_qty \<leftarrow> dec_sub X (wk_remaining_qty w) level_fill_qty;
        let w' = \<lparr>wk_remaining_qty = remaining_qty, wk_executed_qty = executed_qty,
                  wk_executed_notional = executed_notional,
                  wk_worst_price = Some (pl_price level)\<rparr>;
        if remaining_qty \<le> 0 then Some (w'\<lparr>wk_remaining_qty := 0\<rparr>)
        else walk_levels X sd price_limit levels w' })"

text \<open>The end of \<open>simulate\<close>, after the loop.\<close>

definition settle_walk ::
  "ext \<Rightarrow> order_core \<Rightarrow> venue_order_id \<Rightarrow> orderbook_snapshot \<Rightarrow> fee_model \<Rightarrow> decimal \<Rightarrow> walk \<Rightarrow>
   fill_simulation_outcome gw_result"
where
  "settle_walk X order v book fm top_of_book w =
     (if wk_executed_qty w = 0 then Some (Inr Resting)
      else do {
        average_price \<leftarrow> dec_div X (wk_executed_notional w) (wk_executed_qty w);
        let fill = \<lparr>fi_order_id = oc_id order, fi_venue_order_id = v,
          fi_instrument_id = oc_instrument_id order, fi_side = oc_side order,
          fi_qty = wk_executed_qty w, fi_price = average_price, fi_fee = 0,
          fi_filled_at = ob_received_at book, fi_is_maker = False\<rparr>;
        (case fm_calculate fm fill of
           Inl err \<Rightarrow> Some (Inl (GwValidation (fee_error_display err)))
         | Inr fee \<Rightarrow> do {
             slippage_bps \<leftarrow> basis_points_delta X average_price top_of_book;
             market_impact_bps \<leftarrow>
               basis_points_delta X (unwrap_or (wk_worst_price w) top_of_book) top_of_book;
             Some (Inr (Executed \<lparr>sf_fill = fill\<lparr>fi_fee := fe_net fee\<rparr>,
               sf_remaining_qty = wk_remaining_qty w, sf_slippage_bps = slippage_bps,
               sf_market_impact_bps = market_impact_bps\<rparr>)) }) })"

definition simulate :: "ext \<Rightarrow> fill_simulator" where
  "simulate X order v book fm =
     (if oc_qty order \<le> 0 then Some (Inl (GwValidation (lit ''order quantity must be positive'')))
      else if oc_venue_id order \<noteq> ob_venue_id book
      then Some (Inl (GwValidation [PStr ''order venue '', PStr (venue_id_str (oc_venue_id order)),
             PStr '' does not match orderbook venue '', PStr (venue_id_str (ob_venue_id book))]))
      else if oc_instrument_id order \<noteq> ob_instrument_id book
      then Some (Inl (GwValidation
             [PStr ''order instrument '', PStr (instrument_id_str (oc_instrument_id order)),
              PStr '' does not match orderbook instrument '',
              PStr (instrument_id_str (ob_instrument_id book))]))
      else
        try_then (Some (case validate_book book of
            Inl err \<Rightarrow> Inl (GwValidation (market_data_error_display err)) | Inr _ \<Rightarrow> Inr ())) (\<lambda>_.
        try_then (Some (case oc_order_type order of
            Market \<Rightarrow> Inr None
          | Limit \<Rightarrow> (case oc_price order of
              None \<Rightarrow> Inl (GwValidation (lit ''limit order missing price''))
            | Some p \<Rightarrow> Inr (Some p))
          | _ \<Rightarrow> Inl (GwUnsupported
              [PStr ''paper adapter only simulates market and limit orders, got '',
               PStr (order_type_display (oc_order_type order))]))) (\<lambda>price_limit.
        try_then (Some (case (case oc_side order of
              Buy \<Rightarrow> (ob_asks book, best_ask book) | Sell \<Rightarrow> (ob_bids book, best_bid book)) of
            (levels, None) \<Rightarrow> Inl (GwPriceUnavailable (instrument_id_str (oc_instrument_id order)))
          | (levels, Some best) \<Rightarrow> Inr (levels, pl_price best))) (\<lambda>(levels, top_of_book). do {
        w \<leftarrow> walk_levels X (oc_side order) price_limit levels
          \<lparr>wk_remaining_qty = oc_qty order, wk_executed_qty = 0, wk_executed_notional = 0,
           wk_worst_price = None\<rparr>;
        settle_walk X order v book fm top_of_book w }))))"

subsection \<open>Specification\<close>

definition side_levels :: "side \<Rightarrow> orderbook_snapshot \<Rightarrow> price_level list" where
  "side_levels sd book = (case sd of Buy \<Rightarrow> ob_asks book | Sell \<Rightarrow> ob_bids book)"

definition limit_of :: "order_core \<Rightarrow> decimal option" where
  "limit_of order = (if oc_order_type order = Limit then oc_price order else None)"

text \<open>The levels the order may trade with, best price first.\<close>

definition fillable :: "order_core \<Rightarrow> orderbook_snapshot \<Rightarrow> price_level list" where
  "fillable order book =
     takeWhile (\<lambda>l. is_level_fillable (oc_side order) (limit_of order) (pl_price l))
       (side_levels (oc_side order) book)"

definition depth :: "price_level list \<Rightarrow> decimal" where
  "depth ls = (\<Sum>l\<leftarrow>ls. pl_qty l)"

text \<open>The value of the first \<open>q\<close> units of the levels, and the levels they come from.\<close>

fun depth_cost :: "decimal \<Rightarrow> price_level list \<Rightarrow> decimal" where
  "depth_cost q [] = 0"
| "depth_cost q (l # ls) = min q (pl_qty l) * pl_price l + depth_cost (q - min q (pl_qty l)) ls"

fun touched :: "decimal \<Rightarrow> price_level list \<Rightarrow> price_level list" where
  "touched q [] = []"
| "touched q (l # ls) = l # (if q \<le> pl_qty l then [] else touched (q - pl_qty l) ls)"

text \<open>Quantities on a lot grid and prices on a tick grid, small enough for exact products.\<close>

definition book_on_grid :: "nat \<Rightarrow> int \<Rightarrow> nat \<Rightarrow> int \<Rightarrow> orderbook_snapshot \<Rightarrow> bool" where
  "book_on_grid s A t P book \<longleftrightarrow>
     s + t \<le> 28 \<and> A < 2 ^ 96 \<and> P < 2 ^ 96 \<and> A * P < 2 ^ 96 \<and>
     (\<forall>l \<in> set (ob_bids book) \<union> set (ob_asks book). on_grid s A (pl_qty l) \<and> on_grid t P (pl_price l))"

definition on_book_grid :: "nat \<Rightarrow> int \<Rightarrow> nat \<Rightarrow> int \<Rightarrow> order_core \<Rightarrow> orderbook_snapshot \<Rightarrow> bool" where
  "on_book_grid s A t P order book \<longleftrightarrow> on_grid s A (oc_qty order) \<and> book_on_grid s A t P book"

text \<open>Quantities in whole lots for which addition and subtraction are exact.\<close>

definition lots :: "ext \<Rightarrow> nat \<Rightarrow> int \<Rightarrow> decimal \<Rightarrow> bool" where
  "lots X s A q \<longleftrightarrow> exact_arith X \<and> s \<le> 28 \<and> A < 2 ^ 96 \<and> on_grid s A q \<and> 0 \<le> q"

text \<open>An allocation of a quantity to levels, and what it trades for.\<close>

definition allocates :: "decimal \<Rightarrow> price_level list \<Rightarrow> decimal list \<Rightarrow> bool" where
  "allocates q ls xs \<longleftrightarrow> list_all2 (\<lambda>x l. 0 \<le> x \<and> x \<le> pl_qty l) xs ls \<and> sum_list xs = q"

definition allocation_value :: "decimal list \<Rightarrow> price_level list \<Rightarrow> decimal" where
  "allocation_value xs ls = (\<Sum>(x, l)\<leftarrow>zip xs ls. x * pl_price l)"

text \<open>Reversing the sign of all prices turns a sale into a purchase.\<close>

definition mirrored :: "price_level list \<Rightarrow> price_level list" where
  "mirrored ls = map (\<lambda>l. l\<lparr>pl_price := - pl_price l\<rparr>) ls"

definition zero_fee_model :: fee_model where
  "zero_fee_model = \<lparr>fm_estimate = (\<lambda>_. Inr \<lparr>fe_as_maker = 0, fe_as_taker = 0, fe_worst_case = 0,
       fe_gas_estimate = 0\<rparr>),
     fm_calculate = (\<lambda>_. Inr \<lparr>fe_trading_fee = 0, fe_gas_fee = 0, fe_rebate = 0, fe_funding_fee = 0,
       fe_net = 0\<rparr>),
     fm_schedule = (\<lambda>v. Inl (NoSchedule v))\<rparr>"

definition example_paper_order :: order_core where
  "example_paper_order = \<lparr>oc_id = OrderId ''ord-paper-1'', oc_basket_id = None,
     oc_agent_id = AgentId ''athena'', oc_instrument_id = InstrumentId ''BTC'',
     oc_market_id = MarketId ''BTCUSDT'', oc_venue_id = VenueId ''paper'', oc_side = Buy,
     oc_order_type = Limit, oc_time_in_force = GTC, oc_qty = 2, oc_price = Some 10010,
     oc_trigger_price = None, oc_stop_loss = None, oc_take_profit = None, oc_post_only = False,
     oc_reduce_only = False, oc_dry_run = True, oc_exec_hint = exec_hint_default,
     oc_created_at = 0\<rparr>"

subsection \<open>The walk over the levels\<close>

lemma depth_cost_zero: "\<forall>l \<in> set ls. 0 < pl_qty l \<Longrightarrow> depth_cost 0 ls = 0"
  by (induction ls) (auto simp: min_def)

lemma depth_nonneg: "\<forall>l \<in> set ls. 0 < pl_qty l \<Longrightarrow> 0 \<le> depth ls"
  by (induction ls) (auto simp: depth_def)

lemma touched_Nil [simp]: "touched q ls = [] \<longleftrightarrow> ls = []"
  by (cases ls) simp_all

lemma on_grid_upper: "on_grid t P x \<Longrightarrow> \<bar>x\<bar> \<le> of_int P / 10 ^ t"
  by (auto elim!: on_gridE simp: divide_le_cancel simp flip: of_int_abs)

lemma on_grid_bound: "on_grid t P x \<Longrightarrow> on_grid t P (of_int P / 10 ^ t)"
  by (auto elim!: on_gridE intro!: on_gridI [where k = P])

lemma walk_step:
  assumes "exact_arith X" and "s + t \<le> 28" and "A < 2 ^ 96" and "P < 2 ^ 96" and "A * P < 2 ^ 96"
    and "on_grid s A f" and "0 < f" and "f \<le> rem" and "on_grid t P p" and "0 < p"
    and "on_grid s A rem" and "0 \<le> ex" and "on_grid s A ex" and "on_grid s A (rem + ex)"
    and "0 \<le> nt" and "nt \<le> ex * (of_int P / 10 ^ t)" and "on_grid (s + t) (A * P) nt"
  shows "dec_add X ex f = Some (ex + f)" and "dec_mul X f p = Some (f * p)"
    and "dec_add X nt (f * p) = Some (nt + f * p)" and "dec_sub X rem f = Some (rem - f)"
    and "on_grid s A (ex + f)" and "on_grid s A (rem - f)" and "on_grid (s + t) (A * P) (nt + f * p)"
    and "nt + f * p \<le> (ex + f) * (of_int P / 10 ^ t)"
proof -
  have "f * p \<le> f * (of_int P / 10 ^ t)"
    using on_grid_upper [OF assms(9)] assms(7,10) by (intro mult_left_mono) auto
  then show le: "nt + f * p \<le> (ex + f) * (of_int P / 10 ^ t)"
    using assms(16) by (simp only: distrib_right)
  show ex: "on_grid s A (ex + f)"
    by (rule on_grid_le [OF on_grid_add [OF assms(13,6)] _ assms(14)]) (use assms(7,8,12) in auto)
  show rem: "on_grid s A (rem - f)"
    by (rule on_grid_le [OF on_grid_diff [OF assms(11,6)] _ assms(11)]) (use assms(7,8) in auto)
  have fp: "on_grid (s + t) (A * P) (f * p)" by (rule on_grid_mult [OF assms(6,9)])
  have "0 < f * p" using assms(7,10) by simp
  with assms(15) have pos: "0 \<le> nt + f * p" by linarith
  have y: "on_grid (s + t) (A * P) ((ex + f) * (of_int P / 10 ^ t))"
    by (rule on_grid_mult [OF ex on_grid_bound [OF assms(9)]])
  show nt: "on_grid (s + t) (A * P) (nt + f * p)"
    by (rule on_grid_le [OF on_grid_add [OF assms(17) fp] _ y])
      (use le pos in \<open>simp only: abs_of_nonneg [OF pos] abs_of_nonneg [OF order_trans [OF pos le]]\<close>)
  have rep: "on_grid s A x \<Longrightarrow> representable x" "on_grid t P x \<Longrightarrow> representable x"
    "on_grid (s + t) (A * P) x \<Longrightarrow> representable x" for x
    using assms(2-5) by (auto intro: on_grid_representable)
  note ad = exact_arithD [OF assms(1)]
  show "dec_add X ex f = Some (ex + f)"
    by (rule ad(1) [OF rep(1) [OF assms(13)] rep(1) [OF assms(6)] rep(1) [OF ex]])
  show "dec_mul X f p = Some (f * p)"
    by (rule ad(3) [OF rep(1) [OF assms(6)] rep(2) [OF assms(9)] rep(3) [OF fp]])
  show "dec_add X nt (f * p) = Some (nt + f * p)"
    by (rule ad(1) [OF rep(3) [OF assms(17)] rep(3) [OF fp] rep(3) [OF nt]])
  show "dec_sub X rem f = Some (rem - f)"
    by (rule ad(2) [OF rep(1) [OF assms(11)] rep(1) [OF assms(6)] rep(1) [OF rem]])
qed

lemma walk_levels_exact:
  assumes "exact_arith X" and "s + t \<le> 28" and "A < 2 ^ 96" and "P < 2 ^ 96" and "A * P < 2 ^ 96"
    and "\<forall>l \<in> set ls. 0 < pl_price l \<and> 0 < pl_qty l \<and> on_grid s A (pl_qty l) \<and> on_grid t P (pl_price l)"
    and "0 < rem" and "on_grid s A rem" and "0 \<le> ex" and "on_grid s A ex" and "on_grid s A (rem + ex)"
    and "0 \<le> nt" and "nt \<le> ex * (of_int P / 10 ^ t)" and "on_grid (s + t) (A * P) nt"
  shows "walk_levels X sd pl ls
      \<lparr>wk_remaining_qty = rem, wk_executed_qty = ex, wk_executed_notional = nt, wk_worst_price = wp\<rparr> =
    (let fl = takeWhile (\<lambda>l. is_level_fillable sd pl (pl_price l)) ls; q = min rem (depth fl)
     in Some \<lparr>wk_remaining_qty = rem - q, wk_executed_qty = ex + q,
          wk_executed_notional = nt + depth_cost rem fl,
          wk_worst_price = (if fl = [] then wp else Some (pl_price (last (touched rem fl))))\<rparr>)"
  using assms(6-)
proof (induction ls arbitrary: rem ex nt wp)
  case Nil
  then show ?case by (simp add: depth_def)
next
  case (Cons l ls)
  let ?f = "min rem (pl_qty l)"
  let ?fl = "takeWhile (\<lambda>l. is_level_fillable sd pl (pl_price l)) ls"
  show ?case
  proof (cases "is_level_fillable sd pl (pl_price l)")
    case False
    with Cons.prems(2) show ?thesis by (simp add: depth_def)
  next
    case True
    have f: "on_grid s A ?f" "0 < ?f" "?f \<le> rem" and p: "on_grid t P (pl_price l)" "0 < pl_price l"
      using Cons.prems(1-3) by (auto simp: min_def)
    note step = walk_step [OF assms(1-5) f p Cons.prems(3-9)]
    have fq: "(if rem < pl_qty l then rem else pl_qty l) = ?f" by (simp add: min_def)
    have pos: "\<forall>l \<in> set ?fl. 0 < pl_qty l" using Cons.prems(1) by (auto dest: set_takeWhileD)
    then have d: "0 \<le> depth ?fl" by (rule depth_nonneg)
    show ?thesis
    proof (cases "rem \<le> pl_qty l")
      case True
      then have "?f = rem" by simp
      with step \<open>is_level_fillable sd pl (pl_price l)\<close> True d Cons.prems(2) depth_cost_zero [OF pos]
      show ?thesis unfolding walk_levels.simps Let_def walk.simps fq
        by (simp add: depth_def min_def)
    next
      case False
      then have fl: "?f = pl_qty l" and rem: "0 < rem - ?f" by simp_all
      have nt: "0 \<le> nt + ?f * pl_price l" using Cons.prems(7) f(2) p(2) by simp
      have ex: "0 \<le> ex + ?f" using Cons.prems(4) f(2) by simp
      have sum: "on_grid s A (rem - ?f + (ex + ?f))" using Cons.prems(6) by simp
      note IH = Cons.IH [OF _ rem step(6) ex step(5) sum nt step(8) step(7), where wp = "Some (pl_price l)"]
      show ?thesis unfolding walk_levels.simps Let_def walk.simps fq
        using step(1-4) \<open>is_level_fillable sd pl (pl_price l)\<close> False rem d IH Cons.prems(1)
        by (simp add: fl depth_def Let_def min_def)
    qed
  qed
qed

subsection \<open>Outcomes\<close>

lemma depth_pos: "\<forall>l \<in> set ls. 0 < pl_qty l \<Longrightarrow> 0 < depth ls \<longleftrightarrow> ls \<noteq> []"
  using depth_nonneg [of "tl ls"] by (cases ls) (auto simp: depth_def)

lemma settle_walk_Inr:
  "settle_walk X order v book fm p w = Some (Inr out) \<Longrightarrow>
   out = Resting \<and> wk_executed_qty w = 0 \<or>
   (\<exists>sf. out = Executed sf \<and> wk_executed_qty w \<noteq> 0 \<and>
     dec_div X (wk_executed_notional w) (wk_executed_qty w) = Some (fi_price (sf_fill sf)) \<and>
     fi_qty (sf_fill sf) = wk_executed_qty w \<and> sf_remaining_qty sf = wk_remaining_qty w \<and>
     fi_order_id (sf_fill sf) = oc_id order \<and> fi_venue_order_id (sf_fill sf) = v \<and>
     fi_instrument_id (sf_fill sf) = oc_instrument_id order \<and> fi_side (sf_fill sf) = oc_side order \<and>
     basis_points_delta X (unwrap_or (wk_worst_price w) p) p = Some (sf_market_impact_bps sf))"
  by (auto simp: settle_walk_def bind_Some_iff Let_def sum_case_iff split: if_splits)

text \<open>An accepted simulation: the checks it passed and, in an execution, what was computed.\<close>

lemma simulate_Inr:
  assumes "simulate X order v book fm = Some (Inr out)"
  obtains w best where "0 < oc_qty order" and "validate_book book = Inr ()"
    and "oc_order_type order = Market \<or> oc_order_type order = Limit \<and> oc_price order \<noteq> None"
    and "first (side_levels (oc_side order) book) = Some best"
    and "walk_levels X (oc_side order) (limit_of order) (side_levels (oc_side order) book)
      \<lparr>wk_remaining_qty = oc_qty order, wk_executed_qty = 0, wk_executed_notional = 0,
       wk_worst_price = None\<rparr> = Some w"
    and "out = Resting \<and> wk_executed_qty w = 0 \<or>
      (\<exists>sf. out = Executed sf \<and> wk_executed_qty w \<noteq> 0 \<and>
        dec_div X (wk_executed_notional w) (wk_executed_qty w) = Some (fi_price (sf_fill sf)) \<and>
        fi_qty (sf_fill sf) = wk_executed_qty w \<and> sf_remaining_qty sf = wk_remaining_qty w \<and>
        fi_order_id (sf_fill sf) = oc_id order \<and> fi_venue_order_id (sf_fill sf) = v \<and>
        fi_instrument_id (sf_fill sf) = oc_instrument_id order \<and>
        fi_side (sf_fill sf) = oc_side order \<and>
        basis_points_delta X (unwrap_or (wk_worst_price w) (pl_price best)) (pl_price best) =
          Some (sf_market_impact_bps sf))"
proof -
  have qty: "0 < oc_qty order" and book: "validate_book book = Inr ()"
    using assms by (auto simp: simulate_def try_then_Inr split: if_splits sum.splits)
  obtain best w where lim: "oc_order_type order = Market \<or> oc_order_type order = Limit \<and> oc_price order \<noteq> None"
    and "first (side_levels (oc_side order) book) = Some best"
    and "walk_levels X (oc_side order) (limit_of order) (side_levels (oc_side order) book)
      \<lparr>wk_remaining_qty = oc_qty order, wk_executed_qty = 0, wk_executed_notional = 0,
       wk_worst_price = None\<rparr> = Some w"
    and "settle_walk X order v book fm (pl_price best) w = Some (Inr out)"
    using assms by (cases "oc_order_type order"; cases "oc_price order"; cases "oc_side order")
      (auto simp: simulate_def limit_of_def try_then_Inr side_levels_def best_ask_def best_bid_def
        bind_Some_iff split: if_splits option.splits sum.splits)
  with that [OF qty book lim] settle_walk_Inr show ?thesis by blast
qed

lemma side_levels_ok:
  assumes "validate_book book = Inr ()"
  shows "\<forall>l \<in> set (side_levels sd book). 0 < pl_price l \<and> 0 < pl_qty l"
  using assms by (cases sd) (auto simp: validate_book_iff side_ok_def side_levels_def)

lemma simulate_walk:
  assumes "exact_arith X" and "on_book_grid s A t P order book"
    and "validate_book book = Inr ()" and "0 < oc_qty order"
  shows "walk_levels X (oc_side order) (limit_of order) (side_levels (oc_side order) book)
      \<lparr>wk_remaining_qty = oc_qty order, wk_executed_qty = 0, wk_executed_notional = 0,
       wk_worst_price = None\<rparr> =
    (let fl = fillable order book; q = min (oc_qty order) (depth fl)
     in Some \<lparr>wk_remaining_qty = oc_qty order - q, wk_executed_qty = q,
          wk_executed_notional = depth_cost (oc_qty order) fl,
          wk_worst_price = (if fl = [] then None else Some (pl_price (last (touched (oc_qty order) fl))))\<rparr>)"
proof -
  have g: "s + t \<le> 28" "A < 2 ^ 96" "P < 2 ^ 96" "A * P < 2 ^ 96" "on_grid s A (oc_qty order)"
    using assms(2) by (simp_all add: on_book_grid_def book_on_grid_def)
  have lv: "\<forall>l \<in> set (side_levels (oc_side order) book).
      0 < pl_price l \<and> 0 < pl_qty l \<and> on_grid s A (pl_qty l) \<and> on_grid t P (pl_price l)"
    using side_levels_ok [OF assms(3), of "oc_side order"] assms(2)
    by (cases "oc_side order") (auto simp: on_book_grid_def book_on_grid_def side_levels_def)
  have "0 \<le> A" using g(5) by (auto elim: on_gridE)
  show ?thesis
  proof (cases "side_levels (oc_side order) book")
    case Nil
    with assms(4) show ?thesis by (simp add: fillable_def depth_def)
  next
    case (Cons l ls)
    then have "on_grid t P (pl_price l)" using lv by simp
    then have "0 \<le> P" by (auto elim: on_gridE)
    then have z: "on_grid s A 0" "on_grid (s + t) (A * P) 0" using \<open>0 \<le> A\<close> by simp_all
    show ?thesis
      using walk_levels_exact [OF assms(1) g(1-4) lv assms(4) g(5) order_refl z(1) _ order_refl _ z(2),
        where wp = None] g(5)
      by (simp add: fillable_def Let_def)
  qed
qed

subsection \<open>Greedy execution is optimal\<close>

lemma mirrored_simps [simp]:
  "mirrored [] = []" "mirrored (l # ls) = l\<lparr>pl_price := - pl_price l\<rparr> # mirrored ls"
  "map pl_price (mirrored ls) = map (\<lambda>l. - pl_price l) ls" "map pl_qty (mirrored ls) = map pl_qty ls"
  by (simp_all add: mirrored_def)

lemma depth_mirrored [simp]: "depth (mirrored ls) = depth ls"
  by (simp add: depth_def)

lemma depth_cost_mirrored: "depth_cost q (mirrored ls) = - depth_cost q ls"
  by (induction ls arbitrary: q) auto

lemma allocates_mirrored: "allocates q (mirrored ls) xs \<longleftrightarrow> allocates q ls xs"
  by (simp add: allocates_def mirrored_def list_all2_map2)

lemma allocation_value_mirrored: "allocation_value xs (mirrored ls) = - allocation_value xs ls"
proof (induction xs arbitrary: ls)
  case (Cons x xs)
  then show ?case by (cases ls) (auto simp: allocation_value_def)
qed (simp add: allocation_value_def)

lemma depth_cost_cap:
  assumes "\<forall>l \<in> set ls. 0 < pl_qty l" and "0 \<le> q"
  shows "depth_cost q ls = depth_cost (min q (depth ls)) ls"
  using assms
proof (induction ls arbitrary: q)
  case (Cons l ls)
  show ?case
  proof (cases "q \<le> pl_qty l + depth ls")
    case True
    then show ?thesis by (simp add: depth_def)
  next
    case False
    have d: "0 \<le> depth ls" using Cons.prems(1) by (simp add: depth_nonneg)
    then have "min (pl_qty l + depth ls) (pl_qty l) = pl_qty l" by simp
    moreover have "depth_cost (q - pl_qty l) ls = depth_cost (depth ls) ls"
      using Cons.IH [of "q - pl_qty l"] Cons.prems(1) False d by simp
    ultimately show ?thesis using False d by (simp add: depth_def)
  qed
qed simp

text \<open>A further unit costs at least the lowest price of the levels.\<close>

lemma depth_cost_increase:
  assumes "\<forall>l \<in> set ls. 0 < pl_qty l \<and> p \<le> pl_price l" and "0 \<le> a" and "a \<le> b" and "b \<le> depth ls"
  shows "(b - a) * p \<le> depth_cost b ls - depth_cost a ls"
  using assms
proof (induction ls arbitrary: a b)
  case (Cons l ls)
  let ?fa = "min a (pl_qty l)" and ?fb = "min b (pl_qty l)"
  have d: "0 \<le> depth ls" using Cons.prems(1) by (simp add: depth_nonneg)
  have f: "?fa \<le> ?fb" "0 \<le> a - ?fa" "a - ?fa \<le> b - ?fb" "b - ?fb \<le> depth ls"
    using Cons.prems(2-4) d by (auto simp: min_def depth_def)
  have "((b - ?fb) - (a - ?fa)) * p \<le> depth_cost (b - ?fb) ls - depth_cost (a - ?fa) ls"
    using Cons.IH [OF _ f(2-4)] Cons.prems(1) by simp
  moreover have "(?fb - ?fa) * p \<le> (?fb - ?fa) * pl_price l"
    using f(1) Cons.prems(1) by (intro mult_left_mono) simp_all
  ultimately show ?case by (simp add: algebra_simps)
next
  case Nil
  then have "a = b" by (simp add: depth_def)
  then show ?case by simp
qed

lemma greedy_minimal:
  assumes "\<forall>l \<in> set ls. 0 < pl_qty l" and "sorted_wrt (\<le>) (map pl_price ls)" and "allocates q ls xs"
  shows "depth_cost q ls \<le> allocation_value xs ls"
  using assms
proof (induction ls arbitrary: q xs)
  case Nil
  then show ?case by (simp add: allocates_def allocation_value_def)
next
  case (Cons l ls)
  then obtain x ys where xs: "xs = x # ys" "0 \<le> x" "x \<le> pl_qty l"
      "list_all2 (\<lambda>x l. 0 \<le> x \<and> x \<le> pl_qty l) ys ls" "sum_list ys = q - x"
    by (cases xs) (auto simp: allocates_def)
  let ?f = "min q (pl_qty l)"
  have ys: "0 \<le> sum_list ys" "sum_list ys \<le> depth ls"
    using xs(4) by (induction rule: list_all2_induct) (auto simp: depth_def)
  then have f: "x \<le> ?f" "0 \<le> q - ?f" "q - ?f \<le> q - x" "q - x \<le> depth ls" using xs(2,3,5) by auto
  have "depth_cost (q - x) ls \<le> allocation_value ys ls"
    using Cons.IH [of "q - x" ys] Cons.prems(1,2) xs(4,5) by (simp add: allocates_def)
  moreover have "((q - x) - (q - ?f)) * pl_price l \<le> depth_cost (q - x) ls - depth_cost (q - ?f) ls"
    using Cons.prems(1,2) f(2-4) by (intro depth_cost_increase) simp_all
  ultimately show ?case unfolding xs(1) by (simp add: allocation_value_def algebra_simps)
qed

lemma greedy_maximal:
  assumes "\<forall>l \<in> set ls. 0 < pl_qty l" and "sorted_wrt (\<ge>) (map pl_price ls)" and "allocates q ls xs"
  shows "allocation_value xs ls \<le> depth_cost q ls"
proof -
  have "sorted_wrt (\<le>) (map pl_price (mirrored ls))"
    using assms(2) by (simp add: sorted_wrt_map)
  moreover have "\<forall>l \<in> set (mirrored ls). 0 < pl_qty l" using assms(1) by (auto simp: mirrored_def)
  ultimately show ?thesis
    using greedy_minimal [of "mirrored ls" q xs] assms(3)
    by (simp add: allocates_mirrored depth_cost_mirrored allocation_value_mirrored)
qed

lemma depth_cost_bounds:
  assumes "\<forall>l \<in> set ls. 0 < pl_qty l" and "0 \<le> q" and "q \<le> depth ls"
  shows "\<forall>l \<in> set ls. p \<le> pl_price l \<Longrightarrow> q * p \<le> depth_cost q ls"
    and "\<forall>l \<in> set ls. pl_price l \<le> p \<Longrightarrow> depth_cost q ls \<le> q * p"
proof -
  show "q * p \<le> depth_cost q ls" if "\<forall>l \<in> set ls. p \<le> pl_price l"
    using depth_cost_increase [of ls p 0 q] that assms by (simp add: depth_cost_zero)
  show "depth_cost q ls \<le> q * p" if "\<forall>l \<in> set ls. pl_price l \<le> p"
    using depth_cost_increase [of "mirrored ls" "- p" 0 q] that assms
    by (auto simp: mirrored_def [symmetric] depth_cost_mirrored depth_cost_zero)
      (simp add: mirrored_def)
qed

subsection \<open>The contract of a simulator\<close>

text \<open>
  What a client relies on: on quantities in whole lots and well-formed books, an execution
  reports a positive quantity and what is left of the order, in whole lots, under the
  identifiers it was asked to use.
\<close>

locale fill_simulator_contract =
  fixes sim :: fill_simulator
    and lot :: "decimal \<Rightarrow> bool"
    and good_book :: "orderbook_snapshot \<Rightarrow> bool"
  assumes executed_split: "lot (oc_qty order) \<Longrightarrow> good_book book \<Longrightarrow>
      sim order v book fm = Some (Inr (Executed sf)) \<Longrightarrow>
      0 < fi_qty (sf_fill sf) \<and> 0 \<le> sf_remaining_qty sf \<and>
      fi_qty (sf_fill sf) + sf_remaining_qty sf = oc_qty order \<and> lot (fi_qty (sf_fill sf))"
    and executed_ids: "sim order v book fm = Some (Inr (Executed sf)) \<Longrightarrow>
      fi_order_id (sf_fill sf) = oc_id order \<and> fi_venue_order_id (sf_fill sf) = v"
begin

lemma executed_at_most:
  "lot (oc_qty order) \<Longrightarrow> good_book book \<Longrightarrow> sim order v book fm = Some (Inr (Executed sf)) \<Longrightarrow>
   0 < fi_qty (sf_fill sf) \<and> fi_qty (sf_fill sf) \<le> oc_qty order"
  using executed_split [of order book v fm sf] by simp

lemma complete_iff:
  "lot (oc_qty order) \<Longrightarrow> good_book book \<Longrightarrow> sim order v book fm = Some (Inr (Executed sf)) \<Longrightarrow>
   is_complete sf \<longleftrightarrow> fi_qty (sf_fill sf) = oc_qty order"
  using executed_split [of order book v fm sf] by (auto simp: is_complete_def)

end

text \<open>A simulator together with exact arithmetic on lots.\<close>

locale lot_simulator = fill_simulator_contract sim lot good_book
  for sim :: fill_simulator
    and lot :: "decimal \<Rightarrow> bool"
    and good_book :: "orderbook_snapshot \<Rightarrow> bool" +
  fixes X :: ext
  assumes lot_zero: "lot a \<Longrightarrow> lot 0" and lot_nonneg: "lot a \<Longrightarrow> 0 \<le> a"
    and lot_sub: "lot a \<Longrightarrow> lot b \<Longrightarrow> b \<le> a \<Longrightarrow> dec_sub X a b = Some (a - b) \<and> lot (a - b)"
    and lot_add: "lot a \<Longrightarrow> lot b \<Longrightarrow> lot c \<Longrightarrow> a + b \<le> c \<Longrightarrow> dec_add X a b = Some (a + b) \<and> lot (a + b)"

text \<open>Everything that is known of an execution on grids.\<close>

lemma executed_on_grid:
  assumes "exact_arith X" and "on_book_grid s A t P order book"
    and "simulate X order v book fm = Some (Inr (Executed sf))"
  shows "fillable order book \<noteq> []" and "0 < oc_qty order" and "validate_book book = Inr ()"
    and "fi_qty (sf_fill sf) = min (oc_qty order) (depth (fillable order book))"
    and "sf_remaining_qty sf = oc_qty order - fi_qty (sf_fill sf)"
    and "dec_div X (depth_cost (oc_qty order) (fillable order book)) (fi_qty (sf_fill sf)) =
      Some (fi_price (sf_fill sf))"
    and "\<forall>l \<in> set (fillable order book). 0 < pl_price l \<and> 0 < pl_qty l"
proof -
  show qty: "0 < oc_qty order" and book: "validate_book book = Inr ()"
    using assms(3) by (auto elim!: simulate_Inr)
  show lv: "\<forall>l \<in> set (fillable order book). 0 < pl_price l \<and> 0 < pl_qty l"
    using side_levels_ok [OF book] by (auto simp: fillable_def dest: set_takeWhileD)
  from assms(3) show "fillable order book \<noteq> []"
    "fi_qty (sf_fill sf) = min (oc_qty order) (depth (fillable order book))"
    "sf_remaining_qty sf = oc_qty order - fi_qty (sf_fill sf)"
    "dec_div X (depth_cost (oc_qty order) (fillable order book)) (fi_qty (sf_fill sf)) =
      Some (fi_price (sf_fill sf))"
    using simulate_walk [OF assms(1,2) book qty] qty
    by (auto elim!: simulate_Inr simp: Let_def depth_def)
qed

lemma on_grid_sum_list:
  "\<forall>x \<in> set xs. \<exists>B. on_grid s B x \<Longrightarrow> \<exists>B. on_grid s B (sum_list xs)"
proof (induction xs)
  case Nil
  show ?case by (auto intro!: exI [of _ 0])
next
  case (Cons x xs)
  then obtain B C where "on_grid s B x" "on_grid s C (sum_list xs)" by auto
  from on_grid_add [OF this] show ?case by auto
qed

lemma executed_qty_on_grid:
  assumes "exact_arith X" and "on_book_grid s A t P order book"
    and "simulate X order v book fm = Some (Inr (Executed sf))"
  shows "on_grid s A (fi_qty (sf_fill sf))"
proof -
  note ex = executed_on_grid [OF assms]
  have q: "on_grid s A (oc_qty order)" using assms(2) by (simp add: on_book_grid_def)
  have "\<exists>B. on_grid s B (depth (fillable order book))" unfolding depth_def
    using assms(2) by (intro on_grid_sum_list)
      (auto simp: fillable_def side_levels_def on_book_grid_def book_on_grid_def
        dest!: set_takeWhileD split: side.splits)
  then have "\<exists>B. on_grid s B (fi_qty (sf_fill sf))" using q unfolding ex(4) by (auto simp: min_def)
  moreover have "0 \<le> depth (fillable order book)" using ex(7) by (simp add: depth_nonneg)
  ultimately show ?thesis using on_grid_le [OF _ _ q] ex(2,4) by fastforce
qed

interpretation live: lot_simulator "simulate X" "lots X s A" "book_on_grid s A t P" X for X s A t P
proof
  fix order book v fm sf
  assume a: "lots X s A (oc_qty order)" "book_on_grid s A t P book"
    and b: "simulate X order v book fm = Some (Inr (Executed sf))"
  then have g: "exact_arith X" "on_book_grid s A t P order book"
    by (auto simp: lots_def on_book_grid_def)
  note ex = executed_on_grid [OF g b]
  have d: "0 < depth (fillable order book)" using ex(1,7) by (simp add: depth_pos)
  have "on_grid s A (fi_qty (sf_fill sf))"
    using executed_qty_on_grid [OF g b] .
  with a d ex show "0 < fi_qty (sf_fill sf) \<and> 0 \<le> sf_remaining_qty sf \<and>
      fi_qty (sf_fill sf) + sf_remaining_qty sf = oc_qty order \<and> lots X s A (fi_qty (sf_fill sf))"
    by (auto simp: lots_def)
next
  fix a b c :: decimal
  assume "lots X s A a" and "lots X s A b"
  then have ab: "exact_arith X" "on_grid s A a" "on_grid s A b" "0 \<le> a" "0 \<le> b" "s \<le> 28" "A < 2 ^ 96"
    by (auto simp: lots_def)
  note rep = on_grid_representable [OF _ ab(6,7)]
  show "dec_sub X a b = Some (a - b) \<and> lots X s A (a - b)" if "b \<le> a"
  proof -
    have "on_grid s A (a - b)"
      by (rule on_grid_le [OF on_grid_diff [OF ab(2,3)] _ ab(2)]) (use ab(4,5) that in auto)
    with ab that show ?thesis by (auto simp: lots_def intro!: exact_arithD(2) rep)
  qed
  show "dec_add X a b = Some (a + b) \<and> lots X s A (a + b)" if "lots X s A c" "a + b \<le> c"
  proof -
    have "on_grid s A (a + b)"
      by (rule on_grid_le [OF on_grid_add [OF ab(2,3)], of c]) (use ab(4,5) that in \<open>auto simp: lots_def\<close>)
    with ab that show ?thesis by (auto simp: lots_def intro!: exact_arithD(1) rep)
  qed
next
  show "lots X s A 0" if "lots X s A a" for a
  proof -
    have "0 \<le> A" using that by (auto simp: lots_def elim: on_gridE)
    with that show ?thesis by (simp add: lots_def)
  qed
qed (auto elim!: simulate_Inr simp: lots_def)

text \<open>The average price is between zero and the greatest price of the grid.\<close>

lemma average_on_grid:
  assumes "exact_arith X" and "on_book_grid s A t P order book"
    and "simulate X order v book fm = Some (Inr (Executed sf))" and "0 < q" and "q \<le> depth (fillable order book)"
  shows "\<bar>depth_cost q (fillable order book) / q\<bar> \<le> of_int P / 10 ^ t"
proof -
  let ?fl = "fillable order book" and ?P = "of_int P / 10 ^ t :: decimal"
  have lv: "\<forall>l \<in> set ?fl. 0 < pl_price l \<and> 0 < pl_qty l" by (rule executed_on_grid(7) [OF assms(1-3)])
  have "pl_price l \<le> ?P" if "l \<in> set ?fl" for l
  proof -
    have "l \<in> set (ob_bids book) \<union> set (ob_asks book)"
      using that by (auto simp: fillable_def side_levels_def dest!: set_takeWhileD split: side.splits)
    then have "on_grid t P (pl_price l)" using assms(2) by (simp add: on_book_grid_def book_on_grid_def)
    then show ?thesis by (auto simp: on_grid_def divide_right_mono)
  qed
  then have "depth_cost q ?fl \<le> q * ?P"
    using depth_cost_bounds(2) [of ?fl q ?P] lv assms(4,5) by fastforce
  moreover have "q * 0 \<le> depth_cost q ?fl"
    using depth_cost_bounds(1) [of ?fl q 0] lv assms(4,5) by fastforce
  ultimately show ?thesis using assms(4) by (simp add: divide_le_eq mult.commute)
qed

subsection \<open>Properties\<close>

text \<open>
  C23: The simulator computes the greedy execution against the depth of the book: for quantities
  and prices on decimal grids, an order rests exactly when no level is within its limit;
  otherwise the executed quantity is the smaller of the order and the depth within the limit,
  the rest remains, and the price is the value of that many units, best levels first, divided by
  the quantity.
\<close>

theorem simulate_matches_depth:
  assumes "exact_arith X" and "on_book_grid s A t P order book"
    and "simulate X order v book fm = Some (Inr out)"
  shows "case out of
      Resting \<Rightarrow> fillable order book = []
    | Executed sf \<Rightarrow> fillable order book \<noteq> [] \<and>
        fi_qty (sf_fill sf) = min (oc_qty order) (depth (fillable order book)) \<and>
        sf_remaining_qty sf = oc_qty order - fi_qty (sf_fill sf) \<and>
        dec_div X (depth_cost (fi_qty (sf_fill sf)) (fillable order book)) (fi_qty (sf_fill sf)) =
          Some (fi_price (sf_fill sf))"
proof (cases out)
  case Resting
  with assms(3) obtain qty: "0 < oc_qty order" and book: "validate_book book = Inr ()"
    by (auto elim!: simulate_Inr)
  have lv: "\<forall>l \<in> set (fillable order book). 0 < pl_qty l"
    using side_levels_ok [OF book] by (auto simp: fillable_def dest: set_takeWhileD)
  have "min (oc_qty order) (depth (fillable order book)) = 0"
    using assms(3) Resting simulate_walk [OF assms(1,2) book qty]
    by (auto elim!: simulate_Inr simp: Let_def)
  then have "\<not> 0 < depth (fillable order book)" using qty by (simp add: min_def split: if_splits)
  with Resting depth_pos [OF lv] show ?thesis by simp
next
  case (Executed sf)
  note ex = executed_on_grid [OF assms(1,2) assms(3) [unfolded Executed]]
  have lv: "\<forall>l \<in> set (fillable order book). 0 < pl_qty l" using ex(7) by simp
  have "0 \<le> oc_qty order" using ex(2) by simp
  from depth_cost_cap [OF lv this] ex(1,4-6) Executed show ?thesis by simp
qed

text \<open>A run on the two-level book: two units bought at a limit that covers one level.\<close>

lemma example_executed:
  "\<exists>sf. simulate ideal_ext example_paper_order (VenueOrderId ''v'') example_orderbook zero_fee_model =
     Some (Inr (Executed sf)) \<and> fi_qty (sf_fill sf) = 1 \<and> sf_remaining_qty sf = 1 \<and> fi_price (sf_fill sf) = 10010"
proof -
  have "validate_book example_orderbook = Inr ()"
    by (simp add: validate_book_iff example_orderbook_def side_ok_def best_bid_def best_ask_def first_def)
  then show ?thesis
    by (simp add: simulate_def settle_walk_def example_paper_order_def example_orderbook_def
        zero_fee_model_def best_ask_def first_def basis_points_delta_def unwrap_or_def)
qed

lemma example_on_grid: "on_book_grid 0 10 0 20000 example_paper_order example_orderbook"
  by (simp add: on_book_grid_def book_on_grid_def on_grid_def example_paper_order_def
      example_orderbook_def)

theorem simulate_matches_depth_witness:
  "fillable example_paper_order example_orderbook \<noteq> [] \<and>
   depth_cost 1 (fillable example_paper_order example_orderbook) = 10010"
proof -
  obtain sf where sf: "simulate ideal_ext example_paper_order (VenueOrderId ''v'') example_orderbook
      zero_fee_model = Some (Inr (Executed sf))" "fi_qty (sf_fill sf) = 1" "fi_price (sf_fill sf) = 10010"
    using example_executed by blast
  from simulate_matches_depth [OF ideal_ext_exact example_on_grid sf(1)] sf(2,3) show ?thesis
    by simp
qed

text \<open>
  C24: The simulated execution is the best one: no other way to take the executed quantity from
  the levels within the limit is cheaper for a buy or more valuable for a sale, up to the
  rounding error \<open>e\<close> of the average, a quotient no greater than the prices of the book; and the
  average price respects the limit up to \<open>e\<close>.
\<close>

theorem simulate_best_execution:
  assumes "exact_arith X" and "div_within X (of_int P / 10 ^ t) e" and "on_book_grid s A t P order book"
    and "simulate X order v book fm = Some (Inr (Executed sf))"
    and "allocates (fi_qty (sf_fill sf)) (fillable order book) xs"
  shows "case oc_side order of
      Buy \<Rightarrow> fi_price (sf_fill sf) * fi_qty (sf_fill sf) \<le>
          allocation_value xs (fillable order book) + e * fi_qty (sf_fill sf) \<and>
        (\<forall>limit \<in> set_option (limit_of order). fi_price (sf_fill sf) \<le> limit + e)
    | Sell \<Rightarrow> allocation_value xs (fillable order book) - e * fi_qty (sf_fill sf) \<le>
          fi_price (sf_fill sf) * fi_qty (sf_fill sf) \<and>
        (\<forall>limit \<in> set_option (limit_of order). limit - e \<le> fi_price (sf_fill sf))"
proof -
  let ?fl = "fillable order book" and ?q = "fi_qty (sf_fill sf)" and ?p = "fi_price (sf_fill sf)"
  note ex = executed_on_grid [OF assms(1,3,4)]
  have lv: "\<forall>l \<in> set ?fl. 0 < pl_qty l" using ex(7) by simp
  have q: "0 < ?q" "?q \<le> depth ?fl" using ex(1,2,4) depth_pos [OF lv] by simp_all
  have "depth_cost (oc_qty order) ?fl = depth_cost ?q ?fl"
    using depth_cost_cap [OF lv] ex(2,4) by simp
  moreover have below: "\<bar>depth_cost ?q ?fl / ?q\<bar> \<le> of_int P / 10 ^ t"
    by (rule average_on_grid [OF assms(1,3,4) q])
  ultimately have avg: "\<bar>?p - depth_cost ?q ?fl / ?q\<bar> \<le> e"
    using ex(6) assms(2) q(1) below by (auto simp: div_within_def)
  have val: "\<bar>?p * ?q - depth_cost ?q ?fl\<bar> \<le> e * ?q"
  proof -
    have "\<bar>?p - depth_cost ?q ?fl / ?q\<bar> * ?q \<le> e * ?q" using avg q(1) by simp
    moreover have "\<bar>?p - depth_cost ?q ?fl / ?q\<bar> * ?q = \<bar>?p * ?q - depth_cost ?q ?fl\<bar>"
      using q(1) by (simp add: abs_mult_pos left_diff_distrib)
    ultimately show ?thesis by simp
  qed
  have within: "is_level_fillable (oc_side order) (limit_of order) (pl_price l)" if "l \<in> set ?fl" for l
    using that by (auto simp: fillable_def dest: set_takeWhileD)
  have sorted: "oc_side order = Buy \<Longrightarrow> sorted_wrt (\<le>) (map pl_price ?fl)"
    "oc_side order = Sell \<Longrightarrow> sorted_wrt (\<ge>) (map pl_price ?fl)"
    using ex(3) unfolding validate_book_iff side_ok_def fillable_def side_levels_def
    by (auto simp: takeWhile_map [symmetric, unfolded comp_def] sorted_wrt_map
        intro: sorted_wrt_takeWhile)
  show ?thesis
  proof (cases "oc_side order")
    case Buy
    have "depth_cost ?q ?fl \<le> ?q * c" if "limit_of order = Some c" for c
      using that within Buy q by (intro depth_cost_bounds [OF lv]) auto
    then have "depth_cost ?q ?fl / ?q \<le> c" if "limit_of order = Some c" for c
      using that q(1) by (simp add: divide_le_eq mult.commute)
    then show ?thesis
      using Buy avg val greedy_minimal [OF lv sorted(1) [OF Buy] assms(5)] by (fastforce simp: abs_le_iff)
  next
    case Sell
    have "?q * c \<le> depth_cost ?q ?fl" if "limit_of order = Some c" for c
      using that within Sell q by (intro depth_cost_bounds [OF lv]) auto
    then have "c \<le> depth_cost ?q ?fl / ?q" if "limit_of order = Some c" for c
      using that q(1) by (simp add: le_divide_eq mult.commute)
    then show ?thesis
      using Sell avg val greedy_maximal [OF lv sorted(2) [OF Sell] assms(5)] by (fastforce simp: abs_le_iff)
  qed
qed

theorem simulate_best_execution_witness:
  "fillable example_paper_order example_orderbook = [\<lparr>pl_price = 10010, pl_qty = 1\<rparr>] \<and>
   10010 * 1 \<le> allocation_value [1] (fillable example_paper_order example_orderbook) + 0"
proof -
  obtain sf where sf: "simulate ideal_ext example_paper_order (VenueOrderId ''v'') example_orderbook
      zero_fee_model = Some (Inr (Executed sf))" "fi_qty (sf_fill sf) = 1" "fi_price (sf_fill sf) = 10010"
    using example_executed by blast
  have fl: "fillable example_paper_order example_orderbook = [\<lparr>pl_price = 10010, pl_qty = 1\<rparr>]"
    by (simp add: fillable_def side_levels_def limit_of_def example_paper_order_def example_orderbook_def)
  have "allocates (fi_qty (sf_fill sf)) (fillable example_paper_order example_orderbook) [1]"
    by (simp add: allocates_def fl sf(2))
  from simulate_best_execution [OF ideal_ext_exact div_within_ideal example_on_grid sf(1) this] fl sf(2,3)
  show ?thesis by (simp add: example_paper_order_def)
qed

end
