(* ===== verification/Paper_Adapter.thy ===== *)
theory Paper_Adapter
  imports Fill_Simulator
begin

text \<open>
  The paper trading adapter (\<open>gateway/src/lib.rs\<close>, \<open>PaperAdapter\<close>): submissions are simulated
  against the latest order book, resting orders are filled when a new book arrives, and fills
  are queued until the acknowledgement has been processed. Every operation takes the adapter
  and returns it updated with the result, or \<open>None\<close> when decimal arithmetic panics. An operation
  that takes a lock more than once is composed of its critical sections (\<open>submit_check\<close>,
  \<open>submit_book\<close>, \<open>submit_record\<close>; \<open>book_section\<close> and \<open>take_section\<close>, which are followed by the
  broadcasts); here the sections of an operation run without interruption, and
  \<open>Paper_Concurrency\<close> interleaves them.

  A fill subscriber is the list of fills delivered to it, with a flag for a closed receiver. The
  iteration order of a hash map is an argument \<open>keys\<close>: the keys in some order. The lemmas show
  that submissions are idempotent and what each section does to the quantities of an order.
\<close>

subsection \<open>Data\<close>

record order_submission =
  os_order_id :: order_id
  os_client_order_id :: client_order_id
  os_agent_id :: agent_id
  os_instrument_id :: instrument_id
  os_market_id :: market_id
  os_venue_id :: venue_id
  os_side :: side
  os_order_type :: order_type
  os_time_in_force :: time_in_force
  os_qty :: decimal
  os_price :: "decimal option"
  os_trigger_price :: "decimal option"
  os_stop_loss :: "decimal option"
  os_take_profit :: "decimal option"
  os_post_only :: bool
  os_reduce_only :: bool
  os_dry_run :: bool
  os_exec_hint :: exec_hint

definition submission_from_routed :: "routed pipeline_order \<Rightarrow> order_submission" where
  "submission_from_routed order =
     (let core = po_core order; routing = ro_routing (po_stage order) in
      \<lparr>os_order_id = oc_id core, os_client_order_id = rt_client_order_id routing,
       os_agent_id = oc_agent_id core, os_instrument_id = oc_instrument_id core,
       os_market_id = oc_market_id core, os_venue_id = rt_venue_id routing, os_side = oc_side core,
       os_order_type = oc_order_type core, os_time_in_force = oc_time_in_force core,
       os_qty = oc_qty core, os_price = oc_price core, os_trigger_price = oc_trigger_price core,
       os_stop_loss = oc_stop_loss core, os_take_profit = oc_take_profit core,
       os_post_only = oc_post_only core, os_reduce_only = oc_reduce_only core,
       os_dry_run = oc_dry_run core, os_exec_hint = oc_exec_hint core\<rparr>)"

record venue_order_ack =
  vk_venue_order_id :: venue_order_id
  vk_client_order_id :: client_order_id
  vk_accepted_at :: datetime

record venue_fill =
  vf_venue_order_id :: venue_order_id
  vf_client_order_id :: client_order_id
  vf_instrument_id :: instrument_id
  vf_side :: side
  vf_qty :: decimal
  vf_price :: decimal
  vf_fee :: decimal
  vf_is_maker :: bool
  vf_filled_at :: datetime

record venue_position =
  vp_instrument_id :: instrument_id
  vp_qty :: decimal
  vp_avg_entry_price :: decimal
  vp_unrealized_pnl :: decimal
  vp_margin_used :: decimal

record venue_open_order =
  vo_venue_order_id :: venue_order_id
  vo_client_order_id :: "client_order_id option"
  vo_instrument_id :: instrument_id
  vo_side :: side
  vo_qty :: decimal
  vo_filled_qty :: decimal
  vo_price :: "decimal option"
  vo_state :: order_state
  vo_created_at :: datetime

record venue_balance =
  vb_total_equity :: decimal
  vb_available_balance :: decimal
  vb_margin_used :: decimal
  vb_unrealized_pnl :: decimal
  vb_as_of :: datetime

record venue_capabilities =
  vc_venue_id :: venue_id
  vc_supports_market_orders :: bool
  vc_supports_limit_orders :: bool
  vc_supports_stop_market :: bool
  vc_supports_stop_limit :: bool
  vc_supports_trailing_stop :: bool
  vc_supports_oco :: bool
  vc_supports_amendment :: bool
  vc_supports_reduce_only :: bool
  vc_supports_post_only :: bool
  vc_max_batch_size :: "u32 option"

fun time_in_force_display :: "time_in_force \<Rightarrow> msg" where
  "time_in_force_display GTC = lit ''GTC''"
| "time_in_force_display IOC = lit ''IOC''"
| "time_in_force_display FOK = lit ''FOK''"
| "time_in_force_display (GTD t) = [PStr ''GTD('', PInt t, PStr '')'']"

text \<open>\<open>ValidationError\<close>, the error of the trait \<open>OrderValidator\<close>.\<close>

datatype validation_error =
    InvalidQty msg
  | InvalidPrice msg
  | UnsupportedOrderType order_type venue_id
  | UnsupportedTIF time_in_force venue_id
  | MissingRequiredField string
  | IncompatibleConstraints msg
  | PrecisionExceeded string u32 u32

fun validation_error_display :: "validation_error \<Rightarrow> msg" where
  "validation_error_display (InvalidQty reason) = PStr ''Invalid quantity: '' # reason"
| "validation_error_display (InvalidPrice reason) = PStr ''Invalid price: '' # reason"
| "validation_error_display (UnsupportedOrderType requested venue) =
     [PStr ''Order type '', PStr (order_type_display requested), PStr '' not supported on '',
      PStr (venue_id_str venue)]"
| "validation_error_display (UnsupportedTIF requested venue) =
     [PStr ''TIF ''] @ time_in_force_display requested @ [PStr '' not supported on '', PStr (venue_id_str venue)]"
| "validation_error_display (MissingRequiredField field) = [PStr ''Missing required field: '', PStr field]"
| "validation_error_display (IncompatibleConstraints reason) = PStr ''Incompatible constraints: '' # reason"
| "validation_error_display (PrecisionExceeded field max_decimals actual) =
     [PStr ''Field '', PStr field, PStr '' precision exceeded: max '', PInt (uint max_decimals),
      PStr '', got '', PInt (uint actual)]"

record post_ack_fill =
  pf_client_order_id :: client_order_id
  pf_fill :: fill

record post_ack_actions =
  pk_fills :: "post_ack_fill list"
  pk_cancellation_reason :: "msg option"

definition post_ack_actions_default :: post_ack_actions where
  "post_ack_actions_default = \<lparr>pk_fills = [], pk_cancellation_reason = None\<rparr>"

record paper_adapter_config =
  pc_venue_id :: venue_id
  pc_timeout_policy :: timeout_policy
  pc_fill_channel_capacity :: nat

definition DEFAULT_FILL_CHANNEL_CAPACITY :: nat where
  "DEFAULT_FILL_CHANNEL_CAPACITY = 64"

definition paper_adapter_config_new :: "venue_id \<Rightarrow> paper_adapter_config" where
  "paper_adapter_config_new v = \<lparr>pc_venue_id = v, pc_timeout_policy = timeout_policy_default,
     pc_fill_channel_capacity = DEFAULT_FILL_CHANNEL_CAPACITY\<rparr>"

record paper_open_order =
  oo_submission :: order_submission
  oo_venue_order_id :: venue_order_id
  oo_accepted_at :: datetime
  oo_filled_qty :: decimal

definition open_remaining_qty :: "ext \<Rightarrow> paper_open_order \<Rightarrow> decimal option" where
  "open_remaining_qty X oo = dec_sub X (os_qty (oo_submission oo)) (oo_filled_qty oo)"

definition as_open_order :: "paper_open_order \<Rightarrow> venue_open_order" where
  "as_open_order oo =
     (let sub = oo_submission oo in
      \<lparr>vo_venue_order_id = oo_venue_order_id oo, vo_client_order_id = Some (os_client_order_id sub),
       vo_instrument_id = os_instrument_id sub, vo_side = os_side sub, vo_qty = os_qty sub,
       vo_filled_qty = oo_filled_qty oo, vo_price = os_price sub,
       vo_state = (if oo_filled_qty oo = 0 then OAccepted else OPartiallyFilled),
       vo_created_at = oo_accepted_at oo\<rparr>)"

record paper_adapter_state =
  ps_acknowledged_orders :: "venue_order_id set"
  ps_orderbooks :: "market_id \<rightharpoonup> orderbook_snapshot"
  ps_open_orders :: "venue_order_id \<rightharpoonup> paper_open_order"
  ps_idempotency_cache :: "client_order_id \<rightharpoonup> venue_order_ack"
  ps_post_ack_actions :: "venue_order_id \<rightharpoonup> post_ack_actions"

definition paper_adapter_state_default :: paper_adapter_state where
  "paper_adapter_state_default = \<lparr>ps_acknowledged_orders = {}, ps_orderbooks = Map.empty,
     ps_open_orders = Map.empty, ps_idempotency_cache = Map.empty, ps_post_ack_actions = Map.empty\<rparr>"

record subscriber =
  sb_received :: "venue_fill list"
  sb_closed :: bool

record paper_adapter =
  pa_config :: paper_adapter_config
  pa_connection_health :: venue_connection_health
  pa_capabilities :: venue_capabilities
  pa_fill_simulator :: fill_simulator
  pa_fee_model :: fee_model
  pa_state :: paper_adapter_state
  pa_fill_subscribers :: "subscriber list"

definition paper_adapter_new ::
  "paper_adapter_config \<Rightarrow> fill_simulator \<Rightarrow> fee_model \<Rightarrow> paper_adapter"
where
  "paper_adapter_new config sim fm =
     \<lparr>pa_config = config,
      pa_connection_health = venue_health_new (pc_venue_id config),
      pa_capabilities = \<lparr>vc_venue_id = pc_venue_id config, vc_supports_market_orders = True,
        vc_supports_limit_orders = True, vc_supports_stop_market = False,
        vc_supports_stop_limit = False, vc_supports_trailing_stop = False, vc_supports_oco = False,
        vc_supports_amendment = False, vc_supports_reduce_only = True, vc_supports_post_only = True,
        vc_max_batch_size = Some 1\<rparr>,
      pa_fill_simulator = sim, pa_fee_model = fm, pa_state = paper_adapter_state_default,
      pa_fill_subscribers = []\<rparr>"

text \<open>The updated adapter and the result of an operation, or a panic.\<close>

type_synonym 'a paper_result = "(paper_adapter \<times> (gateway_error + 'a)) option"

subsection \<open>Delivery of fills\<close>

definition broadcast_fill :: "paper_adapter \<Rightarrow> venue_fill \<Rightarrow> paper_adapter" where
  "broadcast_fill pa f =
     pa\<lparr>pa_fill_subscribers := filter (\<lambda>sb. \<not> sb_closed sb)
        (map (\<lambda>sb. if sb_closed sb then sb else sb\<lparr>sb_received := sb_received sb @ [f]\<rparr>)
           (pa_fill_subscribers pa))\<rparr>"

definition venue_fill_of :: "client_order_id \<Rightarrow> fill \<Rightarrow> venue_fill" where
  "venue_fill_of c f = \<lparr>vf_venue_order_id = fi_venue_order_id f, vf_client_order_id = c,
     vf_instrument_id = fi_instrument_id f, vf_side = fi_side f, vf_qty = fi_qty f,
     vf_price = fi_price f, vf_fee = fi_fee f, vf_is_maker = fi_is_maker f,
     vf_filled_at = fi_filled_at f\<rparr>"

subsection \<open>Validation and pricing\<close>

definition validate_submission :: "paper_adapter \<Rightarrow> order_submission \<Rightarrow> gateway_error + unit" where
  "validate_submission pa sub =
     (if os_venue_id sub \<noteq> pc_venue_id (pa_config pa)
      then Inl (GwValidation [PStr ''paper adapter '', PStr (venue_id_str (pc_venue_id (pa_config pa))),
             PStr '' cannot accept order for venue '', PStr (venue_id_str (os_venue_id sub))])
      else if \<not> (os_order_type sub = Market \<or> os_order_type sub = Limit)
      then Inl (GwUnsupported [PStr ''paper adapter does not support order type '',
             PStr (order_type_display (os_order_type sub))])
      else if (case os_time_in_force sub of GTD _ \<Rightarrow> True | _ \<Rightarrow> False)
      then Inl (GwUnsupported (lit ''paper adapter does not support GTD expiry handling yet''))
      else if os_order_type sub = Limit \<and> os_price sub = None
      then Inl (GwValidation (lit ''limit order missing price''))
      else Inr ())"

definition order_core_from_submission :: "order_submission \<Rightarrow> datetime \<Rightarrow> decimal \<Rightarrow> order_core" where
  "order_core_from_submission sub created_at qty =
     \<lparr>oc_id = os_order_id sub, oc_basket_id = None, oc_agent_id = os_agent_id sub,
      oc_instrument_id = os_instrument_id sub, oc_market_id = os_market_id sub,
      oc_venue_id = os_venue_id sub, oc_side = os_side sub, oc_order_type = os_order_type sub,
      oc_time_in_force = os_time_in_force sub, oc_qty = qty, oc_price = os_price sub,
      oc_trigger_price = os_trigger_price sub, oc_stop_loss = os_stop_loss sub,
      oc_take_profit = os_take_profit sub, oc_post_only = os_post_only sub,
      oc_reduce_only = os_reduce_only sub, oc_dry_run = os_dry_run sub,
      oc_exec_hint = os_exec_hint sub, oc_created_at = created_at\<rparr>"

text \<open>
  The loop of \<open>collect_repriced_fills\<close>. The orders are updated in place, so the state is also
  returned with an error; the fills collected so far are dropped with it.
\<close>

fun reprice_loop ::
  "ext \<Rightarrow> paper_adapter \<Rightarrow> orderbook_snapshot \<Rightarrow> venue_order_id list \<Rightarrow> paper_adapter_state \<Rightarrow>
   venue_fill list \<Rightarrow> (paper_adapter_state \<times> (gateway_error + venue_fill list)) option"
where
  "reprice_loop X pa snapshot [] st fills = Some (st, Inr fills)"
| "reprice_loop X pa snapshot (v # vs) st fills = (case ps_open_orders st v of
       None \<Rightarrow> reprice_loop X pa snapshot vs st fills
     | Some existing \<Rightarrow> do {
         remaining_qty \<leftarrow> open_remaining_qty X existing;
         if remaining_qty \<le> 0
         then reprice_loop X pa snapshot vs
                (st\<lparr>ps_open_orders := (ps_open_orders st)(v := None)\<rparr>) fills
         else do {
           r \<leftarrow> pa_fill_simulator pa
             (order_core_from_submission (oo_submission existing) (oo_accepted_at existing) remaining_qty)
             v snapshot (pa_fee_model pa);
           (case r of
              Inl e \<Rightarrow> Some (st, Inl e)
            | Inr Resting \<Rightarrow> reprice_loop X pa snapshot vs st fills
            | Inr (Executed sf) \<Rightarrow> do {
                let f = (venue_fill_of (os_client_order_id (oo_submission existing)) (sf_fill sf))
                  \<lparr>vf_venue_order_id := v\<rparr>;
                new_filled_qty \<leftarrow> dec_add X (oo_filled_qty existing) (fi_qty (sf_fill sf));
                reprice_loop X pa snapshot vs
                  (st\<lparr>ps_open_orders := (ps_open_orders st)(v :=
                     if is_complete sf then None
                     else Some (existing\<lparr>oo_filled_qty := new_filled_qty\<rparr>))\<rparr>)
                  (fills @ [f]) }) } })"

definition collect_repriced_fills ::
  "ext \<Rightarrow> paper_adapter \<Rightarrow> venue_order_id list \<Rightarrow> orderbook_snapshot \<Rightarrow> paper_adapter_state \<Rightarrow>
   (paper_adapter_state \<times> (gateway_error + venue_fill list)) option"
where
  "collect_repriced_fills X pa keys snapshot st =
     reprice_loop X pa snapshot
       (filter (\<lambda>v. case ps_open_orders st v of
            Some order \<Rightarrow> os_market_id (oo_submission order) = ob_market_id snapshot
          | None \<Rightarrow> False) keys)
       st []"

text \<open>The part of \<open>replace_orderbook\<close> under the lock of the state: the fills are still to be sent.\<close>

definition book_section ::
  "ext \<Rightarrow> venue_order_id list \<Rightarrow> paper_adapter \<Rightarrow> orderbook_snapshot \<Rightarrow> venue_fill list paper_result"
where
  "book_section X keys pa snapshot =
     (if ob_venue_id snapshot \<noteq> pc_venue_id (pa_config pa)
      then Some (pa, Inl (GwValidation
             [PStr ''paper adapter for '', PStr (venue_id_str (pc_venue_id (pa_config pa))),
              PStr '' cannot ingest snapshot for '', PStr (venue_id_str (ob_venue_id snapshot))]))
      else (case validate_book snapshot of
          Inl err \<Rightarrow> Some (pa, Inl (GwValidation (market_data_error_display err)))
        | Inr _ \<Rightarrow> do {
            let st = (pa_state pa)\<lparr>ps_orderbooks :=
              (ps_orderbooks (pa_state pa))(ob_market_id snapshot \<mapsto> snapshot)\<rparr>;
            (st', r) \<leftarrow> collect_repriced_fills X pa keys snapshot st;
            Some (pa\<lparr>pa_state := st'\<rparr>, r) }))"

definition replace_orderbook ::
  "ext \<Rightarrow> venue_order_id list \<Rightarrow> paper_adapter \<Rightarrow> orderbook_snapshot \<Rightarrow> unit paper_result"
where
  "replace_orderbook X keys pa snapshot = do {
     (pa', r) \<leftarrow> book_section X keys pa snapshot;
     Some (case r of
         Inl e \<Rightarrow> (pa', Inl e)
       | Inr fills \<Rightarrow> (foldl broadcast_fill pa' fills, Inr ())) }"

subsection \<open>Submission\<close>

text \<open>\<open>idempotency_cache.insert\<close> and \<open>acknowledged_orders.insert\<close>, which always occur together.\<close>

definition acknowledge :: "venue_order_ack \<Rightarrow> paper_adapter_state \<Rightarrow> paper_adapter_state" where
  "acknowledge ack st = st\<lparr>
     ps_idempotency_cache := (ps_idempotency_cache st)(vk_client_order_id ack \<mapsto> ack),
     ps_acknowledged_orders := insert (vk_venue_order_id ack) (ps_acknowledged_orders st)\<rparr>"

definition queue_actions ::
  "venue_order_id \<Rightarrow> post_ack_actions \<Rightarrow> paper_adapter_state \<Rightarrow> paper_adapter_state"
where
  "queue_actions v actions st =
     st\<lparr>ps_post_ack_actions := (ps_post_ack_actions st)(v \<mapsto> actions)\<rparr>"

definition open_order ::
  "venue_order_id \<Rightarrow> paper_open_order \<Rightarrow> paper_adapter_state \<Rightarrow> paper_adapter_state"
where
  "open_order v oo st = st\<lparr>ps_open_orders := (ps_open_orders st)(v \<mapsto> oo)\<rparr>"

definition fok_reason :: msg where
  "fok_reason = lit ''FOK order could not be fully filled on paper adapter''"

text \<open>The arm for an order that rests: the acknowledgement is recorded before the time in force is
  looked at.\<close>

definition submit_resting ::
  "order_submission \<Rightarrow> venue_order_ack \<Rightarrow> paper_adapter_state \<Rightarrow>
   paper_adapter_state \<times> (gateway_error + venue_order_ack)"
where
  "submit_resting sub ack st =
     (let v = vk_venue_order_id ack; st = acknowledge ack st in
      case os_time_in_force sub of
        GTC \<Rightarrow> (queue_actions v post_ack_actions_default
                  (open_order v \<lparr>oo_submission = sub, oo_venue_order_id = v,
                     oo_accepted_at = vk_accepted_at ack, oo_filled_qty = 0\<rparr> st), Inr ack)
      | IOC \<Rightarrow> (queue_actions v \<lparr>pk_fills = [], pk_cancellation_reason =
                   Some (lit ''IOC order received no immediate fill on paper adapter'')\<rparr> st, Inr ack)
      | FOK \<Rightarrow> (st, Inl (GwVenueRejected fok_reason))
      | GTD _ \<Rightarrow> (st, Inl (GwUnsupported
                   (lit ''paper adapter does not support GTD expiry handling yet''))))"

definition submit_executed ::
  "order_submission \<Rightarrow> venue_order_ack \<Rightarrow> simulated_fill \<Rightarrow> paper_adapter_state \<Rightarrow>
   paper_adapter_state \<times> (gateway_error + venue_order_ack)"
where
  "submit_executed sub ack sf st =
     (let v = vk_venue_order_id ack;
          fills = [\<lparr>pf_client_order_id = vk_client_order_id ack, pf_fill = sf_fill sf\<rparr>]
      in if \<not> is_complete sf
         then (if os_time_in_force sub = GTC \<and> os_order_type sub = Limit
               then (queue_actions v \<lparr>pk_fills = fills, pk_cancellation_reason = None\<rparr>
                       (open_order v \<lparr>oo_submission = sub, oo_venue_order_id = v,
                          oo_accepted_at = vk_accepted_at ack, oo_filled_qty = fi_qty (sf_fill sf)\<rparr>
                          (acknowledge ack st)), Inr ack)
               else if os_time_in_force sub = IOC
               then (queue_actions v \<lparr>pk_fills = fills, pk_cancellation_reason =
                        Some (lit ''IOC residual quantity cancelled on paper adapter'')\<rparr>
                       (acknowledge ack st), Inr ack)
               else if os_time_in_force sub = FOK
               then (st, Inl (GwVenueRejected fok_reason))
               else (st, Inl (GwVenueRejected
                       ([PStr ''paper adapter only supports partial execution for GTC limit or IOC orders; '',
                         PStr (order_type_display (os_order_type sub)), PStr '' ''] @
                        time_in_force_display (os_time_in_force sub) @
                        [PStr '' left '', PDec (sf_remaining_qty sf), PStr '' unfilled'']))))
         else (queue_actions v \<lparr>pk_fills = fills, pk_cancellation_reason = None\<rparr>
                 (acknowledge ack st), Inr ack))"

definition paper_venue_order_id :: "client_order_id \<Rightarrow> venue_order_id" where
  "paper_venue_order_id c = VenueOrderId (''paper-'' @ client_order_id_str c)"

text \<open>
  The sections of \<open>submit_order\<close>. The first answers at once if the venue is not connected, the order
  is invalid or its client order id is known; the second reads the book; the third records the
  outcome of the simulation on that book.
\<close>

definition submit_check ::
  "paper_adapter \<Rightarrow> order_submission \<Rightarrow> (gateway_error + venue_order_ack) option"
where
  "submit_check pa sub =
     (if \<not> is_submittable (pa_connection_health pa)
      then Some (Inl (GwVenueNotConnected (venue_id_str (pc_venue_id (pa_config pa)))
             (connection_state_debug (vh_state (pa_connection_health pa)))))
      else (case validate_submission pa sub of
          Inl e \<Rightarrow> Some (Inl e)
        | Inr _ \<Rightarrow> map_option Inr (ps_idempotency_cache (pa_state pa) (os_client_order_id sub))))"

definition submit_book :: "paper_adapter \<Rightarrow> order_submission \<Rightarrow> gateway_error + orderbook_snapshot" where
  "submit_book pa sub = (case ps_orderbooks (pa_state pa) (os_market_id sub) of
       None \<Rightarrow> Inl (GwPriceUnavailable (instrument_id_str (os_instrument_id sub)))
     | Some book \<Rightarrow> Inr book)"

definition submit_record ::
  "paper_adapter \<Rightarrow> order_submission \<Rightarrow> orderbook_snapshot \<Rightarrow> venue_order_ack paper_result"
where
  "submit_record pa sub book = do {
     let accepted_at = ob_received_at book;
     let v = paper_venue_order_id (os_client_order_id sub);
     let ack = \<lparr>vk_venue_order_id = v, vk_client_order_id = os_client_order_id sub,
       vk_accepted_at = accepted_at\<rparr>;
     r \<leftarrow> pa_fill_simulator pa (order_core_from_submission sub accepted_at (os_qty sub)) v
       book (pa_fee_model pa);
     Some (case r of
         Inl e \<Rightarrow> (pa, Inl e)
       | Inr Resting \<Rightarrow>
           (let (st, res) = submit_resting sub ack (pa_state pa) in (pa\<lparr>pa_state := st\<rparr>, res))
       | Inr (Executed sf) \<Rightarrow>
           if os_post_only sub
           then (pa, Inl (GwVenueRejected
                   (lit ''post-only order would take liquidity on paper adapter'')))
           else (let (st, res) = submit_executed sub ack sf (pa_state pa)
                 in (pa\<lparr>pa_state := st\<rparr>, res))) }"

definition submit_order :: "paper_adapter \<Rightarrow> order_submission \<Rightarrow> venue_order_ack paper_result" where
  "submit_order pa sub = (case submit_check pa sub of
       Some answer \<Rightarrow> Some (pa, answer)
     | None \<Rightarrow> (case submit_book pa sub of
         Inl e \<Rightarrow> Some (pa, Inl e)
       | Inr book \<Rightarrow> submit_record pa sub book))"

lemmas submit_order_defs = submit_order_def submit_check_def submit_book_def submit_record_def

subsection \<open>The other operations of the adapter\<close>

text \<open>The part of \<open>take_post_ack_actions\<close> under the lock, and the fills that it broadcasts afterwards.\<close>

definition take_section ::
  "paper_adapter \<Rightarrow> venue_order_id \<Rightarrow> paper_adapter \<times> (gateway_error + post_ack_actions)"
where
  "take_section pa v =
     (let st = pa_state pa in
      case ps_post_ack_actions st v of
        Some actions \<Rightarrow>
          (pa\<lparr>pa_state := st\<lparr>ps_post_ack_actions := (ps_post_ack_actions st)(v := None)\<rparr>\<rparr>, Inr actions)
      | None \<Rightarrow> (pa, if v \<in> ps_acknowledged_orders st then Inr post_ack_actions_default
                     else Inl (GwOrderNotFound (venue_order_id_str v))))"

definition queued_fills :: "post_ack_actions \<Rightarrow> venue_fill list" where
  "queued_fills actions = map (\<lambda>q. venue_fill_of (pf_client_order_id q) (pf_fill q)) (pk_fills actions)"

definition take_post_ack_actions ::
  "paper_adapter \<Rightarrow> venue_order_id \<Rightarrow> paper_adapter \<times> (gateway_error + post_ack_actions)"
where
  "take_post_ack_actions pa v = (case take_section pa v of
       (pa', Inl e) \<Rightarrow> (pa', Inl e)
     | (pa', Inr actions) \<Rightarrow> (foldl broadcast_fill pa' (queued_fills actions), Inr actions))"

definition cancel_order :: "paper_adapter \<Rightarrow> venue_order_id \<Rightarrow> paper_adapter \<times> (gateway_error + unit)" where
  "cancel_order pa v = (case ps_open_orders (pa_state pa) v of
       Some _ \<Rightarrow> (pa\<lparr>pa_state := (pa_state pa)\<lparr>ps_open_orders :=
                      (ps_open_orders (pa_state pa))(v := None)\<rparr>\<rparr>, Inr ())
     | None \<Rightarrow> (pa, Inl (GwOrderNotFound (venue_order_id_str v))))"

definition amend_order ::
  "paper_adapter \<Rightarrow> venue_order_id \<Rightarrow> decimal option \<Rightarrow> decimal option \<Rightarrow> gateway_error + venue_order_ack"
where
  "amend_order pa v new_price new_qty =
     Inl (GwUnsupported (lit ''paper adapter does not support amendments yet''))"

definition query_positions :: "paper_adapter \<Rightarrow> gateway_error + venue_position list" where
  "query_positions pa = Inl (GwUnsupported
     (lit ''paper adapter does not own paper positions; query the sequencer state instead''))"

definition query_open_orders ::
  "venue_order_id list \<Rightarrow> paper_adapter \<Rightarrow> gateway_error + venue_open_order list"
where
  "query_open_orders keys pa =
     Inr (map as_open_order (List.map_filter (ps_open_orders (pa_state pa)) keys))"

definition query_balance :: "paper_adapter \<Rightarrow> gateway_error + venue_balance" where
  "query_balance pa = Inl (GwUnsupported (lit ''paper adapter does not model balances yet''))"

text \<open>A channel of capacity zero cannot be created.\<close>

definition subscribe_fills :: "paper_adapter \<Rightarrow> paper_adapter option" where
  "subscribe_fills pa = (if pc_fill_channel_capacity (pa_config pa) = 0 then None
     else Some (pa\<lparr>pa_fill_subscribers :=
       pa_fill_subscribers pa @ [\<lparr>sb_received = [], sb_closed = False\<rparr>]\<rparr>))"

definition connect :: "paper_adapter \<Rightarrow> datetime \<Rightarrow> paper_adapter" where
  "connect pa now = pa\<lparr>pa_connection_health := (pa_connection_health pa)
     \<lparr>vh_state := Connected, vh_last_message_at := Some now, vh_last_heartbeat_at := Some now,
      vh_connected_since := Some now\<rparr>\<rparr>"

definition disconnect :: "paper_adapter \<Rightarrow> paper_adapter" where
  "disconnect pa = pa\<lparr>pa_connection_health := (pa_connection_health pa)
     \<lparr>vh_state := Disconnected, vh_connected_since := None\<rparr>\<rparr>"

subsection \<open>Histories of the adapter\<close>

datatype paper_op =
    POpBook "venue_order_id list" orderbook_snapshot
  | POpSubmit order_submission
  | POpTake venue_order_id
  | POpCancel venue_order_id
  | POpSubscribe
  | POpConnect datetime
  | POpDisconnect

fun paper_step :: "ext \<Rightarrow> paper_op \<Rightarrow> paper_adapter \<Rightarrow> paper_adapter option" where
  "paper_step X (POpBook keys b) pa = map_option fst (replace_orderbook X keys pa b)"
| "paper_step X (POpSubmit sub) pa = map_option fst (submit_order pa sub)"
| "paper_step X (POpTake v) pa = Some (fst (take_post_ack_actions pa v))"
| "paper_step X (POpCancel v) pa = Some (fst (cancel_order pa v))"
| "paper_step X POpSubscribe pa = subscribe_fills pa"
| "paper_step X (POpConnect now) pa = Some (connect pa now)"
| "paper_step X POpDisconnect pa = Some (disconnect pa)"

fun paper_run :: "ext \<Rightarrow> paper_op list \<Rightarrow> paper_adapter \<Rightarrow> paper_adapter option" where
  "paper_run X [] pa = Some pa"
| "paper_run X (op # ops) pa = do { pa' \<leftarrow> paper_step X op pa; paper_run X ops pa' }"

text \<open>
  The quantities of a client order: received by one subscriber, queued behind the
  acknowledgement, and the most that may have been filled by now. \<open>Q\<close> is the quantity under
  which each client order id is submitted.
\<close>

definition received_qty :: "venue_fill list \<Rightarrow> client_order_id \<Rightarrow> decimal" where
  "received_qty fs c = (\<Sum>f\<leftarrow>fs. if vf_client_order_id f = c then vf_qty f else 0)"

definition queued_qty :: "paper_adapter_state \<Rightarrow> client_order_id \<Rightarrow> decimal" where
  "queued_qty st c = (case ps_post_ack_actions st (paper_venue_order_id c) of
       None \<Rightarrow> 0 | Some a \<Rightarrow> (\<Sum>q\<leftarrow>pk_fills a. fi_qty (pf_fill q)))"

definition filled_bound ::
  "(client_order_id \<Rightarrow> decimal) \<Rightarrow> paper_adapter_state \<Rightarrow> client_order_id \<Rightarrow> decimal"
where
  "filled_bound Q st c = (case ps_open_orders st (paper_venue_order_id c) of
       Some oo \<Rightarrow> oo_filled_qty oo
     | None \<Rightarrow> if ps_idempotency_cache st c = None then 0 else Q c)"

definition covered ::
  "(client_order_id \<Rightarrow> decimal) \<Rightarrow> paper_adapter_state \<Rightarrow> venue_fill list \<Rightarrow> bool"
where
  "covered Q st fs \<longleftrightarrow> (\<forall>c. received_qty fs c + queued_qty st c \<le> filled_bound Q st c)"

definition open_ok ::
  "(decimal \<Rightarrow> bool) \<Rightarrow> (client_order_id \<Rightarrow> decimal) \<Rightarrow> venue_order_id \<Rightarrow> paper_open_order \<Rightarrow> bool"
where
  "open_ok lot Q v oo \<longleftrightarrow>
     (let c = os_client_order_id (oo_submission oo) in
      v = paper_venue_order_id c \<and> os_qty (oo_submission oo) = Q c \<and> lot (Q c) \<and>
      lot (oo_filled_qty oo) \<and> oo_filled_qty oo \<le> Q c)"

definition actions_ok :: "venue_order_id \<Rightarrow> post_ack_actions \<Rightarrow> bool" where
  "actions_ok v a \<longleftrightarrow> (\<forall>q \<in> set (pk_fills a).
     v = paper_venue_order_id (pf_client_order_id q) \<and> 0 \<le> fi_qty (pf_fill q))"

definition paper_state_ok ::
  "(decimal \<Rightarrow> bool) \<Rightarrow> (orderbook_snapshot \<Rightarrow> bool) \<Rightarrow> (client_order_id \<Rightarrow> decimal) \<Rightarrow>
   paper_adapter_state \<Rightarrow> bool"
where
  "paper_state_ok lot good_book Q st \<longleftrightarrow>
     (\<forall>m b. ps_orderbooks st m = Some b \<longrightarrow> good_book b) \<and>
     (\<forall>v oo. ps_open_orders st v = Some oo \<longrightarrow> open_ok lot Q v oo \<and>
        ps_idempotency_cache st (os_client_order_id (oo_submission oo)) \<noteq> None) \<and>
     (\<forall>v a. ps_post_ack_actions st v = Some a \<longrightarrow> actions_ok v a) \<and>
     (\<forall>c. ps_idempotency_cache st c = None \<longrightarrow> ps_post_ack_actions st (paper_venue_order_id c) = None) \<and>
     (\<forall>c ack. ps_idempotency_cache st c = Some ack \<longrightarrow> 0 \<le> Q c)"

definition example_submission :: order_submission where
  "example_submission = \<lparr>os_order_id = OrderId ''ord-paper-1'',
     os_client_order_id = ClientOrderId ''athena-1-0-0'', os_agent_id = AgentId ''athena'',
     os_instrument_id = InstrumentId ''BTC'', os_market_id = MarketId ''BTCUSDT'',
     os_venue_id = VenueId ''paper'', os_side = Buy, os_order_type = Limit, os_time_in_force = GTC,
     os_qty = 2, os_price = Some 10010, os_trigger_price = None, os_stop_loss = None,
     os_take_profit = None, os_post_only = False, os_reduce_only = False, os_dry_run = True,
     os_exec_hint = exec_hint_default\<rparr>"

definition example_adapter :: paper_adapter where
  "example_adapter = paper_adapter_new (paper_adapter_config_new (VenueId ''paper''))
     (simulate ideal_ext) zero_fee_model"

text \<open>A connected adapter with a subscriber and a book.\<close>

definition ready_adapter :: paper_adapter where
  "ready_adapter = (connect example_adapter 0)
     \<lparr>pa_fill_subscribers := [\<lparr>sb_received = [], sb_closed = False\<rparr>], pa_state := paper_adapter_state_default
        \<lparr>ps_orderbooks := [MarketId ''BTCUSDT'' \<mapsto> example_orderbook]\<rparr>\<rparr>"

text \<open>Two resting orders, the second of which the fee model cannot price.\<close>

definition second_submission :: order_submission where
  "second_submission = example_submission\<lparr>os_order_id := OrderId ''ord-paper-2'',
     os_client_order_id := ClientOrderId ''athena-1-0-1''\<rparr>"

definition partial_fee_model :: fee_model where
  "partial_fee_model = zero_fee_model\<lparr>fm_calculate := (\<lambda>f.
     if fi_order_id f = OrderId ''ord-paper-2'' then Inl (NoSchedule (VenueId ''paper''))
     else fm_calculate zero_fee_model f)\<rparr>"

definition resting :: "order_submission \<Rightarrow> paper_open_order" where
  "resting sub = \<lparr>oo_submission = sub\<lparr>os_qty := 1\<rparr>,
     oo_venue_order_id = paper_venue_order_id (os_client_order_id sub), oo_accepted_at = 0,
     oo_filled_qty = 0\<rparr>"

definition resting_adapter :: paper_adapter where
  "resting_adapter = ready_adapter\<lparr>pa_fee_model := partial_fee_model,
     pa_state := (pa_state ready_adapter)\<lparr>ps_open_orders :=
       [paper_venue_order_id (os_client_order_id example_submission) \<mapsto> resting example_submission,
        paper_venue_order_id (os_client_order_id second_submission) \<mapsto> resting second_submission]\<rparr>\<rparr>"

subsection \<open>Elementary facts\<close>

lemma paper_venue_order_id_inject [simp]: "paper_venue_order_id c = paper_venue_order_id d \<longleftrightarrow> c = d"
  by (cases c; cases d) (simp add: paper_venue_order_id_def)

lemma received_qty_simps [simp]:
  "received_qty [] c = 0"
  "received_qty (fs @ gs) c = received_qty fs c + received_qty gs c"
  "received_qty [f] c = (if vf_client_order_id f = c then vf_qty f else 0)"
  by (simp_all add: received_qty_def)

lemma received_qty_nonneg: "\<forall>f \<in> set fs. 0 \<le> vf_qty f \<Longrightarrow> 0 \<le> received_qty fs c"
  by (auto simp: received_qty_def intro!: sum_list_nonneg)

lemma covered_prefix:
  assumes "\<forall>f \<in> set gs. 0 \<le> vf_qty f" and "covered Q st (fs @ gs)"
  shows "covered Q st fs"
  unfolding covered_def
proof
  fix c
  show "received_qty fs c + queued_qty st c \<le> filled_bound Q st c"
    using received_qty_nonneg [OF assms(1), of c] assms(2) [unfolded covered_def, rule_format, of c] by simp
qed

lemma broadcast_frame [simp]:
  "pa_fill_simulator (broadcast_fill pa f) = pa_fill_simulator pa"
  "pa_state (broadcast_fill pa f) = pa_state pa"
  "pa_connection_health (broadcast_fill pa f) = pa_connection_health pa"
  "pa_config (broadcast_fill pa f) = pa_config pa"
  by (simp_all add: broadcast_fill_def)

lemma broadcast_all_frame [simp]:
  "pa_fill_simulator (foldl broadcast_fill pa fs) = pa_fill_simulator pa"
  "pa_state (foldl broadcast_fill pa fs) = pa_state pa"
  "pa_connection_health (foldl broadcast_fill pa fs) = pa_connection_health pa"
  "pa_config (foldl broadcast_fill pa fs) = pa_config pa"
  by (induction fs arbitrary: pa) simp_all

text \<open>Every remaining subscriber has received all fills of a broadcast, in order.\<close>

lemma broadcast_all_received:
  "sb \<in> set (pa_fill_subscribers (foldl broadcast_fill pa fs)) \<Longrightarrow>
   \<exists>old \<in> set (pa_fill_subscribers pa). sb_received sb = sb_received old @ fs"
proof (induction fs arbitrary: pa)
  case (Cons f fs)
  then obtain old where old: "old \<in> set (pa_fill_subscribers (broadcast_fill pa f))"
    "sb_received sb = sb_received old @ fs" by auto
  from old(1) obtain old' where "old' \<in> set (pa_fill_subscribers pa)" "sb_received old = sb_received old' @ [f]"
    by (auto simp: broadcast_fill_def split: if_splits)
  with old(2) show ?case by auto
qed auto

subsection \<open>Preservation\<close>

lemma paper_state_okD:
  assumes "paper_state_ok lot good_book Q st"
  shows "ps_orderbooks st m = Some b \<Longrightarrow> good_book b"
    and "ps_open_orders st v = Some oo \<Longrightarrow> open_ok lot Q v oo"
    and "ps_open_orders st v = Some oo \<Longrightarrow> ps_idempotency_cache st (os_client_order_id (oo_submission oo)) \<noteq> None"
    and "ps_post_ack_actions st v = Some a \<Longrightarrow> actions_ok v a"
    and "ps_idempotency_cache st c = None \<Longrightarrow> ps_post_ack_actions st (paper_venue_order_id c) = None"
    and "ps_idempotency_cache st c = None \<Longrightarrow> ps_open_orders st (paper_venue_order_id c) = None"
proof -
  show "ps_open_orders st (paper_venue_order_id c) = None" if "ps_idempotency_cache st c = None"
  proof (rule ccontr)
    assume "ps_open_orders st (paper_venue_order_id c) \<noteq> None"
    then obtain oo where oo: "ps_open_orders st (paper_venue_order_id c) = Some oo" by blast
    with assms have "open_ok lot Q (paper_venue_order_id c) oo"
      "ps_idempotency_cache st (os_client_order_id (oo_submission oo)) \<noteq> None"
      unfolding paper_state_ok_def by blast+
    with that show False by (auto simp: open_ok_def Let_def)
  qed
qed (use assms in \<open>unfold paper_state_ok_def, blast+\<close>)

text \<open>An order leaves the book: the most that may have been filled is its quantity.\<close>

lemma close_order_ok:
  assumes "paper_state_ok lot good_book Q st" and "ps_open_orders st v = Some oo"
  defines "st' \<equiv> st\<lparr>ps_open_orders := (ps_open_orders st)(v := None)\<rparr>"
  shows "paper_state_ok lot good_book Q st'" and "covered Q st fs \<Longrightarrow> covered Q st' fs"
proof -
  show "paper_state_ok lot good_book Q st'" using assms(1) by (auto simp: st'_def paper_state_ok_def)
  note oo = paper_state_okD(2,3) [OF assms(1,2)]
  have "filled_bound Q st c \<le> filled_bound Q st' c" for c
    using assms(2) oo by (auto simp: st'_def filled_bound_def open_ok_def Let_def split: option.split)
  moreover have "queued_qty st' c = queued_qty st c" for c by (simp add: st'_def queued_qty_def)
  ultimately show "covered Q st' fs" if "covered Q st fs"
    using that by (auto simp: covered_def intro: order_trans)
qed

text \<open>An open order is filled further.\<close>

lemma fill_order_ok:
  assumes "paper_state_ok lot good_book Q st" and "ps_open_orders st v = Some oo"
    and "lot (oo_filled_qty oo + q)" and "oo_filled_qty oo + q \<le> Q (os_client_order_id (oo_submission oo))"
    and "vf_client_order_id f = os_client_order_id (oo_submission oo)" and "vf_qty f = q"
  defines "st' \<equiv> st\<lparr>ps_open_orders := (ps_open_orders st)(v \<mapsto> oo\<lparr>oo_filled_qty := oo_filled_qty oo + q\<rparr>)\<rparr>"
  shows "paper_state_ok lot good_book Q st'" and "covered Q st fs \<Longrightarrow> covered Q st' (fs @ [f])"
proof -
  note oo = paper_state_okD(2,3) [OF assms(1,2)]
  show "paper_state_ok lot good_book Q st'"
    using assms(1,3,4) oo by (auto simp: st'_def paper_state_ok_def open_ok_def Let_def)
  have v: "v = paper_venue_order_id (os_client_order_id (oo_submission oo))"
    using oo(1) by (simp add: open_ok_def Let_def)
  have "filled_bound Q st' c = filled_bound Q st c + received_qty [f] c" for c
    using assms(2,5,6) v by (auto simp: st'_def filled_bound_def)
  moreover have "queued_qty st' c = queued_qty st c" for c by (simp add: st'_def queued_qty_def)
  ultimately show "covered Q st' (fs @ [f])" if "covered Q st fs"
    using that by (auto simp: covered_def algebra_simps simp del: received_qty_simps(3))
qed

context lot_simulator
begin

lemma open_remaining_exact:
  assumes "open_ok lot Q v oo"
  shows "open_remaining_qty X oo = Some (Q (os_client_order_id (oo_submission oo)) - oo_filled_qty oo)"
    and "lot (Q (os_client_order_id (oo_submission oo)) - oo_filled_qty oo)"
  using assms lot_sub by (auto simp: open_ok_def open_remaining_qty_def Let_def)

lemma reprice_ok:
  assumes "reprice_loop X pa snapshot vs st fills = Some (st', r)"
    and "paper_state_ok lot good_book Q st" and "pa_fill_simulator pa = sim" and "good_book snapshot"
    and "\<forall>f \<in> set fills. 0 \<le> vf_qty f"
  shows "paper_state_ok lot good_book Q st' \<and>
    (\<forall>f \<in> set (case r of Inl _ \<Rightarrow> [] | Inr fs \<Rightarrow> fs). 0 \<le> vf_qty f) \<and>
    (\<forall>rs. covered Q st (rs @ fills) \<longrightarrow> covered Q st' (rs @ (case r of Inl _ \<Rightarrow> [] | Inr fs \<Rightarrow> fs)))"
  using assms
proof (induction vs arbitrary: st fills)
  case Nil
  then show ?case by auto
next
  case (Cons v vs)
  show ?case
  proof (cases "ps_open_orders st v")
    case None
    with Cons show ?thesis by simp
  next
    case (Some oo)
    let ?c = "os_client_order_id (oo_submission oo)" and ?rem = "Q (os_client_order_id (oo_submission oo)) - oo_filled_qty oo"
    let ?closed = "st\<lparr>ps_open_orders := (ps_open_orders st)(v := None)\<rparr>"
    note oo = paper_state_okD(2) [OF Cons.prems(2) Some]
    note rem = open_remaining_exact [OF oo]
    note close = close_order_ok [OF Cons.prems(2) Some]
    show ?thesis
    proof (cases "?rem \<le> 0")
      case True
      then have "reprice_loop X pa snapshot vs ?closed fills = Some (st', r)"
        using Cons.prems(1) Some rem(1) by simp
      from Cons.IH [OF this close(1) Cons.prems(3-5)] close(2) show ?thesis by auto
    next
      case False
      let ?core = "order_core_from_submission (oo_submission oo) (oo_accepted_at oo) ?rem"
      obtain s where s: "sim ?core v snapshot (pa_fee_model pa) = Some s"
        using Cons.prems(1,3) Some rem(1) False by (auto simp: bind_Some_iff)
      consider e where "s = Inl e" | "s = Inr Resting" | sf where "s = Inr (Executed sf)"
        by (metis fill_simulation_outcome.exhaust sum.exhaust)
      then show ?thesis
      proof cases
        case 1
        with Cons.prems Some rem(1) False s show ?thesis by (auto intro: covered_prefix)
      next
        case 2
        then have "reprice_loop X pa snapshot vs st fills = Some (st', r)"
          using Cons.prems(1,3) Some rem(1) False s by simp
        from Cons.IH [OF this Cons.prems(2-5)] show ?thesis .
      next
        case (3 sf)
        have core: "oc_qty ?core = ?rem" by (simp add: order_core_from_submission_def)
        let ?q = "fi_qty (sf_fill sf)" and ?f = "(venue_fill_of ?c (sf_fill sf))\<lparr>vf_venue_order_id := v\<rparr>"
        have q: "0 < ?q" "?q \<le> ?rem" "lot ?q"
          using executed_split [of ?core snapshot v "pa_fee_model pa" sf] s 3 rem(2) Cons.prems(4)
          by (auto simp: core)
        have add: "dec_add X (oo_filled_qty oo) ?q = Some (oo_filled_qty oo + ?q)" "lot (oo_filled_qty oo + ?q)"
          using lot_add [of "oo_filled_qty oo" ?q "Q ?c"] oo q by (auto simp: open_ok_def Let_def)
        let ?st = "st\<lparr>ps_open_orders := (ps_open_orders st)(v \<mapsto> oo\<lparr>oo_filled_qty := oo_filled_qty oo + ?q\<rparr>)\<rparr>"
        have "oo_filled_qty oo + ?q \<le> Q ?c" using q(2) by simp
        note fill = fill_order_ok [OF Cons.prems(2) Some add(2) this, of ?f]
        have f: "vf_client_order_id ?f = ?c" "vf_qty ?f = ?q" by (simp_all add: venue_fill_of_def)
        note fill = fill [OF f]
        have pos: "\<forall>g \<in> set (fills @ [?f]). 0 \<le> vf_qty g" using Cons.prems(5) f(2) q(1) by auto
        have "reprice_loop X pa snapshot vs (if is_complete sf then ?closed else ?st) (fills @ [?f]) = Some (st', r)"
          using Cons.prems(1,3) Some rem(1) False s 3 add(1) by (simp split: if_splits)
        moreover have "paper_state_ok lot good_book Q (if is_complete sf then ?closed else ?st)"
          using close(1) fill(1) by simp
        ultimately have IH: "paper_state_ok lot good_book Q st' \<and>
            (\<forall>f \<in> set (case r of Inl _ \<Rightarrow> [] | Inr fs \<Rightarrow> fs). 0 \<le> vf_qty f) \<and>
            (\<forall>rs. covered Q (if is_complete sf then ?closed else ?st) (rs @ fills @ [?f]) \<longrightarrow>
               covered Q st' (rs @ (case r of Inl _ \<Rightarrow> [] | Inr fs \<Rightarrow> fs)))"
          using Cons.IH [OF _ _ Cons.prems(3,4) pos] by blast
        have "covered Q (if is_complete sf then ?closed else ?st) (rs @ fills @ [?f])"
          if "covered Q st (rs @ fills)" for rs
          using fill(2) [OF that] close_order_ok(2) [OF fill(1), of v] by simp
        with IH show ?thesis by blast
      qed
    qed
  qed
qed

end

text \<open>The three ways in which a submission ends.\<close>

abbreviation paper_ack :: "order_submission \<Rightarrow> orderbook_snapshot \<Rightarrow> venue_order_ack" where
  "paper_ack sub book \<equiv> \<lparr>vk_venue_order_id = paper_venue_order_id (os_client_order_id sub),
     vk_client_order_id = os_client_order_id sub, vk_accepted_at = ob_received_at book\<rparr>"

abbreviation paper_core :: "order_submission \<Rightarrow> orderbook_snapshot \<Rightarrow> order_core" where
  "paper_core sub book \<equiv> order_core_from_submission sub (ob_received_at book) (os_qty sub)"

lemma outcome_case_iff:
  "(case s of Resting \<Rightarrow> a | Executed sf \<Rightarrow> f sf) = y \<longleftrightarrow>
   s = Resting \<and> a = y \<or> (\<exists>sf. s = Executed sf \<and> f sf = y)"
  by (cases s) auto

lemma submit_record_cases:
  assumes "submit_record pa sub book = Some (pa', r)"
  obtains (refused) e where "pa' = pa" "r = Inl e"
  | (rests) "pa_fill_simulator pa (paper_core sub book) (paper_venue_order_id (os_client_order_id sub)) book
        (pa_fee_model pa) = Some (Inr Resting)"
      "pa' = pa\<lparr>pa_state := fst (submit_resting sub (paper_ack sub book) (pa_state pa))\<rparr>"
      "r = snd (submit_resting sub (paper_ack sub book) (pa_state pa))"
  | (executes) sf where "pa_fill_simulator pa (paper_core sub book)
        (paper_venue_order_id (os_client_order_id sub)) book (pa_fee_model pa) = Some (Inr (Executed sf))"
      "pa' = pa\<lparr>pa_state := fst (submit_executed sub (paper_ack sub book) sf (pa_state pa))\<rparr>"
      "r = snd (submit_executed sub (paper_ack sub book) sf (pa_state pa))"
proof -
  obtain o' where s: "pa_fill_simulator pa (paper_core sub book)
      (paper_venue_order_id (os_client_order_id sub)) book (pa_fee_model pa) = Some o'"
    using assms by (auto simp: submit_record_def bind_Some_iff Let_def)
  consider e where "o' = Inl e" | "o' = Inr Resting" | sf where "o' = Inr (Executed sf)"
    by (metis fill_simulation_outcome.exhaust sum.exhaust)
  then show thesis
  proof cases
    case 1
    with assms s show thesis by (intro refused) (auto simp: submit_record_def Let_def)
  next
    case 2
    with assms s show thesis
      by (intro rests) (auto simp: submit_record_def Let_def split: prod.splits)
  next
    case (3 sf)
    show thesis
    proof (cases "os_post_only sub")
      case True
      with 3 assms s show thesis by (intro refused) (auto simp: submit_record_def Let_def)
    next
      case False
      with 3 assms s show thesis
        by (intro executes) (auto simp: submit_record_def Let_def split: prod.splits)
    qed
  qed
qed

lemma paper_submit_cases:
  assumes "submit_order pa sub = Some (pa', r)"
  obtains (idle) "pa' = pa"
      "\<And>ack. r = Inr ack \<Longrightarrow> ps_idempotency_cache (pa_state pa) (os_client_order_id sub) = Some ack"
  | (recorded) book where "ps_idempotency_cache (pa_state pa) (os_client_order_id sub) = None"
      "ps_orderbooks (pa_state pa) (os_market_id sub) = Some book" "submit_record pa sub book = Some (pa', r)"
proof (cases "submit_check pa sub")
  case None
  then have n: "ps_idempotency_cache (pa_state pa) (os_client_order_id sub) = None"
    by (auto simp: submit_check_def split: if_splits sum.splits)
  show thesis
  proof (cases "ps_orderbooks (pa_state pa) (os_market_id sub)")
    case (Some book)
    with assms None n show thesis by (intro recorded) (auto simp: submit_order_def submit_book_def)
  qed (use assms None in \<open>auto simp: submit_order_def submit_book_def intro: idle\<close>)
next
  case (Some answer)
  with assms show thesis
    by (intro idle) (auto simp: submit_order_def submit_check_def split: if_splits sum.splits)
qed

text \<open>
  A first acknowledgement: nothing was known of the client order id, and what is recorded with
  it (an open order, queued fills) is covered by the submitted quantity.
\<close>

lemma accept_ok:
  fixes ack :: venue_order_ack and ao :: "venue_order_id set"
  assumes "paper_state_ok lot good_book Q st" and "ps_idempotency_cache st c = None"
    and "0 \<le> Q c" and "\<And>oo. opn = Some oo \<Longrightarrow> open_ok lot Q (paper_venue_order_id c) oo"
    and "\<And>a. acts = Some a \<Longrightarrow> actions_ok (paper_venue_order_id c) a"
    and "(case acts of None \<Rightarrow> 0 | Some a \<Rightarrow> (\<Sum>q\<leftarrow>pk_fills a. fi_qty (pf_fill q))) \<le>
      (case opn of Some oo \<Rightarrow> oo_filled_qty oo | None \<Rightarrow> Q c)"
  defines "st' \<equiv> st\<lparr>ps_idempotency_cache := (ps_idempotency_cache st)(c \<mapsto> ack), ps_acknowledged_orders := ao,
      ps_open_orders := (ps_open_orders st)(paper_venue_order_id c := opn),
      ps_post_ack_actions := (ps_post_ack_actions st)(paper_venue_order_id c := acts)\<rparr>"
  shows "paper_state_ok lot good_book Q st'" and "covered Q st fs \<Longrightarrow> covered Q st' fs"
proof -
  have old: "ps_open_orders st (paper_venue_order_id c) = None"
    "ps_post_ack_actions st (paper_venue_order_id c) = None"
    using paper_state_okD(5,6) [OF assms(1,2)] by simp_all
  show "paper_state_ok lot good_book Q st'"
    using assms(1,3-5) unfolding st'_def paper_state_ok_def
    by (auto simp: open_ok_def Let_def split: if_splits)
  show "covered Q st' fs" if cov: "covered Q st fs"
    unfolding covered_def
  proof
    fix d
    have "received_qty fs d + queued_qty st d \<le> filled_bound Q st d" using cov by (simp add: covered_def)
    then show "received_qty fs d + queued_qty st' d \<le> filled_bound Q st' d"
      using old assms(2,6)
      by (cases "d = c") (auto simp: st'_def queued_qty_def filled_bound_def split: option.splits)
  qed
qed

lemma map_upd_same: "f x = None \<Longrightarrow> f(x := None) = f"
  by (rule fun_upd_idem)

context lot_simulator
begin

lemma submit_resting_ok:
  assumes "paper_state_ok lot good_book Q st" and "ps_idempotency_cache st (os_client_order_id sub) = None"
    and "lot (os_qty sub)" and "os_qty sub = Q (os_client_order_id sub)"
    and "vk_client_order_id ack = os_client_order_id sub"
    and "vk_venue_order_id ack = paper_venue_order_id (os_client_order_id sub)"
  shows "paper_state_ok lot good_book Q (fst (submit_resting sub ack st)) \<and>
    (covered Q st fs \<longrightarrow> covered Q (fst (submit_resting sub ack st)) fs)"
proof -
  let ?v = "paper_venue_order_id (os_client_order_id sub)"
  note old = paper_state_okD(5,6) [OF assms(1,2)]
  have Q: "0 \<le> Q (os_client_order_id sub)" "lot (Q (os_client_order_id sub))" "lot 0"
    using assms(3,4) lot_nonneg lot_zero by auto
  note acc = accept_ok [OF assms(1,2) Q(1), where ack = ack and ao = "insert ?v (ps_acknowledged_orders st)"]
  show ?thesis
  proof (cases "os_time_in_force sub")
    case GTC
    let ?oo = "\<lparr>oo_submission = sub, oo_venue_order_id = ?v, oo_accepted_at = vk_accepted_at ack,
      oo_filled_qty = 0\<rparr>"
    show ?thesis using GTC Q assms(4-6)
        acc [where opn = "Some ?oo" and acts = "Some post_ack_actions_default"]
      by (simp add: submit_resting_def acknowledge_def queue_actions_def open_order_def open_ok_def
          actions_ok_def post_ack_actions_default_def Let_def)
  next
    case IOC
    let ?a = "\<lparr>pk_fills = [], pk_cancellation_reason =
      Some (lit ''IOC order received no immediate fill on paper adapter'')\<rparr>"
    show ?thesis using IOC Q assms(5,6) old acc [where opn = None and acts = "Some ?a"]
      by (simp add: submit_resting_def acknowledge_def queue_actions_def actions_ok_def map_upd_same Let_def)
  qed (use Q assms(5,6) old acc [where opn = None and acts = None] in
      \<open>simp_all add: submit_resting_def acknowledge_def map_upd_same Let_def\<close>)
qed

lemma submit_executed_ok:
  assumes "paper_state_ok lot good_book Q st" and "ps_idempotency_cache st (os_client_order_id sub) = None"
    and "lot (os_qty sub)" and "os_qty sub = Q (os_client_order_id sub)"
    and "vk_client_order_id ack = os_client_order_id sub"
    and "vk_venue_order_id ack = paper_venue_order_id (os_client_order_id sub)"
    and "lot (fi_qty (sf_fill sf))" and "fi_qty (sf_fill sf) \<le> os_qty sub"
  shows "paper_state_ok lot good_book Q (fst (submit_executed sub ack sf st)) \<and>
    (covered Q st fs \<longrightarrow> covered Q (fst (submit_executed sub ack sf st)) fs)"
proof -
  let ?v = "paper_venue_order_id (os_client_order_id sub)" and ?q = "fi_qty (sf_fill sf)"
  note old = paper_state_okD(5,6) [OF assms(1,2)]
  have Q: "0 \<le> Q (os_client_order_id sub)" "lot (Q (os_client_order_id sub))" "0 \<le> ?q"
    using assms(3,4,7) lot_nonneg by auto
  let ?oo = "\<lparr>oo_submission = sub, oo_venue_order_id = ?v, oo_accepted_at = vk_accepted_at ack,
    oo_filled_qty = ?q\<rparr>"
  let ?a = "\<lambda>r. \<lparr>pk_fills = [\<lparr>pf_client_order_id = os_client_order_id sub, pf_fill = sf_fill sf\<rparr>],
    pk_cancellation_reason = r\<rparr>"
  note acc = accept_ok [OF assms(1,2) Q(1), where ack = ack and ao = "insert ?v (ps_acknowledged_orders st)"]
  have a1: "paper_state_ok lot good_book Q st' \<and> (covered Q st fs \<longrightarrow> covered Q st' fs)"
    if "st' = queue_actions ?v (?a r) (open_order ?v ?oo (acknowledge ack st))" for st' r
    using that Q assms(4-8) acc [where opn = "Some ?oo" and acts = "Some (?a r)"]
    by (simp add: acknowledge_def queue_actions_def open_order_def open_ok_def actions_ok_def Let_def)
  have a2: "paper_state_ok lot good_book Q st' \<and> (covered Q st fs \<longrightarrow> covered Q st' fs)"
    if "st' = queue_actions ?v (?a r) (acknowledge ack st)" for st' r
    using that Q assms(4-8) old acc [where opn = None and acts = "Some (?a r)"]
    by (simp add: acknowledge_def queue_actions_def actions_ok_def map_upd_same)
  show ?thesis using assms(1,5,6) a1 a2 by (auto simp: submit_executed_def Let_def)
qed

lemma submit_record_ok:
  assumes "submit_record pa sub book = Some (pa', r)" and "good_book book"
    and "paper_state_ok lot good_book Q (pa_state pa)" and "pa_fill_simulator pa = sim"
    and "ps_idempotency_cache (pa_state pa) (os_client_order_id sub) = None"
    and "lot (os_qty sub)" and "os_qty sub = Q (os_client_order_id sub)"
  shows "paper_state_ok lot good_book Q (pa_state pa') \<and> pa_fill_simulator pa' = sim \<and>
    pa_fill_subscribers pa' = pa_fill_subscribers pa \<and>
    (covered Q (pa_state pa) fs \<longrightarrow> covered Q (pa_state pa') fs)"
  using assms(1)
proof (cases rule: submit_record_cases)
  case refused
  with assms show ?thesis by simp
next
  case rests
  with submit_resting_ok [OF assms(3,5,6,7)] assms(4) show ?thesis by simp
next
  case (executes sf)
  have "lot (fi_qty (sf_fill sf)) \<and> fi_qty (sf_fill sf) \<le> os_qty sub"
    using executed_split [OF _ _ executes(1) [unfolded assms(4)]] assms(2,6)
    by (auto simp: order_core_from_submission_def)
  with submit_executed_ok [OF assms(3,5,6,7), where sf = sf] assms(4) executes
  show ?thesis by simp
qed

end

text \<open>Queued fills move from the queue to the subscribers.\<close>

lemma received_queued:
  assumes "actions_ok v a"
  shows "received_qty (queued_fills a) c =
    (if v = paper_venue_order_id c then (\<Sum>q\<leftarrow>pk_fills a. fi_qty (pf_fill q)) else 0)"
proof -
  have "received_qty (map (\<lambda>q. venue_fill_of (pf_client_order_id q) (pf_fill q)) qs) c =
      (if v = paper_venue_order_id c then (\<Sum>q\<leftarrow>qs. fi_qty (pf_fill q)) else 0)"
    if "\<forall>q \<in> set qs. v = paper_venue_order_id (pf_client_order_id q)" for qs
    using that by (induction qs) (auto simp: received_qty_def venue_fill_of_def)
  from this [of "pk_fills a"] assms show ?thesis by (simp add: actions_ok_def queued_fills_def)
qed

lemma covered_cong:
  "ps_open_orders st' = ps_open_orders st \<Longrightarrow> ps_idempotency_cache st' = ps_idempotency_cache st \<Longrightarrow>
   ps_post_ack_actions st' = ps_post_ack_actions st \<Longrightarrow> covered Q st' fs = covered Q st fs"
  by (simp add: covered_def queued_qty_def filled_bound_def)

text \<open>Fills to be sent, by the result of a section.\<close>

abbreviation fills_of :: "gateway_error + venue_fill list \<Rightarrow> venue_fill list" where
  "fills_of r \<equiv> (case r of Inl _ \<Rightarrow> [] | Inr fs \<Rightarrow> fs)"

lemma take_section_ok:
  assumes "take_section pa v = (pa', r)" and "paper_state_ok lot good_book Q (pa_state pa)"
  shows "pa' = pa\<lparr>pa_state := pa_state pa'\<rparr>" and "paper_state_ok lot good_book Q (pa_state pa')"
    and "\<forall>f \<in> set (fills_of (map_sum id queued_fills r)). 0 \<le> vf_qty f"
    and "covered Q (pa_state pa) fs \<Longrightarrow> covered Q (pa_state pa') (fs @ fills_of (map_sum id queued_fills r))"
    and "ps_idempotency_cache (pa_state pa') = ps_idempotency_cache (pa_state pa)"
proof -
  show "pa' = pa\<lparr>pa_state := pa_state pa'\<rparr>" "paper_state_ok lot good_book Q (pa_state pa')"
    "ps_idempotency_cache (pa_state pa') = ps_idempotency_cache (pa_state pa)"
    using assms by (auto simp: take_section_def paper_state_ok_def Let_def split: option.splits if_splits)
  consider "ps_post_ack_actions (pa_state pa) v = None" "pa_state pa' = pa_state pa"
      "fills_of (map_sum id queued_fills r) = []"
    | a where "ps_post_ack_actions (pa_state pa) v = Some a" "r = Inr a"
      "pa_state pa' = (pa_state pa)\<lparr>ps_post_ack_actions := (ps_post_ack_actions (pa_state pa))(v := None)\<rparr>"
    using assms(1)
    by (auto simp: take_section_def Let_def queued_fills_def post_ack_actions_default_def split: option.splits)
  then have "(\<forall>f \<in> set (fills_of (map_sum id queued_fills r)). 0 \<le> vf_qty f) \<and>
    (covered Q (pa_state pa) fs \<longrightarrow> covered Q (pa_state pa') (fs @ fills_of (map_sum id queued_fills r)))"
  proof cases
    case 1
    then show ?thesis by simp
  next
    case (2 a)
    have a: "actions_ok v a" by (rule paper_state_okD(4) [OF assms(2) 2(1)])
    have "received_qty (queued_fills a) c + queued_qty (pa_state pa') c = queued_qty (pa_state pa) c"
      "filled_bound Q (pa_state pa') c = filled_bound Q (pa_state pa) c" for c
      using 2(1,3) by (auto simp: received_queued [OF a] queued_qty_def filled_bound_def split: option.split)
    then have "covered Q (pa_state pa') (fs @ queued_fills a)" if "covered Q (pa_state pa) fs"
      using that by (auto simp: covered_def algebra_simps)
    moreover have "\<forall>f \<in> set (queued_fills a). 0 \<le> vf_qty f"
      using a by (auto simp: actions_ok_def queued_fills_def venue_fill_of_def)
    ultimately show ?thesis using 2(2) by simp
  qed
  then show "\<forall>f \<in> set (fills_of (map_sum id queued_fills r)). 0 \<le> vf_qty f"
    "covered Q (pa_state pa) fs \<Longrightarrow> covered Q (pa_state pa') (fs @ fills_of (map_sum id queued_fills r))"
    by blast+
qed

context lot_simulator
begin

lemma book_section_ok:
  assumes "book_section X keys pa snapshot = Some (pa', r)" and "good_book snapshot"
    and "paper_state_ok lot good_book Q (pa_state pa)" and "pa_fill_simulator pa = sim"
  shows "pa' = pa\<lparr>pa_state := pa_state pa'\<rparr> \<and> paper_state_ok lot good_book Q (pa_state pa') \<and>
    (\<forall>f \<in> set (fills_of r). 0 \<le> vf_qty f) \<and>
    (\<forall>fs. covered Q (pa_state pa) fs \<longrightarrow> covered Q (pa_state pa') (fs @ fills_of r))"
proof (cases "ob_venue_id snapshot = pc_venue_id (pa_config pa) \<and> validate_book snapshot = Inr ()")
  case True
  let ?st = "(pa_state pa)\<lparr>ps_orderbooks := (ps_orderbooks (pa_state pa))(ob_market_id snapshot \<mapsto> snapshot)\<rparr>"
  have ok: "paper_state_ok lot good_book Q ?st" using assms(2,3) by (auto simp: paper_state_ok_def)
  have cov: "covered Q ?st fs = covered Q (pa_state pa) fs" for fs by (rule covered_cong) simp_all
  obtain st' where c: "collect_repriced_fills X pa keys snapshot ?st = Some (st', r)" and pa': "pa' = pa\<lparr>pa_state := st'\<rparr>"
    using assms(1) True by (auto simp: book_section_def bind_Some_iff Let_def)
  from reprice_ok [OF c [unfolded collect_repriced_fills_def] ok assms(4,2)] cov pa' show ?thesis by simp
next
  case False
  then have "pa' = pa \<and> fills_of r = []"
    using assms(1) by (auto simp: book_section_def split: sum.splits if_splits)
  with assms(3) show ?thesis by simp
qed

end

subsection \<open>The idempotency cache\<close>

lemma reprice_loop_cache:
  "reprice_loop X pa snapshot vs st fills = Some (st', r) \<Longrightarrow>
   ps_idempotency_cache st' = ps_idempotency_cache st"
proof (induction vs arbitrary: st fills)
  case (Cons v vs)
  then show ?case
    by (auto simp: bind_Some_iff Let_def sum_case_iff outcome_case_iff
        split: option.splits if_splits dest!: Cons.IH)
qed simp

lemma book_section_cache:
  "book_section X keys pa snapshot = Some (pa', r) \<Longrightarrow>
   ps_idempotency_cache (pa_state pa') = ps_idempotency_cache (pa_state pa)"
  by (auto simp: book_section_def collect_repriced_fills_def bind_Some_iff Let_def
      dest!: reprice_loop_cache split: if_splits sum.splits)

lemma submit_resting_cache:
  "ps_idempotency_cache (fst (submit_resting sub ack st)) =
     (ps_idempotency_cache st)(vk_client_order_id ack \<mapsto> ack)"
  "snd (submit_resting sub ack st) = Inr a \<Longrightarrow> a = ack"
  by (cases "os_time_in_force sub"; simp add: submit_resting_def acknowledge_def queue_actions_def
      open_order_def Let_def)+

lemma submit_executed_cache:
  "ps_idempotency_cache (fst (submit_executed sub ack sf st)) =
     (case snd (submit_executed sub ack sf st) of
        Inl _ \<Rightarrow> ps_idempotency_cache st
      | Inr _ \<Rightarrow> (ps_idempotency_cache st)(vk_client_order_id ack \<mapsto> ack))"
  "snd (submit_executed sub ack sf st) = Inr a \<Longrightarrow> a = ack"
  by (simp_all add: submit_executed_def acknowledge_def queue_actions_def open_order_def Let_def
      split: if_splits)

lemma submit_record_cache:
  assumes "submit_record pa sub book = Some (pa', r)"
  shows "c \<noteq> os_client_order_id sub \<Longrightarrow> ps_idempotency_cache (pa_state pa') c = ps_idempotency_cache (pa_state pa) c"
    and "r = Inr ack \<Longrightarrow> ps_idempotency_cache (pa_state pa') (os_client_order_id sub) = Some ack"
  using assms
  by (cases rule: submit_record_cases;
      auto simp: submit_resting_cache submit_executed_cache split: sum.split dest: submit_resting_cache(2)
        submit_executed_cache(2))+

lemma submit_order_cache:
  assumes "submit_order pa sub = Some (pa', r)"
  shows "ps_idempotency_cache (pa_state pa) c = Some a \<Longrightarrow> ps_idempotency_cache (pa_state pa') c = Some a"
    and "r = Inr ack \<Longrightarrow> ps_idempotency_cache (pa_state pa') (os_client_order_id sub) = Some ack"
  using assms by (cases rule: paper_submit_cases; cases "c = os_client_order_id sub"; auto simp: submit_record_cache)+

lemma paper_step_cache:
  assumes "paper_step X op pa = Some pa'" and "ps_idempotency_cache (pa_state pa) c = Some a"
  shows "ps_idempotency_cache (pa_state pa') c = Some a"
proof (cases op)
  case (POpBook keys b)
  with assms show ?thesis
    by (auto simp: replace_orderbook_def book_section_def collect_repriced_fills_def bind_Some_iff Let_def
        sum_case_iff dest!: reprice_loop_cache split: if_splits sum.splits)
next
  case (POpSubmit sub)
  with assms show ?thesis by (auto dest: submit_order_cache(1))
qed (use assms in \<open>auto simp: take_post_ack_actions_def take_section_def cancel_order_def subscribe_fills_def
    connect_def disconnect_def Let_def split: option.splits if_splits\<close>)

lemma paper_run_append:
  "paper_run X (xs @ ys) pa = do { pa' \<leftarrow> paper_run X xs pa; paper_run X ys pa' }"
proof (induction xs arbitrary: pa)
  case (Cons op xs)
  then show ?case by (cases "paper_step X op pa") simp_all
qed simp

lemma validate_submission_cong:
  "pa_config pa' = pa_config pa \<Longrightarrow> validate_submission pa' sub = validate_submission pa sub"
  by (simp add: validate_submission_def)

lemma paper_run_cache:
  "paper_run X ops pa = Some pa' \<Longrightarrow> ps_idempotency_cache (pa_state pa) c = Some a \<Longrightarrow>
   ps_idempotency_cache (pa_state pa') c = Some a"
  by (induction ops arbitrary: pa) (auto simp: bind_Some_iff dest: paper_step_cache)

subsection \<open>Example runs\<close>

lemma example_core: "order_core_from_submission example_submission 0 2 = example_paper_order"
  by (simp add: order_core_from_submission_def example_submission_def example_paper_order_def)

lemma example_book_valid: "validate_book example_orderbook = Inr ()"
  by (simp add: validate_book_iff example_orderbook_def side_ok_def best_bid_def best_ask_def first_def)

lemma example_simulated:
  "\<exists>sf. simulate ideal_ext example_paper_order v example_orderbook zero_fee_model =
     Some (Inr (Executed sf)) \<and> sf_remaining_qty sf = 1"
  using example_book_valid
  by (simp add: simulate_def settle_walk_def example_paper_order_def example_orderbook_def
      zero_fee_model_def best_ask_def first_def basis_points_delta_def unwrap_or_def)

lemma ready_adapter_simps:
  "pa_fill_simulator ready_adapter = simulate ideal_ext" "pa_fee_model ready_adapter = zero_fee_model"
  "ps_idempotency_cache (pa_state ready_adapter) c = None"
  "ps_post_ack_actions (pa_state ready_adapter) v = None"
  "ps_orderbooks (pa_state ready_adapter) (MarketId ''BTCUSDT'') = Some example_orderbook"
  "is_submittable (pa_connection_health ready_adapter)"
  "pc_venue_id (pa_config ready_adapter) = VenueId ''paper''"
  by (simp_all add: ready_adapter_def example_adapter_def paper_adapter_new_def paper_adapter_config_new_def
      subscribe_fills_def connect_def paper_adapter_state_default_def is_submittable_def)

lemma example_accepted:
  "\<exists>pa' ack. submit_order ready_adapter example_submission = Some (pa', Inr ack) \<and>
     pa_connection_health pa' = pa_connection_health ready_adapter \<and> pa_config pa' = pa_config ready_adapter"
proof -
  obtain sf where sf: "simulate ideal_ext example_paper_order
      (paper_venue_order_id (os_client_order_id example_submission)) example_orderbook zero_fee_model =
      Some (Inr (Executed sf))" "sf_remaining_qty sf = 1"
    using example_simulated by blast
  have valid: "validate_submission ready_adapter example_submission = Inr ()"
    by (simp add: validate_submission_def ready_adapter_simps example_submission_def)
  have fields: "os_market_id example_submission = MarketId ''BTCUSDT''" "os_qty example_submission = 2"
    "ob_received_at example_orderbook = 0" "\<not> os_post_only example_submission"
    "os_time_in_force example_submission = GTC" "os_order_type example_submission = Limit"
    by (simp_all add: example_submission_def example_orderbook_def)
  show ?thesis
    by (simp add: submit_order_defs ready_adapter_simps valid fields example_core sf submit_executed_def
        is_complete_def Let_def)
qed

subsection \<open>Properties\<close>

text \<open>
  Submission to the paper adapter is idempotent: once a client order id has been
  acknowledged, any later submission under it that passes the connection and validation
  checks returns the same acknowledgement and changes nothing, whatever happened in between.
\<close>

theorem paper_submit_idempotent:
  assumes "submit_order pa sub = Some (pa', Inr ack)" and "paper_run X ops pa' = Some pa''"
    and "is_submittable (pa_connection_health pa'')" and "validate_submission pa'' again = Inr ()"
    and "os_client_order_id again = os_client_order_id sub"
  shows "submit_order pa'' again = Some (pa'', Inr ack)"
  using paper_run_cache [OF assms(2) submit_order_cache(2) [OF assms(1) refl]] assms(3-5)
  by (simp add: submit_order_defs)

theorem paper_submit_idempotent_witness:
  "\<exists>pa' ack. submit_order ready_adapter example_submission = Some (pa', Inr ack) \<and>
     submit_order pa' example_submission = Some (pa', Inr ack)"
proof -
  obtain pa' ack where a: "submit_order ready_adapter example_submission = Some (pa', Inr ack)"
      "pa_connection_health pa' = pa_connection_health ready_adapter" "pa_config pa' = pa_config ready_adapter"
    using example_accepted by blast
  have "validate_submission pa' example_submission = Inr ()"
    by (simp add: validate_submission_def a(3) ready_adapter_simps example_submission_def)
  with paper_submit_idempotent [OF a(1), of ideal_ext "[]" pa' example_submission] a
  show ?thesis by (auto simp: ready_adapter_simps)
qed

text \<open>
  A fill-or-kill order that cannot trade is refused, but its acknowledgement has been cached
  before: the retry of the same submission is answered with that acknowledgement, and no fill
  and no cancellation ever follows.
\<close>

theorem fok_retry_acknowledged:
  assumes "is_submittable (pa_connection_health pa)" and "validate_submission pa sub = Inr ()"
    and "os_time_in_force sub = FOK"
    and "ps_idempotency_cache (pa_state pa) (os_client_order_id sub) = None"
    and "ps_orderbooks (pa_state pa) (os_market_id sub) = Some book"
    and "pa_fill_simulator pa (order_core_from_submission sub (ob_received_at book) (os_qty sub))
      (paper_venue_order_id (os_client_order_id sub)) book (pa_fee_model pa) = Some (Inr Resting)"
    and "ps_post_ack_actions (pa_state pa) (paper_venue_order_id (os_client_order_id sub)) = None"
  shows "\<exists>pa' ack. submit_order pa sub = Some (pa', Inl (GwVenueRejected fok_reason)) \<and>
    submit_order pa' sub = Some (pa', Inr ack) \<and>
    take_post_ack_actions pa' (vk_venue_order_id ack) = (pa', Inr post_ack_actions_default)"
proof -
  let ?ack = "paper_ack sub book"
  let ?pa = "pa\<lparr>pa_state := acknowledge ?ack (pa_state pa)\<rparr>"
  have "submit_order pa sub = Some (?pa, Inl (GwVenueRejected fok_reason))"
    using assms by (simp add: submit_order_defs submit_resting_def Let_def)
  moreover have "submit_order ?pa sub = Some (?pa, Inr ?ack)"
    using assms(1,2) validate_submission_cong [of ?pa pa sub] by (simp add: submit_order_defs acknowledge_def)
  moreover have "take_post_ack_actions ?pa (vk_venue_order_id ?ack) = (?pa, Inr post_ack_actions_default)"
    using assms(7) by (simp add: take_post_ack_actions_def take_section_def queued_fills_def acknowledge_def
        post_ack_actions_default_def Let_def)
  ultimately show ?thesis by blast
qed

theorem fok_retry_acknowledged_witness:
  "\<exists>pa' ack. submit_order ready_adapter (example_submission\<lparr>os_time_in_force := FOK, os_price := Some 10000\<rparr>) =
      Some (pa', Inl (GwVenueRejected fok_reason)) \<and>
    submit_order pa' (example_submission\<lparr>os_time_in_force := FOK, os_price := Some 10000\<rparr>) = Some (pa', Inr ack)"
proof -
  let ?sub = "example_submission\<lparr>os_time_in_force := FOK, os_price := Some 10000\<rparr>"
  have "validate_submission ready_adapter ?sub = Inr ()"
    by (simp add: validate_submission_def ready_adapter_simps example_submission_def)
  moreover have "simulate ideal_ext (order_core_from_submission ?sub 0 2) v example_orderbook zero_fee_model =
      Some (Inr Resting)" for v
    using example_book_valid
    by (simp add: simulate_def settle_walk_def order_core_from_submission_def example_submission_def
        example_orderbook_def best_ask_def first_def)
  moreover have "os_market_id ?sub = MarketId ''BTCUSDT''" "os_qty ?sub = 2" "ob_received_at example_orderbook = 0"
    by (simp_all add: example_submission_def example_orderbook_def)
  ultimately have "\<exists>pa' ack. submit_order ready_adapter ?sub = Some (pa', Inl (GwVenueRejected fok_reason)) \<and>
      submit_order pa' ?sub = Some (pa', Inr ack) \<and>
      take_post_ack_actions pa' (vk_venue_order_id ack) = (pa', Inr post_ack_actions_default)"
    by (intro fok_retry_acknowledged [where book = example_orderbook]) (simp_all add: ready_adapter_simps)
  then show ?thesis by blast
qed

text \<open>
  A fill is lost when repricing fails half-way: if the simulation of a later order returns an
  error, an order filled before it in the same pass has been removed from the open orders, but
  no subscriber receives its fill, and the operation reports an error.
\<close>

theorem repriced_fill_lost:
  "\<exists>pa' e. ps_open_orders (pa_state resting_adapter)
       (paper_venue_order_id (os_client_order_id example_submission)) \<noteq> None \<and>
     replace_orderbook ideal_ext [paper_venue_order_id (os_client_order_id example_submission),
       paper_venue_order_id (os_client_order_id second_submission)] resting_adapter example_orderbook =
       Some (pa', Inl e) \<and>
     ps_open_orders (pa_state pa') (paper_venue_order_id (os_client_order_id example_submission)) = None \<and>
     pa_fill_subscribers pa' = pa_fill_subscribers resting_adapter"
proof -
  let ?c1 = "os_client_order_id example_submission" and ?c2 = "os_client_order_id second_submission"
  have c: "?c2 \<noteq> ?c1" by (simp add: second_submission_def example_submission_def)
  let ?core = "\<lambda>sub. order_core_from_submission (sub\<lparr>os_qty := 1\<rparr>) 0 1"
  have a: "\<exists>sf. simulate ideal_ext (?core example_submission) v example_orderbook partial_fee_model =
      Some (Inr (Executed sf)) \<and> is_complete sf" for v
    using example_book_valid
    by (simp add: simulate_def settle_walk_def order_core_from_submission_def example_submission_def
        example_orderbook_def partial_fee_model_def zero_fee_model_def best_ask_def first_def
        basis_points_delta_def unwrap_or_def is_complete_def)
  have b: "\<exists>e. simulate ideal_ext (?core second_submission) v example_orderbook partial_fee_model =
      Some (Inl e)" for v
    using example_book_valid
    by (simp add: simulate_def settle_walk_def order_core_from_submission_def second_submission_def
        example_submission_def example_orderbook_def partial_fee_model_def best_ask_def first_def)
  obtain sf e where s: "simulate ideal_ext (?core example_submission) (paper_venue_order_id ?c1)
        example_orderbook partial_fee_model = Some (Inr (Executed sf))" "is_complete sf"
      "simulate ideal_ext (?core second_submission) (paper_venue_order_id ?c2)
        example_orderbook partial_fee_model = Some (Inl e)"
    using a b by metis
  have fields: "ob_market_id example_orderbook = MarketId ''BTCUSDT''" "ob_venue_id example_orderbook = VenueId ''paper''"
    "os_market_id example_submission = MarketId ''BTCUSDT''" "os_market_id second_submission = MarketId ''BTCUSDT''"
    "pa_fill_simulator resting_adapter = simulate ideal_ext" "pa_fee_model resting_adapter = partial_fee_model"
    "pc_venue_id (pa_config resting_adapter) = VenueId ''paper''"
    "ps_open_orders (pa_state resting_adapter) = [paper_venue_order_id ?c1 \<mapsto> resting example_submission,
      paper_venue_order_id ?c2 \<mapsto> resting second_submission]"
    by (simp_all add: example_orderbook_def second_submission_def example_submission_def resting_adapter_def
        ready_adapter_simps)
  show ?thesis using s c example_book_valid
    by (simp add: replace_orderbook_def book_section_def collect_repriced_fills_def fields Let_def open_remaining_qty_def resting_def)
qed

end
