(* ===== verification/Paper_Concurrency.thy ===== *)
theory Paper_Concurrency
  imports Paper_Adapter
begin

text \<open>
  The paper adapter (\<open>gateway/src/lib.rs\<close>, \<open>PaperAdapter\<close>) under concurrent calls. The operations take
  \<open>&self\<close> and lock the state for each of their critical sections, so the sections of several calls
  interleave: submissions that have passed the check, submissions that have read a book, and fills
  that have left the state and still have to be broadcast. A broadcast is one step.

  Shown here: no order is filled beyond its quantity, under every interleaving, as long as no two
  calls with the same client order id overlap; and overlapping calls do fill an order twice.
\<close>

subsection \<open>Calls in flight\<close>

datatype submit_call = Checked order_submission | Priced order_submission orderbook_snapshot

fun call_submission :: "submit_call \<Rightarrow> order_submission" where
  "call_submission (Checked sub) = sub"
| "call_submission (Priced sub _) = sub"

record paper_system =
  px_adapter :: paper_adapter
  px_calls :: "nat \<rightharpoonup> submit_call"
  px_fills :: "venue_fill list"

definition paper_system_new :: "paper_adapter \<Rightarrow> paper_system" where
  "paper_system_new pa = \<lparr>px_adapter = pa, px_calls = Map.empty, px_fills = []\<rparr>"

definition open_ids :: "paper_system \<Rightarrow> client_order_id set" where
  "open_ids sys = (\<lambda>call. os_client_order_id (call_submission call)) ` ran (px_calls sys)"

text \<open>
  One critical section or broadcast. With \<open>exclusive\<close>, a submission starts only while no other one
  under its client order id is in flight. The inputs are submissions in whole lots, each client order
  id with one quantity \<open>Q\<close>, and acceptable books. A submission that is answered by its first section
  changes nothing; a call that panics ends.
\<close>

inductive paper_section ::
  "ext \<Rightarrow> bool \<Rightarrow> (decimal \<Rightarrow> bool) \<Rightarrow> (orderbook_snapshot \<Rightarrow> bool) \<Rightarrow> (client_order_id \<Rightarrow> decimal) \<Rightarrow>
   paper_system \<Rightarrow> paper_system \<Rightarrow> bool"
  for X exclusive lot good_book Q
where
  check: "px_calls sys i = None \<Longrightarrow> submit_check (px_adapter sys) sub = None \<Longrightarrow>
    exclusive \<longrightarrow> os_client_order_id sub \<notin> open_ids sys \<Longrightarrow> lot (os_qty sub) \<Longrightarrow>
    os_qty sub = Q (os_client_order_id sub) \<Longrightarrow>
    paper_section X exclusive lot good_book Q sys (sys\<lparr>px_calls := (px_calls sys)(i \<mapsto> Checked sub)\<rparr>)"
| price: "px_calls sys i = Some (Checked sub) \<Longrightarrow>
    paper_section X exclusive lot good_book Q sys
      (sys\<lparr>px_calls := (px_calls sys)(i := (case submit_book (px_adapter sys) sub of
         Inl _ \<Rightarrow> None | Inr book \<Rightarrow> Some (Priced sub book)))\<rparr>)"
| recorded: "px_calls sys i = Some (Priced sub book) \<Longrightarrow>
    submit_record (px_adapter sys) sub book = Some (pa, r) \<Longrightarrow>
    paper_section X exclusive lot good_book Q sys (sys\<lparr>px_adapter := pa, px_calls := (px_calls sys)(i := None)\<rparr>)"
| panic: "paper_section X exclusive lot good_book Q sys (sys\<lparr>px_calls := (px_calls sys)(i := None)\<rparr>)"
| take_actions: "take_section (px_adapter sys) v = (pa, r) \<Longrightarrow>
    paper_section X exclusive lot good_book Q sys
      (sys\<lparr>px_adapter := pa, px_fills := px_fills sys @ fills_of (map_sum id queued_fills r)\<rparr>)"
| book: "good_book b \<Longrightarrow> book_section X keys (px_adapter sys) b = Some (pa, r) \<Longrightarrow>
    paper_section X exclusive lot good_book Q sys
      (sys\<lparr>px_adapter := pa, px_fills := px_fills sys @ fills_of r\<rparr>)"
| broadcast: "px_fills sys = fs @ f # gs \<Longrightarrow>
    paper_section X exclusive lot good_book Q sys
      (sys\<lparr>px_adapter := broadcast_fill (px_adapter sys) f, px_fills := fs @ gs\<rparr>)"
| cancel: "paper_section X exclusive lot good_book Q sys
    (sys\<lparr>px_adapter := fst (cancel_order (px_adapter sys) v)\<rparr>)"
| subscribe: "subscribe_fills (px_adapter sys) = Some pa \<Longrightarrow>
    paper_section X exclusive lot good_book Q sys (sys\<lparr>px_adapter := pa\<rparr>)"
| connected: "paper_section X exclusive lot good_book Q sys (sys\<lparr>px_adapter := connect (px_adapter sys) now\<rparr>)"
| disconnected: "paper_section X exclusive lot good_book Q sys (sys\<lparr>px_adapter := disconnect (px_adapter sys)\<rparr>)"

abbreviation paper_sections ::
  "ext \<Rightarrow> bool \<Rightarrow> (decimal \<Rightarrow> bool) \<Rightarrow> (orderbook_snapshot \<Rightarrow> bool) \<Rightarrow> (client_order_id \<Rightarrow> decimal) \<Rightarrow>
   paper_system \<Rightarrow> paper_system \<Rightarrow> bool"
where
  "paper_sections X exclusive lot good_book Q \<equiv> (paper_section X exclusive lot good_book Q)\<^sup>*\<^sup>*"

subsection \<open>The invariant\<close>

text \<open>
  What every subscriber has received, what is on its way and what is queued is covered by the
  submitted quantity; a call in flight is the only one under its id, which is not known yet.
\<close>

definition call_ok ::
  "(decimal \<Rightarrow> bool) \<Rightarrow> (orderbook_snapshot \<Rightarrow> bool) \<Rightarrow> (client_order_id \<Rightarrow> decimal) \<Rightarrow> paper_adapter_state \<Rightarrow>
   submit_call \<Rightarrow> bool"
where
  "call_ok lot good_book Q st call \<longleftrightarrow>
     (let sub = call_submission call in
      ps_idempotency_cache st (os_client_order_id sub) = None \<and> lot (os_qty sub) \<and>
      Q (os_client_order_id sub) = os_qty sub \<and>
      (case call of Checked _ \<Rightarrow> True | Priced _ book \<Rightarrow> good_book book))"

definition calls_apart :: "(nat \<rightharpoonup> submit_call) \<Rightarrow> bool" where
  "calls_apart calls \<longleftrightarrow> (\<forall>i j c d. calls i = Some c \<longrightarrow> calls j = Some d \<longrightarrow> i \<noteq> j \<longrightarrow>
     os_client_order_id (call_submission c) \<noteq> os_client_order_id (call_submission d))"

definition sections_ok ::
  "fill_simulator \<Rightarrow> (decimal \<Rightarrow> bool) \<Rightarrow> (orderbook_snapshot \<Rightarrow> bool) \<Rightarrow> (client_order_id \<Rightarrow> decimal) \<Rightarrow>
   paper_system \<Rightarrow> bool"
where
  "sections_ok sim lot good_book Q sys \<longleftrightarrow>
     (let pa = px_adapter sys; st = pa_state pa in
      pa_fill_simulator pa = sim \<and> paper_state_ok lot good_book Q st \<and>
      (\<forall>rs \<in> insert [] (sb_received ` set (pa_fill_subscribers pa)). covered Q st (rs @ px_fills sys)) \<and>
      (\<forall>f \<in> set (px_fills sys). 0 \<le> vf_qty f) \<and>
      (\<forall>call \<in> ran (px_calls sys). call_ok lot good_book Q st call) \<and> calls_apart (px_calls sys))"

lemma sections_okI:
  assumes "pa_fill_simulator (px_adapter sys) = sim" and "paper_state_ok lot good_book Q (pa_state (px_adapter sys))"
    and "covered Q (pa_state (px_adapter sys)) (px_fills sys)"
    and "\<forall>sb \<in> set (pa_fill_subscribers (px_adapter sys)).
      covered Q (pa_state (px_adapter sys)) (sb_received sb @ px_fills sys)"
    and "\<forall>f \<in> set (px_fills sys). 0 \<le> vf_qty f"
    and "\<forall>call \<in> ran (px_calls sys). call_ok lot good_book Q (pa_state (px_adapter sys)) call"
    and "calls_apart (px_calls sys)"
  shows "sections_ok sim lot good_book Q sys"
  using assms by (simp add: sections_ok_def Let_def)

lemma sections_okD:
  assumes "sections_ok sim lot good_book Q sys"
  shows "pa_fill_simulator (px_adapter sys) = sim" and "paper_state_ok lot good_book Q (pa_state (px_adapter sys))"
    and "covered Q (pa_state (px_adapter sys)) (px_fills sys)"
    and "\<forall>sb \<in> set (pa_fill_subscribers (px_adapter sys)).
      covered Q (pa_state (px_adapter sys)) (sb_received sb @ px_fills sys)"
    and "\<forall>f \<in> set (px_fills sys). 0 \<le> vf_qty f"
    and "\<forall>call \<in> ran (px_calls sys). call_ok lot good_book Q (pa_state (px_adapter sys)) call"
    and "calls_apart (px_calls sys)"
  using assms by (simp_all add: sections_ok_def Let_def)

lemma ran_upd_subset: "ran (m(i := None)) \<subseteq> ran m" "ran (m(i \<mapsto> c)) \<subseteq> insert c (ran m)"
  by (auto simp: ran_def)

lemma calls_apart_upd:
  assumes "calls_apart calls"
  shows "calls_apart (calls(i := None))"
    and "\<forall>d \<in> ran calls. os_client_order_id (call_submission d) \<noteq> os_client_order_id (call_submission c) \<Longrightarrow>
      calls_apart (calls(i \<mapsto> c))"
    and "calls i = Some c \<Longrightarrow> call_submission d = call_submission c \<Longrightarrow> calls_apart (calls(i \<mapsto> d))"
proof -
  show "calls_apart (calls(i := None))" using assms by (simp add: calls_apart_def)
  show "calls_apart (calls(i \<mapsto> c))"
    if "\<forall>d \<in> ran calls. os_client_order_id (call_submission d) \<noteq> os_client_order_id (call_submission c)"
    using assms that unfolding calls_apart_def fun_upd_apply by (metis option.inject ranI)
  show "calls_apart (calls(i \<mapsto> d))" if "calls i = Some c" "call_submission d = call_submission c"
    using assms that unfolding calls_apart_def fun_upd_apply by (metis option.inject)
qed

lemma call_ok_cache:
  "ps_idempotency_cache st' = ps_idempotency_cache st \<Longrightarrow> call_ok lot good_book Q st' call = call_ok lot good_book Q st call"
  by (simp add: call_ok_def)

lemma covered_perm: "covered Q st (rs @ fs @ f # gs) \<longleftrightarrow> covered Q st ((rs @ [f]) @ fs @ gs)"
proof -
  have "received_qty (rs @ fs @ f # gs) c = received_qty ((rs @ [f]) @ fs @ gs) c" for c
    by (simp add: received_qty_def)
  then show ?thesis unfolding covered_def by presburger
qed

lemma broadcast_ok:
  assumes "sections_ok sim lot good_book Q sys" and "px_fills sys = fs @ f # gs"
  shows "sections_ok sim lot good_book Q (sys\<lparr>px_adapter := broadcast_fill (px_adapter sys) f, px_fills := fs @ gs\<rparr>)"
proof -
  note ok = sections_okD [OF assms(1)]
  let ?st = "pa_state (px_adapter sys)"
  have "covered Q ?st ([f] @ fs @ gs)" using ok(3) covered_perm [of Q ?st "[]" fs f gs] assms(2) by simp
  then have "covered Q ?st ((fs @ gs) @ [f])"
    unfolding covered_def by (simp add: received_qty_def algebra_simps)
  then have "covered Q ?st (fs @ gs)" by (rule covered_prefix [rotated]) (use ok(5) assms(2) in simp)
  moreover have "covered Q ?st (sb_received sb @ fs @ gs)"
    if sb: "sb \<in> set (pa_fill_subscribers (broadcast_fill (px_adapter sys) f))" for sb
  proof -
    obtain old where "old \<in> set (pa_fill_subscribers (px_adapter sys))" "sb_received sb = sb_received old @ [f]"
      using broadcast_all_received [of sb "px_adapter sys" "[f]"] sb by auto
    with ok(4) assms(2) covered_perm [of Q ?st "sb_received old" fs f gs] show ?thesis by simp
  qed
  ultimately show ?thesis using ok assms(2) by (intro sections_okI) auto
qed

text \<open>A section that changes the state only, and hands over fills.\<close>

lemma state_section_ok:
  assumes "sections_ok sim lot good_book Q sys" and "pa = (px_adapter sys)\<lparr>pa_state := st\<rparr>"
    and "paper_state_ok lot good_book Q st" and "\<forall>f \<in> set fs. 0 \<le> vf_qty f"
    and "\<forall>rs. covered Q (pa_state (px_adapter sys)) rs \<longrightarrow> covered Q st (rs @ fs)"
    and "ps_idempotency_cache st = ps_idempotency_cache (pa_state (px_adapter sys))"
  shows "sections_ok sim lot good_book Q (sys\<lparr>px_adapter := pa, px_fills := px_fills sys @ fs\<rparr>)"
proof -
  note ok = sections_okD [OF assms(1)]
  have "covered Q st (sb_received sb @ px_fills sys @ fs)" if "sb \<in> set (pa_fill_subscribers (px_adapter sys))" for sb
    using assms(5) ok(4) that by (metis append.assoc)
  with ok assms(2-6) call_ok_cache [OF assms(6)] show ?thesis by (intro sections_okI) auto
qed

context lot_simulator
begin

lemma record_ok:
  assumes "sections_ok sim lot good_book Q sys" and "px_calls sys i = Some (Priced sub book)"
    and "submit_record (px_adapter sys) sub book = Some (pa, r)"
  shows "sections_ok sim lot good_book Q (sys\<lparr>px_adapter := pa, px_calls := (px_calls sys)(i := None)\<rparr>)"
proof -
  note ok = sections_okD [OF assms(1)]
  let ?c = "os_client_order_id sub" and ?calls = "(px_calls sys)(i := None)"
  have "call_ok lot good_book Q (pa_state (px_adapter sys)) (Priced sub book)"
    using ok(6) assms(2) by (blast intro: ranI)
  then have call: "ps_idempotency_cache (pa_state (px_adapter sys)) ?c = None" "lot (os_qty sub)" "os_qty sub = Q ?c"
    "good_book book" by (simp_all add: call_ok_def Let_def)
  note rec = submit_record_ok [OF assms(3) call(4) ok(2,1) call(1-3)]
  have "os_client_order_id (call_submission d) \<noteq> ?c" if d: "d \<in> ran ?calls" for d
  proof -
    obtain j where "j \<noteq> i" "px_calls sys j = Some d" using d by (auto simp: ran_def split: if_splits)
    with ok(7) assms(2) show ?thesis unfolding calls_apart_def by (metis call_submission.simps(2))
  qed
  then have "call_ok lot good_book Q (pa_state pa) d" if "d \<in> ran ?calls" for d
    using ok(6) that ran_upd_subset(1) [of "px_calls sys" i] submit_record_cache(1) [OF assms(3)]
    by (auto simp: call_ok_def Let_def)
  with ok rec calls_apart_upd(1) show ?thesis by (intro sections_okI) auto
qed

lemma paper_section_ok:
  assumes "paper_section X True lot good_book Q sys sys'" and "sections_ok sim lot good_book Q sys"
  shows "sections_ok sim lot good_book Q sys'"
  using assms(1)
proof cases
  case (check i sub)
  note ok = sections_okD [OF assms(2)]
  have "ps_idempotency_cache (pa_state (px_adapter sys)) (os_client_order_id sub) = None"
    using check(3) by (auto simp: submit_check_def split: if_splits sum.splits)
  then have "call_ok lot good_book Q (pa_state (px_adapter sys)) (Checked sub)"
    using check(5,6) by (simp add: call_ok_def)
  moreover have "calls_apart ((px_calls sys)(i \<mapsto> Checked sub))"
    by (rule calls_apart_upd(2) [OF ok(7)]) (use check(4) in \<open>force simp: open_ids_def\<close>)
  ultimately show ?thesis unfolding check(1)
    using ok ran_upd_subset(2) [of "px_calls sys" i "Checked sub"] by (intro sections_okI) auto
next
  case (price i sub)
  note ok = sections_okD [OF assms(2)]
  have call: "call_ok lot good_book Q (pa_state (px_adapter sys)) (Checked sub)"
    using ok(6) price(2) by (blast intro: ranI)
  show ?thesis
  proof (cases "submit_book (px_adapter sys) sub")
    case (Inr book)
    then have "good_book book"
      using paper_state_okD(1) [OF ok(2)] by (auto simp: submit_book_def split: option.splits)
    with call have "call_ok lot good_book Q (pa_state (px_adapter sys)) (Priced sub book)"
      by (simp add: call_ok_def)
    then show ?thesis unfolding price(1)
      using ok Inr ran_upd_subset(2) [of "px_calls sys" i "Priced sub book"] calls_apart_upd(3) [OF ok(7) price(2)]
      by (intro sections_okI) auto
  next
    case (Inl e)
    then show ?thesis unfolding price(1)
      using ok ran_upd_subset(1) [of "px_calls sys" i] calls_apart_upd(1) by (intro sections_okI) auto
  qed
next
  case (recorded i sub book pa r)
  with record_ok [OF assms(2)] show ?thesis by simp
next
  case (panic i)
  note ok = sections_okD [OF assms(2)]
  show ?thesis unfolding panic
    using ok ran_upd_subset(1) [of "px_calls sys" i] calls_apart_upd(1) by (intro sections_okI) auto
next
  case (take_actions v pa r)
  note t = take_section_ok [OF take_actions(2) sections_okD(2) [OF assms(2)]]
  show ?thesis unfolding take_actions(1)
    by (rule state_section_ok [OF assms(2) t(1,2,3) _ t(5)]) (use t(4) in blast)
next
  case (book b keys pa r)
  note ok = sections_okD [OF assms(2)]
  note b = book_section_ok [OF book(3,2) ok(2,1)]
  have "ps_idempotency_cache (pa_state pa) = ps_idempotency_cache (pa_state (px_adapter sys))"
    by (rule book_section_cache [OF book(3)])
  with b show ?thesis unfolding book(1) by (intro state_section_ok [OF assms(2)]) blast+
next
  case (broadcast fs f gs)
  with broadcast_ok [OF assms(2)] show ?thesis by simp
next
  case (cancel v)
  note ok = sections_okD [OF assms(2)]
  show ?thesis
  proof (cases "ps_open_orders (pa_state (px_adapter sys)) v")
    case (Some oo)
    let ?st = "(pa_state (px_adapter sys))\<lparr>ps_open_orders := (ps_open_orders (pa_state (px_adapter sys)))(v := None)\<rparr>"
    have "sections_ok sim lot good_book Q (sys\<lparr>px_adapter := (px_adapter sys)\<lparr>pa_state := ?st\<rparr>,
        px_fills := px_fills sys @ []\<rparr>)"
      by (rule state_section_ok [OF assms(2) refl]) (use close_order_ok [OF ok(2) Some] in simp_all)
    then show ?thesis unfolding cancel using Some by (simp add: cancel_order_def)
  qed (use assms(2) in \<open>simp add: cancel cancel_order_def\<close>)
next
  case (subscribe pa)
  note ok = sections_okD [OF assms(2)]
  show ?thesis unfolding subscribe(1)
    by (rule sections_okI) (use ok subscribe(2) in \<open>auto simp: subscribe_fills_def split: if_splits\<close>)
next
  case (connected now)
  note ok = sections_okD [OF assms(2)]
  show ?thesis unfolding connected by (rule sections_okI) (use ok in \<open>auto simp: connect_def\<close>)
next
  case disconnected
  note ok = sections_okD [OF assms(2)]
  show ?thesis unfolding disconnected by (rule sections_okI) (use ok in \<open>auto simp: disconnect_def\<close>)
qed

lemma paper_sections_ok:
  assumes "paper_sections X True lot good_book Q sys sys'" and "sections_ok sim lot good_book Q sys"
  shows "sections_ok sim lot good_book Q sys'"
  using assms by (induction rule: rtranclp_induct) (auto intro: paper_section_ok)

end

lemma filled_bound_le:
  assumes "paper_state_ok lot good_book Q st" and "0 \<le> Q c"
  shows "filled_bound Q st c \<le> Q c"
  using paper_state_okD(2) [OF assms(1), of "paper_venue_order_id c"] assms(2)
  by (auto simp: filled_bound_def open_ok_def Let_def split: option.split)

lemma new_system_ok:
  "sections_ok (simulate X) (lots X s A) (book_on_grid s A t P) Q
     (paper_system_new (paper_adapter_new config (simulate X) fm))"
  by (rule sections_okI)
    (simp_all add: paper_system_new_def paper_adapter_new_def paper_adapter_state_default_def paper_state_ok_def
      covered_def queued_qty_def filled_bound_def calls_apart_def)

text \<open>The adapter of the examples is reached by connecting, subscribing and a first book.\<close>

lemma ready_reached:
  assumes "good_book example_orderbook"
  shows "paper_sections ideal_ext exclusive lot good_book Q (paper_system_new example_adapter)
    (paper_system_new ready_adapter)"
proof -
  let ?S = "paper_section ideal_ext exclusive lot good_book Q"
  let ?s0 = "paper_system_new example_adapter"
  let ?a1 = "connect example_adapter 0"
  let ?a2 = "?a1\<lparr>pa_fill_subscribers := [\<lparr>sb_received = [], sb_closed = False\<rparr>]\<rparr>"
  have "?S ?s0 (?s0\<lparr>px_adapter := connect (px_adapter ?s0) 0\<rparr>)" by (rule paper_section.connected)
  then have 1: "?S ?s0 (paper_system_new ?a1)" by (simp add: paper_system_new_def)
  have "?S (paper_system_new ?a1) ((paper_system_new ?a1)\<lparr>px_adapter := ?a2\<rparr>)"
    by (rule paper_section.subscribe)
      (simp add: paper_system_new_def subscribe_fills_def connect_def example_adapter_def paper_adapter_new_def
        paper_adapter_config_new_def DEFAULT_FILL_CHANNEL_CAPACITY_def)
  then have 2: "?S (paper_system_new ?a1) (paper_system_new ?a2)" by (simp add: paper_system_new_def)
  have "book_section ideal_ext [] ?a2 example_orderbook = Some (ready_adapter, Inr [])"
    using example_book_valid
    by (simp add: book_section_def collect_repriced_fills_def ready_adapter_def connect_def example_adapter_def
        paper_adapter_new_def paper_adapter_config_new_def paper_adapter_state_default_def Let_def)
      (simp add: example_orderbook_def)
  then have "?S (paper_system_new ?a2) ((paper_system_new ?a2)\<lparr>px_adapter := ready_adapter,
      px_fills := px_fills (paper_system_new ?a2) @ fills_of (Inr [])\<rparr>)"
    by (intro paper_section.book [of good_book example_orderbook] assms) (simp add: paper_system_new_def)
  then have 3: "?S (paper_system_new ?a2) (paper_system_new ready_adapter)" by (simp add: paper_system_new_def)
  from 1 2 3 show ?thesis by (meson rtranclp.rtrancl_into_rtrancl rtranclp.rtrancl_refl)
qed

text \<open>A submission in three sections of its own.\<close>

lemma submission_reached:
  assumes "paper_sections X exclusive lot good_book Q sys0 (paper_system_new pa)"
    and "submit_check pa sub = None" and "submit_book pa sub = Inr b" and "submit_record pa sub b = Some (pa', r)"
    and "lot (os_qty sub)" and "os_qty sub = Q (os_client_order_id sub)"
  shows "paper_sections X exclusive lot good_book Q sys0 (paper_system_new pa')"
proof -
  let ?S = "paper_section X exclusive lot good_book Q"
  let ?s = "paper_system_new pa"
  let ?s1 = "?s\<lparr>px_calls := [0 \<mapsto> Checked sub]\<rparr>" and ?s2 = "?s\<lparr>px_calls := [0 \<mapsto> Priced sub b]\<rparr>"
  have "?S ?s (?s\<lparr>px_calls := (px_calls ?s)(0 \<mapsto> Checked sub)\<rparr>)"
    by (rule paper_section.check) (use assms in \<open>simp_all add: paper_system_new_def open_ids_def\<close>)
  then have 1: "?S ?s ?s1" by (simp add: paper_system_new_def)
  from paper_section.price [of ?s1 0 sub] assms(3) have 2: "?S ?s1 ?s2" by (simp add: paper_system_new_def)
  from paper_section.recorded [of ?s2 0 sub b pa' r] assms(4) have 3: "?S ?s2 (paper_system_new pa')"
    by (simp add: paper_system_new_def)
  from assms(1) 1 2 3 show ?thesis by (meson rtranclp.rtrancl_into_rtrancl)
qed

subsection \<open>Properties\<close>

text \<open>
  C10: The paper adapter never fills an order beyond its quantity. Under every interleaving of the
  critical sections of submissions, books, cancels and deliveries, with quantities and prices on
  decimal grids and no two overlapping submissions under one client order id, the fills that a
  subscriber has received for a client order, those on their way to it and those queued behind the
  acknowledgement add up to at most the submitted quantity.
\<close>

theorem paper_never_overfills:
  assumes "paper_sections X True (lots X s A) (book_on_grid s A t P) Q
      (paper_system_new (paper_adapter_new config (simulate X) fm)) sys"
    and "rs \<in> insert [] (sb_received ` set (pa_fill_subscribers (px_adapter sys)))" and "0 \<le> Q c"
  shows "received_qty rs c + received_qty (px_fills sys) c + queued_qty (pa_state (px_adapter sys)) c \<le> Q c"
proof -
  let ?st = "pa_state (px_adapter sys)"
  note ok = sections_okD [OF live.paper_sections_ok [OF assms(1) new_system_ok]]
  have "covered Q ?st (rs @ px_fills sys)" using ok(3,4) assms(2) by auto
  then have "received_qty (rs @ px_fills sys) c + queued_qty ?st c \<le> filled_bound Q ?st c"
    unfolding covered_def by blast
  with filled_bound_le [OF ok(2) assms(3)] show ?thesis by simp
qed

text \<open>An order that was filled in part; its fill is queued.\<close>

theorem paper_never_overfills_witness:
  "\<exists>pa ack. submit_order ready_adapter example_submission = Some (pa, Inr ack) \<and>
     queued_qty (pa_state pa) (os_client_order_id example_submission) \<le> 2"
proof -
  let ?R = "paper_sections ideal_ext True (lots ideal_ext 0 10) (book_on_grid 0 10 0 20000) (\<lambda>_. 2)"
  obtain pa ack where a: "submit_order ready_adapter example_submission = Some (pa, Inr ack)"
    using example_accepted by blast
  then obtain b where b: "ps_orderbooks (pa_state ready_adapter) (os_market_id example_submission) = Some b"
      "submit_record ready_adapter example_submission b = Some (pa, Inr ack)"
    by (cases rule: paper_submit_cases) (auto simp: ready_adapter_simps)
  have i: "lots ideal_ext 0 10 (os_qty example_submission)" "os_qty example_submission = 2"
    "book_on_grid 0 10 0 20000 example_orderbook"
    using example_on_grid by (auto simp: on_book_grid_def lots_def on_grid_def example_submission_def
        example_paper_order_def intro!: exI [of _ 2])
  have "submit_check ready_adapter example_submission = None"
    by (simp add: submit_check_def ready_adapter_simps validate_submission_def example_submission_def)
  from submission_reached [OF ready_reached [of "book_on_grid 0 10 0 20000", OF i(3)] this _ b(2)] b(1) i(1,2)
  have "?R (paper_system_new example_adapter) (paper_system_new pa)" by (simp add: submit_book_def)
  from paper_never_overfills [OF this [unfolded example_adapter_def], of "[]" "os_client_order_id example_submission"] a
  show ?thesis by (simp add: paper_system_new_def)
qed

text \<open>
  C18: Overlapping submissions under one client order id fill an order twice. Both pass the check of
  the idempotency cache before either is recorded; when the first has been recorded and its fill
  delivered, the second queues the whole quantity again.
\<close>

theorem overlapping_submissions_fill_twice:
  assumes "submit_check pa sub = None" and "submit_book pa sub = Inr b"
    and "pa_fill_simulator pa (paper_core sub b) (paper_venue_order_id (os_client_order_id sub)) b
      (pa_fee_model pa) = Some (Inr (Executed sf))"
    and "is_complete sf" and "fi_qty (sf_fill sf) = os_qty sub" and "\<not> os_post_only sub"
    and "pa_fill_subscribers pa = [\<lparr>sb_received = [], sb_closed = False\<rparr>]"
    and "lot (os_qty sub)" and "os_qty sub = Q (os_client_order_id sub)"
  shows "\<exists>sys. paper_sections X False lot good_book Q (paper_system_new pa) sys \<and>
    (\<exists>sb \<in> set (pa_fill_subscribers (px_adapter sys)).
       received_qty (sb_received sb) (os_client_order_id sub) +
       queued_qty (pa_state (px_adapter sys)) (os_client_order_id sub) = 2 * os_qty sub)"
proof -
  let ?S = "paper_section X False lot good_book Q"
  let ?c = "os_client_order_id sub" and ?v = "paper_venue_order_id (os_client_order_id sub)"
  let ?s = "paper_system_new pa"
  let ?acts = "\<lparr>pk_fills = [\<lparr>pf_client_order_id = ?c, pf_fill = sf_fill sf\<rparr>], pk_cancellation_reason = None\<rparr>"
  let ?rec = "\<lambda>pa. pa\<lparr>pa_state := queue_actions ?v ?acts (acknowledge (paper_ack sub b) (pa_state pa))\<rparr>"
  have rec: "submit_record pa' sub b = Some (?rec pa', Inr (paper_ack sub b))"
    if "pa_fill_simulator pa' = pa_fill_simulator pa" "pa_fee_model pa' = pa_fee_model pa" for pa'
    using that assms(3,4,6) by (simp add: submit_record_def submit_executed_def Let_def)
  let ?s1 = "?s\<lparr>px_calls := [0 \<mapsto> Checked sub]\<rparr>" and ?s2 = "?s\<lparr>px_calls := [0 \<mapsto> Checked sub, 1 \<mapsto> Checked sub]\<rparr>"
  let ?s3 = "?s\<lparr>px_calls := [0 \<mapsto> Priced sub b, 1 \<mapsto> Checked sub]\<rparr>"
  let ?s4 = "?s\<lparr>px_calls := [0 \<mapsto> Priced sub b, 1 \<mapsto> Priced sub b]\<rparr>"
  let ?s5 = "?s\<lparr>px_adapter := ?rec pa, px_calls := [1 \<mapsto> Priced sub b]\<rparr>"
  let ?pa6 = "fst (take_section (?rec pa) ?v)" and ?f = "venue_fill_of ?c (sf_fill sf)"
  let ?s6 = "\<lparr>px_adapter = ?pa6, px_calls = [1 \<mapsto> Priced sub b], px_fills = [?f]\<rparr>"
  let ?s7 = "\<lparr>px_adapter = broadcast_fill ?pa6 ?f, px_calls = [1 \<mapsto> Priced sub b], px_fills = []\<rparr>"
  let ?s8 = "\<lparr>px_adapter = ?rec (broadcast_fill ?pa6 ?f), px_calls = Map.empty, px_fills = []\<rparr>"
  have take: "take_section (?rec pa) ?v = (?pa6, Inr ?acts)"
    by (simp add: take_section_def queue_actions_def acknowledge_def Let_def)
  have "?S ?s (?s\<lparr>px_calls := (px_calls ?s)(0 \<mapsto> Checked sub)\<rparr>)"
    by (rule paper_section.check) (use assms in \<open>simp_all add: paper_system_new_def\<close>)
  then have 1: "?S ?s ?s1" by (simp add: paper_system_new_def)
  have "?S ?s1 (?s1\<lparr>px_calls := (px_calls ?s1)(1 \<mapsto> Checked sub)\<rparr>)"
    by (rule paper_section.check) (use assms in \<open>simp_all add: paper_system_new_def\<close>)
  then have 2: "?S ?s1 ?s2" by (simp add: paper_system_new_def)
  from paper_section.price [of ?s2 0 sub] assms(2) have 3: "?S ?s2 ?s3"
    by (simp add: paper_system_new_def fun_upd_twist)
  from paper_section.price [of ?s3 1 sub] assms(2) have 4: "?S ?s3 ?s4" by (simp add: paper_system_new_def)
  have "[0 \<mapsto> Priced sub b, 1 \<mapsto> Priced sub b](0 := None) = [1 :: nat \<mapsto> Priced sub b]" by (auto simp: fun_eq_iff)
  with paper_section.recorded [of ?s4 0 sub b] rec [of pa] have 5: "?S ?s4 ?s5"
    by (fastforce simp: paper_system_new_def)
  from paper_section.take_actions [of ?s5 ?v ?pa6 "Inr ?acts"] take have 6: "?S ?s5 ?s6"
    by (simp add: paper_system_new_def queued_fills_def)
  from paper_section.broadcast [of ?s6 "[]" ?f "[]"] have 7: "?S ?s6 ?s7" by simp
  have "submit_record (broadcast_fill ?pa6 ?f) sub b = Some (?rec (broadcast_fill ?pa6 ?f), Inr (paper_ack sub b))"
    by (rule rec) (simp_all add: take_section_def broadcast_fill_def queue_actions_def acknowledge_def Let_def)
  with paper_section.recorded [of ?s7 1 sub b] have 8: "?S ?s7 ?s8" by fastforce
  from 1 2 3 4 5 6 7 8 have "paper_sections X False lot good_book Q ?s ?s8"
    by (meson rtranclp.rtrancl_into_rtrancl rtranclp.rtrancl_refl)
  moreover have "pa_fill_subscribers (px_adapter ?s8) = [\<lparr>sb_received = [?f], sb_closed = False\<rparr>]"
    using assms(7) by (simp add: take_section_def broadcast_fill_def queue_actions_def acknowledge_def Let_def)
  moreover have "received_qty [?f] ?c + queued_qty (pa_state (px_adapter ?s8)) ?c = 2 * os_qty sub"
    using assms(5) by (simp add: queued_qty_def queue_actions_def acknowledge_def venue_fill_of_def)
  ultimately show ?thesis by force
qed

theorem overlapping_submissions_fill_twice_witness:
  "\<exists>sys. paper_sections ideal_ext False (\<lambda>_. True) (\<lambda>_. True) (\<lambda>_. 1) (paper_system_new ready_adapter) sys \<and>
    (\<exists>sb \<in> set (pa_fill_subscribers (px_adapter sys)).
       received_qty (sb_received sb) (os_client_order_id example_submission) +
       queued_qty (pa_state (px_adapter sys)) (os_client_order_id example_submission) = 2)"
proof -
  let ?sub = "example_submission\<lparr>os_qty := 1\<rparr>"
  obtain sf where sf: "simulate ideal_ext (paper_core ?sub example_orderbook)
      (paper_venue_order_id (os_client_order_id ?sub)) example_orderbook zero_fee_model = Some (Inr (Executed sf))"
      "is_complete sf" "fi_qty (sf_fill sf) = 1"
    using example_book_valid
    by (simp add: simulate_def settle_walk_def order_core_from_submission_def example_submission_def
        example_orderbook_def zero_fee_model_def best_ask_def first_def basis_points_delta_def unwrap_or_def
        is_complete_def)
  have c: "submit_check ready_adapter ?sub = None" "submit_book ready_adapter ?sub = Inr example_orderbook"
    by (simp_all add: submit_check_def submit_book_def ready_adapter_simps validate_submission_def example_submission_def)
  have "\<not> os_post_only ?sub" "pa_fill_subscribers ready_adapter = [\<lparr>sb_received = [], sb_closed = False\<rparr>]"
    by (simp_all add: example_submission_def ready_adapter_def)
  from overlapping_submissions_fill_twice [OF c _ sf(2) _ this, of "\<lambda>_. True" "\<lambda>_. 1" ideal_ext "\<lambda>_. True"] sf(1,3)
  show ?thesis by (simp add: ready_adapter_simps)
qed

end
