(* ===== verification/Engine.thy ===== *)
theory Engine
  imports Market
begin

text \<open>
  State and interfaces of the engine core (\<open>engine-core/src/lib.rs\<close>): errors, the engine state
  with its order records and idempotency cache, commands, the sequence generator, and the traits
  \<open>EngineCore\<close> and \<open>EventJournal\<close> as records of operations. The in-memory implementations of both
  traits that the repository provides (\<open>sequencer_tests.rs\<close>: \<open>TestCore\<close>, \<open>RecordingJournal\<close>)
  instantiate the contracts \<open>engine_core_contract\<close>, \<open>order_flow_contract\<close> and \<open>journal_contract\<close>, on which the
  sequencer's properties rest. An operation returns the changed object with its result; \<open>None\<close>
  is a panic.
\<close>

subsection \<open>Errors\<close>

datatype engine_error =
    RiskRejected msg
  | ErrAgentPaused string msg
  | ErrEngineHalted msg
  | ErrAgentNotFound string
  | OrderNotFound string
  | ErrInvalidTransition msg
  | DuplicateOrder client_order_id
  | ErrJournal msg
  | ErrReconciliation msg
  | UnsupportedCommand string
  | Internal msg

fun engine_error_display :: "engine_error \<Rightarrow> msg" where
  "engine_error_display (RiskRejected r) = PStr ''risk check failed: '' # r"
| "engine_error_display (ErrAgentPaused a r) = [PStr ''agent '', PStr a, PStr '' is paused: ''] @ r"
| "engine_error_display (ErrEngineHalted r) = PStr ''engine is halted: '' # r"
| "engine_error_display (ErrAgentNotFound a) = [PStr ''agent not found: '', PStr a]"
| "engine_error_display (OrderNotFound i) = [PStr ''order not found: '', PStr i]"
| "engine_error_display (ErrInvalidTransition r) = PStr ''invalid state transition: '' # r"
| "engine_error_display (DuplicateOrder c) =
     [PStr ''duplicate order: client_order_id '', PStr (client_order_id_str c),
      PStr '' already submitted'']"
| "engine_error_display (ErrJournal r) = PStr ''journal error: '' # r"
| "engine_error_display (ErrReconciliation r) = PStr ''reconciliation error: '' # r"
| "engine_error_display (UnsupportedCommand c) = [PStr ''unsupported command: '', PStr c]"
| "engine_error_display (Internal r) = r"

subsection \<open>Engine state\<close>

record order_ack =
  ak_order_id :: order_id
  ak_client_order_id :: client_order_id
  ak_accepted_at :: datetime

record signal_ack =
  sa_order_id :: order_id
  sa_client_order_id :: client_order_id
  sa_position_size :: decimal
  sa_accepted_at :: datetime

record order_record =
  or_core :: order_core
  or_state :: order_state
  or_client_order_id :: client_order_id
  or_venue_order_id :: "venue_order_id option"
  or_fills :: "fill list"
  or_created_at :: datetime
  or_last_updated :: datetime

record engine_state =
  es_orders :: "order_id \<rightharpoonup> order_record"
  es_positions :: "(agent_id \<times> venue_id \<times> instrument_id) \<rightharpoonup> tracked_position"
  es_pending_signals :: "signal_id \<rightharpoonup> signal"
  es_firm_book :: firm_book
  es_agent_allocations :: "agent_id \<rightharpoonup> agent_allocation"
  es_risk_limits :: risk_limits
  es_agent_statuses :: "agent_id \<rightharpoonup> agent_status"
  es_idempotency_cache :: "client_order_id \<rightharpoonup> order_ack"
  es_last_sequence_id :: sequence_id
  es_last_updated :: datetime

record engine_state_snapshot =
  sn_state :: engine_state
  sn_sequence_id :: sequence_id
  sn_snapshot_at :: datetime

record engine_risk_approval =
  ea_approved_at :: datetime
  ea_checks_performed :: "risk_check_result list"
  ea_warnings :: "risk_violation list"

definition into_stamp :: "engine_risk_approval \<Rightarrow> risk_approval_stamp" where
  "into_stamp a = \<lparr>ra_approved_at = ea_approved_at a,
     ra_checks_performed = ea_checks_performed a, ra_warnings = ea_warnings a\<rparr>"

subsection \<open>Sequence numbers\<close>

type_synonym sequence_generator = sequence_id

definition sequence_generator_new :: "sequence_id \<Rightarrow> sequence_generator" where
  "sequence_generator_new start_from = start_from"

definition sequence_generator_from_zero :: sequence_generator where
  "sequence_generator_from_zero = seq_zero"

definition next_id :: "sequence_generator \<Rightarrow> sequence_id \<times> sequence_generator" where
  "next_id g = (g, g + 1)"

definition generator_current :: "sequence_generator \<Rightarrow> sequence_id" where
  "generator_current g = g"

subsection \<open>Commands\<close>

text \<open>The reply channel of a command is its answer in the outcome (\<open>reply\<close>), not an argument.\<close>

datatype sequencer_command =
    CmdSubmitOrder "validated pipeline_order"
  | CmdSubmitSignal signal
  | CmdOnVenueAck order_id venue_order_id datetime
  | CmdOnVenueSubmitFailed order_id msg
  | CmdOnVenueCancelled order_id msg datetime
  | CmdOnFill fill
  | CmdOnReconciliation reconciliation_report
  | CmdMarkToMarket
  | CmdAdjustLimits agent_id agent_risk_limits
  | CmdPauseAgent agent_id msg
  | CmdResumeAgent agent_id
  | CmdHaltAll msg
  | CmdResetCircuitBreaker string
  | CmdSnapshot
  | CmdShutdown

datatype reply =
    OrderReply "engine_error + order_ack"
  | SignalReply "engine_error + signal_ack"
  | LimitsReply "engine_error + unit"
  | SnapshotReply engine_state_snapshot

fun is_high_priority :: "sequencer_command \<Rightarrow> bool" where
  "is_high_priority (CmdOnVenueAck _ _ _) = True"
| "is_high_priority (CmdOnVenueSubmitFailed _ _) = True"
| "is_high_priority (CmdOnVenueCancelled _ _ _) = True"
| "is_high_priority (CmdOnFill _) = True"
| "is_high_priority (CmdOnReconciliation _) = True"
| "is_high_priority (CmdHaltAll _) = True"
| "is_high_priority (CmdResetCircuitBreaker _) = True"
| "is_high_priority CmdShutdown = True"
| "is_high_priority (CmdSubmitOrder _) = False"
| "is_high_priority (CmdSubmitSignal _) = False"
| "is_high_priority CmdMarkToMarket = False"
| "is_high_priority (CmdAdjustLimits _ _) = False"
| "is_high_priority (CmdPauseAgent _ _) = False"
| "is_high_priority (CmdResumeAgent _) = False"
| "is_high_priority CmdSnapshot = False"

subsection \<open>The traits\<close>

type_synonym ('o, 'r) op_result = "('o \<times> (engine_error + 'r)) option"

text \<open>\<open>ec_put\<close> is a write through \<open>state_mut\<close>.\<close>

record 'c engine_core =
  ec_state :: "'c \<Rightarrow> engine_state"
  ec_put :: "'c \<Rightarrow> engine_state \<Rightarrow> 'c"
  ec_evaluate_order ::
    "'c \<Rightarrow> validated pipeline_order \<Rightarrow> datetime \<Rightarrow> ('c, risk_checked pipeline_order) op_result"
  ec_on_fill :: "'c \<Rightarrow> fill \<Rightarrow> datetime \<Rightarrow> ('c, unit) op_result"
  ec_on_reconciliation :: "'c \<Rightarrow> reconciliation_report \<Rightarrow> datetime \<Rightarrow> ('c, unit) op_result"
  ec_mark_to_market :: "'c \<Rightarrow> price_source \<Rightarrow> datetime \<Rightarrow> ('c, unit) op_result"
  ec_pause_agent :: "'c \<Rightarrow> agent_id \<Rightarrow> msg \<Rightarrow> datetime \<Rightarrow> ('c, unit) op_result"
  ec_resume_agent :: "'c \<Rightarrow> agent_id \<Rightarrow> datetime \<Rightarrow> ('c, unit) op_result"
  ec_adjust_limits :: "'c \<Rightarrow> agent_id \<Rightarrow> agent_risk_limits \<Rightarrow> ('c, unit) op_result"
  ec_halt_all :: "'c \<Rightarrow> msg \<Rightarrow> datetime \<Rightarrow> ('c, unit) op_result"
  ec_reset_circuit_breaker :: "'c \<Rightarrow> datetime \<Rightarrow> ('c, unit) op_result"

text \<open>The provided methods of the trait.\<close>

definition restore_snapshot :: "'c engine_core \<Rightarrow> 'c \<Rightarrow> engine_state_snapshot \<Rightarrow> 'c" where
  "restore_snapshot E c snap = ec_put E c (sn_state snap)"

definition core_snapshot ::
  "'c engine_core \<Rightarrow> 'c \<Rightarrow> sequence_id \<Rightarrow> datetime \<Rightarrow> engine_state_snapshot"
where
  "core_snapshot E c sid t = \<lparr>sn_state = ec_state E c, sn_sequence_id = sid, sn_snapshot_at = t\<rparr>"

type_synonym journal_events = "engine_event sequenced_event list"

record 'j event_journal =
  ej_append :: "'j \<Rightarrow> engine_event sequenced_event \<Rightarrow> 'j \<times> (engine_error + unit)"
  ej_append_batch :: "'j \<Rightarrow> journal_events \<Rightarrow> 'j \<times> (engine_error + unit)"
  ej_persist_commit ::
    "'j \<Rightarrow> journal_events \<Rightarrow> engine_state_snapshot option \<Rightarrow> 'j \<times> (engine_error + unit)"
  ej_replay_from :: "'j \<Rightarrow> sequence_id \<Rightarrow> engine_error + journal_events"
  ej_replay_range :: "'j \<Rightarrow> sequence_id \<Rightarrow> sequence_id \<Rightarrow> engine_error + journal_events"
  ej_save_snapshot :: "'j \<Rightarrow> sequence_id \<Rightarrow> engine_state_snapshot \<Rightarrow> 'j \<times> (engine_error + unit)"
  ej_load_latest_snapshot :: "'j \<Rightarrow> engine_error + (sequence_id \<times> engine_state_snapshot) option"
  ej_latest_sequence_id :: "'j \<Rightarrow> engine_error + sequence_id"

text \<open>The default \<open>persist_commit\<close> of the trait, not atomic.\<close>

definition default_persist_commit ::
  "('j \<Rightarrow> journal_events \<Rightarrow> 'j \<times> (engine_error + unit)) \<Rightarrow>
   ('j \<Rightarrow> sequence_id \<Rightarrow> engine_state_snapshot \<Rightarrow> 'j \<times> (engine_error + unit)) \<Rightarrow>
   'j \<Rightarrow> journal_events \<Rightarrow> engine_state_snapshot option \<Rightarrow> 'j \<times> (engine_error + unit)"
where
  "default_persist_commit append_batch save_snapshot j events snap =
     (let (j1, r) = (if events \<noteq> [] then append_batch j events else (j, Inr ()))
      in case r of
           Inl e \<Rightarrow> (j1, Inl e)
         | Inr _ \<Rightarrow> (case snap of
               None \<Rightarrow> (j1, Inr ())
             | Some sn \<Rightarrow> save_snapshot j1 (sn_sequence_id sn) sn))"

subsection \<open>The in-memory core\<close>

record test_core =
  tc_state :: engine_state
  tc_reject_orders :: bool

definition test_evaluate_order ::
  "test_core \<Rightarrow> validated pipeline_order \<Rightarrow> datetime \<Rightarrow> (test_core, risk_checked pipeline_order) op_result"
where
  "test_evaluate_order c order now =
     Some (c, if tc_reject_orders c then Inl (RiskRejected (lit ''test rejection''))
              else Inr (into_risk_checked order
                \<lparr>ra_approved_at = now, ra_checks_performed = [], ra_warnings = []\<rparr>))"

definition put_order :: "engine_state \<Rightarrow> order_id \<Rightarrow> order_record \<Rightarrow> engine_state" where
  "put_order s i r = s\<lparr>es_orders := (es_orders s)(i \<mapsto> r)\<rparr>"

text \<open>The fill is recorded before an overfill is detected.\<close>

definition test_on_fill :: "ext \<Rightarrow> test_core \<Rightarrow> fill \<Rightarrow> datetime \<Rightarrow> (test_core, unit) op_result" where
  "test_on_fill X c f now = (case es_orders (tc_state c) (fi_order_id f) of
       None \<Rightarrow> Some (c, Inl (OrderNotFound (order_id_str (fi_order_id f))))
     | Some r \<Rightarrow>
         if fi_qty f \<le> 0
         then Some (c, Inl (ErrInvalidTransition (lit ''fill quantity must be positive'')))
         else
           let r1 = r\<lparr>or_fills := or_fills r @ [f], or_last_updated := now\<rparr>
           in do {
             filled_qty \<leftarrow> dec_sum X 0 (map fi_qty (or_fills r1));
             if oc_qty (or_core r1) < filled_qty
             then Some (c\<lparr>tc_state := put_order (tc_state c) (fi_order_id f) r1\<rparr>,
               Inl (ErrInvalidTransition
                 [PStr ''order '', PStr (order_id_str (oc_id (or_core r1))), PStr '' overfilled'']))
             else
               let r2 = r1\<lparr>or_state :=
                     (if filled_qty = oc_qty (or_core r1) then OFilled else OPartiallyFilled)\<rparr>
               in Some (c\<lparr>tc_state := put_order (tc_state c) (fi_order_id f) r2\<rparr>, Inr ()) })"

definition reconciler_position :: "reconciliation_report \<Rightarrow> position_divergence \<Rightarrow> tracked_position" where
  "reconciler_position report d = \<lparr>
     tp_agent = AgentId ''reconciler'', tp_venue = rr_venue_id report,
     tp_account = rr_account_id report, tp_instrument = pd_instrument d, tp_qty = pd_venue_qty d,
     tp_avg_entry_price = 0, tp_unrealized_pnl = 0, tp_realized_pnl = 0, tp_total_fees_paid = 0,
     tp_accumulated_funding = 0, tp_fill_ids = [], tp_signal_ids = [],
     tp_opened_at = rr_started_at report, tp_last_fill_at = rr_completed_at report\<rparr>"

definition test_on_reconciliation ::
  "test_core \<Rightarrow> reconciliation_report \<Rightarrow> datetime \<Rightarrow> (test_core, unit) op_result"
where
  "test_on_reconciliation c report now =
     Some (fold (\<lambda>d c. if pd_action d = AcceptVenue
         then c\<lparr>tc_state := (tc_state c)\<lparr>es_positions := (es_positions (tc_state c))
           ((AgentId ''reconciler'', rr_venue_id report, pd_instrument d) \<mapsto>
              reconciler_position report d)\<rparr>\<rparr>
         else c) (rr_position_divergences report) c, Inr ())"

definition test_engine_core :: "ext \<Rightarrow> test_core engine_core" where
  "test_engine_core X = \<lparr>
     ec_state = tc_state,
     ec_put = (\<lambda>c s. c\<lparr>tc_state := s\<rparr>),
     ec_evaluate_order = test_evaluate_order,
     ec_on_fill = test_on_fill X,
     ec_on_reconciliation = test_on_reconciliation,
     ec_mark_to_market = (\<lambda>c prices now. Some (c, Inr ())),
     ec_pause_agent = (\<lambda>c agent reason now. Some (c\<lparr>tc_state := (tc_state c)
       \<lparr>es_agent_statuses := (es_agent_statuses (tc_state c))(agent \<mapsto> AgentPaused reason now)\<rparr>\<rparr>, Inr ())),
     ec_resume_agent = (\<lambda>c agent now. Some (c\<lparr>tc_state := (tc_state c)
       \<lparr>es_agent_statuses := (es_agent_statuses (tc_state c))(agent \<mapsto> AgentActive)\<rparr>\<rparr>, Inr ())),
     ec_adjust_limits = (\<lambda>c agent limits. Some (c\<lparr>tc_state := (tc_state c)
       \<lparr>es_risk_limits := (es_risk_limits (tc_state c))
         \<lparr>rl_per_agent := (rl_per_agent (es_risk_limits (tc_state c)))(agent \<mapsto> limits)\<rparr>\<rparr>\<rparr>, Inr ())),
     ec_halt_all = (\<lambda>c reason now. Some (c\<lparr>tc_state := (tc_state c)
       \<lparr>es_agent_statuses := (\<lambda>a. map_option (\<lambda>_. AgentHalted) (es_agent_statuses (tc_state c) a))\<rparr>\<rparr>, Inr ())),
     ec_reset_circuit_breaker = (\<lambda>c now. Some (c, Inr ()))\<rparr>"

subsection \<open>The in-memory journal\<close>

record recording_journal =
  jr_events :: journal_events
  jr_snapshot :: "(sequence_id \<times> engine_state_snapshot) option"

definition recording_event_journal :: "recording_journal event_journal" where
  "recording_event_journal = \<lparr>
     ej_append = (\<lambda>j event. (j\<lparr>jr_events := jr_events j @ [event]\<rparr>, Inr ())),
     ej_append_batch = (\<lambda>j events. (j\<lparr>jr_events := jr_events j @ events\<rparr>, Inr ())),
     ej_persist_commit = (\<lambda>j events snap.
       (let j1 = j\<lparr>jr_events := jr_events j @ events\<rparr>
        in case snap of None \<Rightarrow> j1
           | Some sn \<Rightarrow> j1\<lparr>jr_snapshot := Some (sn_sequence_id sn, sn)\<rparr>, Inr ())),
     ej_replay_from = (\<lambda>j from. Inr (filter (\<lambda>e. from \<le> se_sequence_id e) (jr_events j))),
     ej_replay_range = (\<lambda>j from to. Inr (filter
       (\<lambda>e. from \<le> se_sequence_id e \<and> se_sequence_id e \<le> to) (jr_events j))),
     ej_save_snapshot = (\<lambda>j sid sn. (j\<lparr>jr_snapshot := Some (sid, sn)\<rparr>, Inr ())),
     ej_load_latest_snapshot = (\<lambda>j. Inr (jr_snapshot j)),
     ej_latest_sequence_id = (\<lambda>j. Inr (if jr_events j = [] then seq_zero
                                       else se_sequence_id (last (jr_events j))))\<rparr>"

subsection \<open>The contracts\<close>

text \<open>
  What a command must not touch behind the sequencer's back: the idempotency cache and the
  client order id of every order.
\<close>

definition keeps_ids :: "engine_state \<Rightarrow> engine_state \<Rightarrow> bool" where
  "keeps_ids s s' \<longleftrightarrow> es_idempotency_cache s' = es_idempotency_cache s \<and>
     (\<forall>i. map_option or_client_order_id (es_orders s' i) = map_option or_client_order_id (es_orders s i))"

lemma keeps_ids_refl [simp]: "keeps_ids s s"
  by (simp add: keeps_ids_def)

lemma keeps_ids_trans: "keeps_ids s t \<Longrightarrow> keeps_ids t u \<Longrightarrow> keeps_ids s u"
  by (simp add: keeps_ids_def)

lemma keeps_ids_put_order:
  "es_orders s i = Some r \<Longrightarrow> or_client_order_id r' = or_client_order_id r \<Longrightarrow>
   keeps_ids s (put_order s i r')"
  by (auto simp: keeps_ids_def put_order_def)

locale engine_core_contract =
  fixes E :: "'c engine_core"
  assumes state_put: "ec_state E (ec_put E c s) = s"
    and evaluate_state: "ec_evaluate_order E c ord now = Some (c', r) \<Longrightarrow> ec_state E c' = ec_state E c"
    and evaluate_id: "ec_evaluate_order E c ord now = Some (c', Inr rc) \<Longrightarrow>
      oc_id (po_core rc) = oc_id (po_core ord)"
    and fill_ids: "ec_on_fill E c f now = Some (c', u) \<Longrightarrow> keeps_ids (ec_state E c) (ec_state E c')"
    and reconciliation_ids: "ec_on_reconciliation E c rep now = Some (c', u) \<Longrightarrow>
      keeps_ids (ec_state E c) (ec_state E c')"
    and mark_ids: "ec_mark_to_market E c prices now = Some (c', u) \<Longrightarrow>
      keeps_ids (ec_state E c) (ec_state E c')"
    and pause_ids: "ec_pause_agent E c a m now = Some (c', u) \<Longrightarrow>
      keeps_ids (ec_state E c) (ec_state E c')"
    and resume_ids: "ec_resume_agent E c a now = Some (c', u) \<Longrightarrow>
      keeps_ids (ec_state E c) (ec_state E c')"
    and adjust_ids: "ec_adjust_limits E c a l = Some (c', u) \<Longrightarrow>
      keeps_ids (ec_state E c) (ec_state E c')"
    and adjust_error: "ec_adjust_limits E c a l = Some (c', Inl err) \<Longrightarrow> ec_state E c' = ec_state E c"
    and halt_ids: "ec_halt_all E c m now = Some (c', u) \<Longrightarrow>
      keeps_ids (ec_state E c) (ec_state E c')"
    and reset_ids: "ec_reset_circuit_breaker E c now = Some (c', u) \<Longrightarrow>
      keeps_ids (ec_state E c) (ec_state E c')"
begin

lemma state_restore: "ec_state E (restore_snapshot E c snap) = sn_state snap"
  by (simp add: restore_snapshot_def state_put)

lemmas op_ids = fill_ids reconciliation_ids mark_ids pause_ids resume_ids adjust_ids halt_ids reset_ids

end

text \<open>
  What the core may do to the life of an order. A pending order waits for the answer of its venue,
  a settled one has had it. Fills and reconciliation may settle any order; no operation of the core
  makes an order pending, which only the acceptance of a submission does.
\<close>

definition pending_order :: "engine_state \<Rightarrow> order_id \<Rightarrow> bool" where
  "pending_order st i \<longleftrightarrow> (\<exists>r. es_orders st i = Some r \<and> or_state r = Pending)"

definition settled :: "engine_state \<Rightarrow> order_id \<Rightarrow> bool" where
  "settled st i \<longleftrightarrow> (\<exists>r. es_orders st i = Some r \<and> or_state r \<noteq> Pending)"

definition adds_no_pending :: "engine_state \<Rightarrow> engine_state \<Rightarrow> bool" where
  "adds_no_pending s s' \<longleftrightarrow> (\<forall>i. pending_order s' i \<longrightarrow> pending_order s i)"

locale order_flow_contract = engine_core_contract +
  assumes fill_pending: "ec_on_fill E c f now = Some (c', u) \<Longrightarrow>
      adds_no_pending (ec_state E c) (ec_state E c')"
    and reconciliation_pending: "ec_on_reconciliation E c rep now = Some (c', u) \<Longrightarrow>
      adds_no_pending (ec_state E c) (ec_state E c')"
    and mark_pending: "ec_mark_to_market E c prices now = Some (c', u) \<Longrightarrow>
      adds_no_pending (ec_state E c) (ec_state E c')"
    and pause_pending: "ec_pause_agent E c a m now = Some (c', u) \<Longrightarrow>
      adds_no_pending (ec_state E c) (ec_state E c')"
    and resume_pending: "ec_resume_agent E c a now = Some (c', u) \<Longrightarrow>
      adds_no_pending (ec_state E c) (ec_state E c')"
    and adjust_pending: "ec_adjust_limits E c a l = Some (c', u) \<Longrightarrow>
      adds_no_pending (ec_state E c) (ec_state E c')"
    and halt_pending: "ec_halt_all E c m now = Some (c', u) \<Longrightarrow>
      adds_no_pending (ec_state E c) (ec_state E c')"
    and reset_pending: "ec_reset_circuit_breaker E c now = Some (c', u) \<Longrightarrow>
      adds_no_pending (ec_state E c) (ec_state E c')"
begin

lemmas op_pending = fill_pending reconciliation_pending mark_pending pause_pending resume_pending
  adjust_pending halt_pending reset_pending

end

lemma adds_no_pending_refl [simp]: "adds_no_pending s s"
  by (simp add: adds_no_pending_def)

lemma adds_no_pendingI: "es_orders s' = es_orders s \<Longrightarrow> adds_no_pending s s'"
  by (simp add: adds_no_pending_def pending_order_def)

lemma settled_iff: "settled st i \<longleftrightarrow> es_orders st i \<noteq> None \<and> \<not> pending_order st i"
  by (auto simp: settled_def pending_order_def)

lemma keeps_ids_orders:
  assumes "keeps_ids s s'"
  shows "es_orders s' i = None \<longleftrightarrow> es_orders s i = None"
proof -
  from assms have "map_option or_client_order_id (es_orders s' i) =
      map_option or_client_order_id (es_orders s i)" by (simp add: keeps_ids_def)
  then show ?thesis by (metis map_option_is_None)
qed

text \<open>
  A successful commit whose snapshot and events carry the same new id makes that snapshot the
  latest one, appends the events, and leaves no newer event. A failed commit is atomic: nothing
  that can be read from the journal has changed. \<open>orderable\<close> are the ids an implementation can
  order.
\<close>

locale journal_contract =
  fixes J :: "'j event_journal" and jinv :: "'j \<Rightarrow> bool" and orderable :: "sequence_id \<Rightarrow> bool"
  assumes commit_ok: "jinv j \<Longrightarrow> ej_persist_commit J j evs (Some sn) = (j', Inr ()) \<Longrightarrow>
      \<forall>e \<in> set evs. se_sequence_id e = sn_sequence_id sn \<Longrightarrow> orderable (sn_sequence_id sn) \<Longrightarrow>
      ej_latest_sequence_id J j = Inr m \<Longrightarrow> m < sn_sequence_id sn \<Longrightarrow>
      (\<And>i old. ej_load_latest_snapshot J j = Inr (Some (i, old)) \<Longrightarrow> i < sn_sequence_id sn) \<Longrightarrow>
      jinv j' \<and> ej_load_latest_snapshot J j' = Inr (Some (sn_sequence_id sn, sn)) \<and>
      (\<exists>n. ej_latest_sequence_id J j' = Inr n \<and> n \<le> sn_sequence_id sn) \<and>
      (\<forall>from old. orderable from \<longrightarrow> ej_replay_from J j from = Inr old \<longrightarrow>
         ej_replay_from J j' from = Inr (old @ filter (\<lambda>e. from \<le> se_sequence_id e) evs))"
    and commit_error: "jinv j \<Longrightarrow> ej_persist_commit J j evs snap = (j', Inl e) \<Longrightarrow>
      jinv j' \<and> ej_load_latest_snapshot J j' = ej_load_latest_snapshot J j \<and>
      ej_latest_sequence_id J j' = ej_latest_sequence_id J j \<and>
      ej_replay_from J j' = ej_replay_from J j"

subsection \<open>The in-memory implementations satisfy the contracts\<close>

lemma test_on_fill_ids:
  "test_on_fill X c f now = Some (c', u) \<Longrightarrow> keeps_ids (tc_state c) (tc_state c')"
  by (auto simp: test_on_fill_def Let_def bind_Some_iff intro!: keeps_ids_put_order
      split: option.splits if_splits)

lemma test_on_reconciliation_ids:
  "test_on_reconciliation c rep now = Some (c', u) \<Longrightarrow> keeps_ids (tc_state c) (tc_state c')"
proof -
  have "keeps_ids (tc_state c) (tc_state (fold (\<lambda>d c. if pd_action d = AcceptVenue
         then c\<lparr>tc_state := (tc_state c)\<lparr>es_positions := (es_positions (tc_state c))
           ((AgentId ''reconciler'', rr_venue_id rep, pd_instrument d) \<mapsto>
              reconciler_position rep d)\<rparr>\<rparr>
         else c) ds c))" for ds
    by (induction ds arbitrary: c) (auto simp: keeps_ids_def)
  then show "test_on_reconciliation c rep now = Some (c', u) \<Longrightarrow> ?thesis"
    by (auto simp: test_on_reconciliation_def)
qed

interpretation test_core: engine_core_contract "test_engine_core X" for X
  by unfold_locales
    (auto simp: test_engine_core_def test_evaluate_order_def into_risk_checked_def keeps_ids_def
      test_on_fill_ids [unfolded keeps_ids_def] test_on_reconciliation_ids [unfolded keeps_ids_def]
      split: if_splits dest: test_on_fill_ids [unfolded keeps_ids_def]
      test_on_reconciliation_ids [unfolded keeps_ids_def])

lemma test_on_fill_pending:
  "test_on_fill X c f now = Some (c', u) \<Longrightarrow> adds_no_pending (tc_state c) (tc_state c')"
  by (auto simp: adds_no_pending_def test_on_fill_def Let_def bind_Some_iff pending_order_def put_order_def
      split: option.splits if_splits)

lemma test_on_reconciliation_orders:
  "test_on_reconciliation c rep now = Some (c', u) \<Longrightarrow> es_orders (tc_state c') = es_orders (tc_state c)"
proof -
  have "es_orders (tc_state (fold (\<lambda>d c. if pd_action d = AcceptVenue
         then c\<lparr>tc_state := (tc_state c)\<lparr>es_positions := (es_positions (tc_state c))
           ((AgentId ''reconciler'', rr_venue_id rep, pd_instrument d) \<mapsto>
              reconciler_position rep d)\<rparr>\<rparr>
         else c) ds c)) = es_orders (tc_state c)" for ds
    by (induction ds arbitrary: c) auto
  then show "test_on_reconciliation c rep now = Some (c', u) \<Longrightarrow> ?thesis"
    by (auto simp: test_on_reconciliation_def)
qed

interpretation test_flow: order_flow_contract "test_engine_core X" for X
proof (unfold_locales, goal_cases)
  case (1 c f now c' u)
  then show ?case using test_on_fill_pending by (simp add: test_engine_core_def)
next
  case (2 c rep now c' u)
  then show ?case using test_on_reconciliation_orders by (simp add: test_engine_core_def adds_no_pendingI)
qed (auto simp: test_engine_core_def intro!: adds_no_pendingI)

interpretation recording: journal_contract recording_event_journal "\<lambda>_. True" "\<lambda>_. True"
  by unfold_locales
    (auto simp: recording_event_journal_def Let_def last_append seq_zero_def)

end
