(* ===== verification/Sequencer.thy ===== *)
theory Sequencer
  imports Engine Order_Lifecycle
begin

text \<open>
  The sequencer (\<open>engine-core/src/sequencer.rs\<close>): the single owner of the engine state, which
  takes commands from a high-priority and a normal queue, gives each a sequence number, handles
  it and commits the events and a snapshot to the journal.

  The engine core and the journal are the records \<open>E\<close> and \<open>J\<close> of the traits' operations. The
  input of one step that is not state of the sequencer (the clock, the price cache, and whether
  the bounded channel to the venue task accepts an order) is \<open>env\<close>, a function of the sequence
  number of the step. The channel is the list of orders handed to it so far, \<open>None\<close> when it is
  not wired. A panic inside a handler (\<open>None\<close>) is caught and turned into an internal error, after
  which the sequencer stops. Log output is not modelled.
\<close>

subsection \<open>State\<close>

datatype try_send_result = SendOk | SendFull | SendClosed

record step_env =
  en_now :: datetime
  en_try_send :: try_send_result
  en_prices :: price_source

definition HIGH_PRIORITY_CHANNEL_CAPACITY :: nat where "HIGH_PRIORITY_CHANNEL_CAPACITY = 64"
definition COMMAND_CHANNEL_CAPACITY :: nat where "COMMAND_CHANNEL_CAPACITY = 1024"
definition VENUE_SUBMIT_CHANNEL_CAPACITY :: nat where "VENUE_SUBMIT_CHANNEL_CAPACITY = 256"

record ('c, 'j) sequencer =
  sq_core :: 'c
  sq_journal :: 'j
  sq_sequence_gen :: sequence_generator
  sq_snapshot_cache :: engine_state_snapshot
  sq_high_priority :: "sequencer_command list"
  sq_commands :: "sequencer_command list"
  sq_generators :: "agent_id \<rightharpoonup> client_order_id_generator"
  sq_restart_epoch :: u16
  sq_venue_submit :: "routed pipeline_order list option"

record command_outcome =
  co_events :: "engine_event list"
  co_state_mutated :: bool
  co_shutdown :: bool

definition outcome_default :: command_outcome where
  "outcome_default = \<lparr>co_events = [], co_state_mutated = False, co_shutdown = False\<rparr>"

definition outcome_events :: "engine_event list \<Rightarrow> command_outcome" where
  "outcome_events es = \<lparr>co_events = es, co_state_mutated = False, co_shutdown = False\<rparr>"

definition outcome_mutated :: "engine_event list \<Rightarrow> command_outcome" where
  "outcome_mutated es = \<lparr>co_events = es, co_state_mutated = True, co_shutdown = False\<rparr>"

definition outcome_shutdown :: command_outcome where
  "outcome_shutdown = \<lparr>co_events = [], co_state_mutated = False, co_shutdown = True\<rparr>"

text \<open>A handler returns the new state, what it sent to the caller, and its result.\<close>

type_synonym ('c, 'j) handled =
  "(('c, 'j) sequencer \<times> reply option \<times> (engine_error + command_outcome)) option"

subsection \<open>Reading and writing the state\<close>

definition seq_state :: "'c engine_core \<Rightarrow> ('c, 'j) sequencer \<Rightarrow> engine_state" where
  "seq_state E s = ec_state E (sq_core s)"

definition seq_put :: "'c engine_core \<Rightarrow> ('c, 'j) sequencer \<Rightarrow> engine_state \<Rightarrow> ('c, 'j) sequencer" where
  "seq_put E s st = s\<lparr>sq_core := ec_put E (sq_core s) st\<rparr>"

definition find_existing_ack :: "'c engine_core \<Rightarrow> ('c, 'j) sequencer \<Rightarrow> order_id \<Rightarrow> order_ack option" where
  "find_existing_ack E s i = do {
     r \<leftarrow> es_orders (seq_state E s) i;
     es_idempotency_cache (seq_state E s) (or_client_order_id r) }"

definition next_client_order_id ::
  "ext \<Rightarrow> ('c, 'j) sequencer \<Rightarrow> agent_id \<Rightarrow> datetime \<Rightarrow> client_order_id \<times> ('c, 'j) sequencer"
where
  "next_client_order_id X s agent now =
     (let g = unwrap_or (sq_generators s agent) (generator_new agent (sq_restart_epoch s));
          (i, g') = generator_next X g now
      in (i, s\<lparr>sq_generators := (sq_generators s)(agent \<mapsto> g')\<rparr>))"

definition snapshot_for_commit ::
  "'c engine_core \<Rightarrow> ('c, 'j) sequencer \<Rightarrow> sequence_id \<Rightarrow> datetime \<Rightarrow> engine_state_snapshot"
where
  "snapshot_for_commit E s sid now =
     \<lparr>sn_state = (seq_state E s)\<lparr>es_last_sequence_id := sid, es_last_updated := now\<rparr>,
      sn_sequence_id = sid, sn_snapshot_at = now\<rparr>"

definition update_metadata ::
  "'c engine_core \<Rightarrow> ('c, 'j) sequencer \<Rightarrow> sequence_id \<Rightarrow> datetime \<Rightarrow> ('c, 'j) sequencer"
where
  "update_metadata E s sid now =
     seq_put E s ((seq_state E s)\<lparr>es_last_sequence_id := sid, es_last_updated := now\<rparr>)"

subsection \<open>Handlers\<close>

definition handle_submit_order ::
  "ext \<Rightarrow> 'c engine_core \<Rightarrow> try_send_result \<Rightarrow> ('c, 'j) sequencer \<Rightarrow> validated pipeline_order \<Rightarrow>
   datetime \<Rightarrow> ('c, 'j) handled"
where
  "handle_submit_order X E send s order now =
     (let order_id = oc_id (po_core order);
          agent_id = oc_agent_id (po_core order);
          instrument_id = oc_instrument_id (po_core order);
          venue_id = oc_venue_id (po_core order)
      in case find_existing_ack E s order_id of
        Some ack \<Rightarrow> Some (s, Some (OrderReply (Inr ack)), Inr outcome_default)
      | None \<Rightarrow> do {
          (core, res) \<leftarrow> ec_evaluate_order E (sq_core s) order now;
          let s = s\<lparr>sq_core := core\<rparr>;
          case res of
            Inl err \<Rightarrow> Some (s, Some (OrderReply (Inl err)),
              Inr (outcome_events [EvOrderRejected order_id ''risk'' (engine_error_display err)]))
          | Inr risk_checked \<Rightarrow>
              (let (client_order_id, s) = next_client_order_id X s agent_id now;
                   routed_core = po_core risk_checked;
                   routing = \<lparr>rt_venue_id = venue_id, rt_client_order_id = client_order_id,
                              rt_routed_at = now\<rparr>;
                   routed = into_routed risk_checked routing;
                   refuse = (\<lambda>reason. Some (s, Some (OrderReply (Inl (Internal reason))),
                      Inr (outcome_events [EvOrderRejected order_id ''route'' reason])));
                   accept = (\<lambda>s.
                      let ack = \<lparr>ak_order_id = order_id, ak_client_order_id = client_order_id,
                                 ak_accepted_at = now\<rparr>;
                          record = \<lparr>or_core = routed_core, or_state = Pending,
                                    or_client_order_id = client_order_id, or_venue_order_id = None,
                                    or_fills = [], or_created_at = now, or_last_updated = now\<rparr>;
                          st = seq_state E s;
                          st' = st\<lparr>es_orders := (es_orders st)(order_id \<mapsto> record),
                                   es_idempotency_cache :=
                                     (es_idempotency_cache st)(client_order_id \<mapsto> ack)\<rparr>
                      in Some (seq_put E s st', Some (OrderReply (Inr ack)),
                           Inr (outcome_mutated
                             [EvOrderReceived order_id agent_id instrument_id venue_id,
                              EvOrderValidated order_id,
                              EvOrderRiskChecked order_id KindApproved,
                              EvOrderRouted order_id venue_id])))
               in case sq_venue_submit s of
                    None \<Rightarrow> accept s
                  | Some sent \<Rightarrow> (case send of
                      SendOk \<Rightarrow> accept (s\<lparr>sq_venue_submit := Some (sent @ [routed])\<rparr>)
                    | SendFull \<Rightarrow> refuse [PStr ''venue submit channel is full '', PStr em_dash,
                                        PStr '' order rejected'']
                    | SendClosed \<Rightarrow> refuse [PStr ''venue submit channel is closed '', PStr em_dash,
                                          PStr '' order rejected'']))})"

text \<open>\<open>get_mut(..).ok_or_else(..)\<close>: the record of an order, or the error.\<close>

definition with_record ::
  "'c engine_core \<Rightarrow> ('c, 'j) sequencer \<Rightarrow> order_id \<Rightarrow> (order_record \<Rightarrow> engine_error + order_record) \<Rightarrow>
   engine_event \<Rightarrow> ('c, 'j) handled"
where
  "with_record E s i f ev = (case es_orders (seq_state E s) i of
       None \<Rightarrow> Some (s, None, Inl (OrderNotFound (order_id_str i)))
     | Some r \<Rightarrow> (case f r of
         Inl e \<Rightarrow> Some (s, None, Inl e)
       | Inr r' \<Rightarrow> Some (seq_put E s (put_order (seq_state E s) i r'), None,
                         Inr (outcome_mutated [ev]))))"

definition handle_venue_ack ::
  "'c engine_core \<Rightarrow> ('c, 'j) sequencer \<Rightarrow> order_id \<Rightarrow> venue_order_id \<Rightarrow> datetime \<Rightarrow> ('c, 'j) handled"
where
  "handle_venue_ack E s i v t = with_record E s i
     (\<lambda>r. if or_state r \<noteq> Pending
          then Inl (ErrInvalidTransition
            [PStr ''venue ack for order '', PStr (order_id_str i), PStr '' in unexpected state '',
             PStr (order_state_display (or_state r))])
          else Inr (r\<lparr>or_state := OSubmitted, or_venue_order_id := Some v,
                      or_last_updated := t\<rparr>))
     (EvOrderSubmitted i v)"

definition handle_venue_submit_failed ::
  "'c engine_core \<Rightarrow> ('c, 'j) sequencer \<Rightarrow> order_id \<Rightarrow> msg \<Rightarrow> datetime \<Rightarrow> ('c, 'j) handled"
where
  "handle_venue_submit_failed E s i reason now = with_record E s i
     (\<lambda>r. if or_state r \<noteq> Pending
          then Inl (ErrInvalidTransition
            [PStr ''venue submit failed for order '', PStr (order_id_str i),
             PStr '' in unexpected state '', PStr (order_state_display (or_state r))])
          else Inr (r\<lparr>or_state := ORejected, or_last_updated := now\<rparr>))
     (EvOrderRejected i ''venue_submit'' reason)"

definition handle_venue_cancelled ::
  "'c engine_core \<Rightarrow> ('c, 'j) sequencer \<Rightarrow> order_id \<Rightarrow> msg \<Rightarrow> datetime \<Rightarrow> ('c, 'j) handled"
where
  "handle_venue_cancelled E s i reason t = with_record E s i
     (\<lambda>r. if or_state r = OSubmitted \<or> or_state r = OPartiallyFilled
          then Inr (r\<lparr>or_state := OCancelled, or_last_updated := t\<rparr>)
          else Inl (ErrInvalidTransition
            [PStr ''venue cancel for order '', PStr (order_id_str i),
             PStr '' in unexpected state '', PStr (order_state_display (or_state r))]))
     (EvOrderCancelled i reason)"

definition remaining_qty :: "ext \<Rightarrow> order_record \<Rightarrow> (engine_error + decimal) option" where
  "remaining_qty X r = do {
     filled_qty \<leftarrow> dec_sum X 0 (map fi_qty (or_fills r));
     remaining \<leftarrow> dec_sub X (oc_qty (or_core r)) filled_qty;
     Some (if remaining < 0
           then Inl (ErrInvalidTransition
             [PStr ''order '', PStr (order_id_str (oc_id (or_core r))), PStr '' overfilled by '',
              PDec \<bar>remaining\<bar>])
           else Inr remaining) }"

definition handle_fill ::
  "ext \<Rightarrow> 'c engine_core \<Rightarrow> ('c, 'j) sequencer \<Rightarrow> fill \<Rightarrow> datetime \<Rightarrow> ('c, 'j) handled"
where
  "handle_fill X E s f now = do {
     (core, res) \<leftarrow> ec_on_fill E (sq_core s) f now;
     let s = s\<lparr>sq_core := core\<rparr>;
     case res of
       Inl e \<Rightarrow> Some (s, None, Inl e)
     | Inr _ \<Rightarrow> (case es_orders (seq_state E s) (fi_order_id f) of
         None \<Rightarrow> Some (s, None, Inl (OrderNotFound (order_id_str (fi_order_id f))))
       | Some r \<Rightarrow> do {
           rem \<leftarrow> remaining_qty X r;
           case rem of
             Inl e \<Rightarrow> Some (s, None, Inl e)
           | Inr q \<Rightarrow> Some (s, None,
               (if or_state r = OPartiallyFilled
                then Inr (outcome_mutated [EvOrderPartiallyFilled (fi_order_id f) (fi_qty f) q
                       (fi_price f) (fi_fee f)])
                else if or_state r = OFilled
                then Inr (outcome_mutated [EvOrderFilled (fi_order_id f) (fi_qty f) (fi_price f)
                       (fi_fee f)])
                else Inl (ErrInvalidTransition
                  [PStr ''fill for order '', PStr (order_id_str (fi_order_id f)),
                   PStr '' left state '', PStr (order_state_display (or_state r))]))) }) }"

definition u32_or_max :: "nat \<Rightarrow> u32" where
  "u32_or_max n = (if n < 2 ^ 32 then of_nat n else - 1)"

definition handle_reconciliation ::
  "'c engine_core \<Rightarrow> ('c, 'j) sequencer \<Rightarrow> reconciliation_report \<Rightarrow> datetime \<Rightarrow> ('c, 'j) handled"
where
  "handle_reconciliation E s report now = do {
     (core, res) \<leftarrow> ec_on_reconciliation E (sq_core s) report now;
     let s = s\<lparr>sq_core := core\<rparr>;
     case res of
       Inl e \<Rightarrow> Some (s, None, Inl e)
     | Inr _ \<Rightarrow>
         (let corrections = map (\<lambda>d. EvPositionCorrected (pd_instrument d) (rr_venue_id report)
                                     (pd_engine_qty d) (pd_venue_qty d))
                (filter (\<lambda>d. pd_action d = AcceptVenue) (rr_position_divergences report))
          in Some (s, None, Inr (outcome_mutated (corrections @
               [EvReconciliationCompleted (rr_venue_id report)
                  (u32_or_max (divergence_count report))])))) }"

text \<open>A core operation whose error ends the command, and the events it gives otherwise.\<close>

definition core_op ::
  "('c, 'j) sequencer \<Rightarrow> ('c, unit) op_result \<Rightarrow> engine_event list \<Rightarrow> ('c, 'j) handled"
where
  "core_op s op evs = do {
     (core, res) \<leftarrow> op;
     Some (s\<lparr>sq_core := core\<rparr>, None,
       (case res of Inl e \<Rightarrow> Inl e | Inr _ \<Rightarrow> Inr (outcome_mutated evs))) }"

definition handle_command ::
  "ext \<Rightarrow> 'c engine_core \<Rightarrow> step_env \<Rightarrow> ('c, 'j) sequencer \<Rightarrow> sequencer_command \<Rightarrow> datetime \<Rightarrow>
   ('c, 'j) handled"
where
  "handle_command X E env s cmd now = (case cmd of
       CmdSubmitOrder order \<Rightarrow> handle_submit_order X E (en_try_send env) s order now
     | CmdSubmitSignal _ \<Rightarrow> Some (s, Some (SignalReply (Inl (UnsupportedCommand ''SubmitSignal''))),
         Inr outcome_default)
     | CmdOnVenueAck i v t \<Rightarrow> handle_venue_ack E s i v t
     | CmdOnVenueSubmitFailed i reason \<Rightarrow> handle_venue_submit_failed E s i reason now
     | CmdOnVenueCancelled i reason t \<Rightarrow> handle_venue_cancelled E s i reason t
     | CmdOnFill f \<Rightarrow> handle_fill X E s f now
     | CmdOnReconciliation report \<Rightarrow> handle_reconciliation E s report now
     | CmdMarkToMarket \<Rightarrow> core_op s (ec_mark_to_market E (sq_core s) (en_prices env) now) []
     | CmdAdjustLimits agent limits \<Rightarrow> do {
         (core, res) \<leftarrow> ec_adjust_limits E (sq_core s) agent limits;
         Some (s\<lparr>sq_core := core\<rparr>, Some (LimitsReply res),
           Inr (case res of Inl _ \<Rightarrow> outcome_default | Inr _ \<Rightarrow> outcome_mutated [])) }
     | CmdPauseAgent agent reason \<Rightarrow>
         core_op s (ec_pause_agent E (sq_core s) agent reason now) [EvAgentPaused agent reason]
     | CmdResumeAgent agent \<Rightarrow>
         core_op s (ec_resume_agent E (sq_core s) agent now) [EvAgentResumed agent]
     | CmdHaltAll reason \<Rightarrow>
         core_op s (ec_halt_all E (sq_core s) reason now) [EvEngineHalted reason]
     | CmdResetCircuitBreaker breaker \<Rightarrow>
         core_op s (ec_reset_circuit_breaker E (sq_core s) now) [EvCircuitBreakerReset breaker]
     | CmdSnapshot \<Rightarrow> Some (s, Some (SnapshotReply (sq_snapshot_cache s)), Inr outcome_default)
     | CmdShutdown \<Rightarrow> Some (s, None, Inr outcome_shutdown))"

subsection \<open>Processing and committing\<close>

text \<open>
  The result of a command is an error, which ends the sequencer, or whether a shutdown was
  requested. The state after a caught panic is not observable: the sequencer is dropped.
\<close>

type_synonym ('c, 'j) processed = "('c, 'j) sequencer \<times> reply option \<times> (engine_error + bool)"

definition seq_err :: "sequence_id \<Rightarrow> msg \<Rightarrow> string \<Rightarrow> msg" where
  "seq_err sid detail what = [PStr what, PStr (sequence_id_display sid), PStr '': ''] @ detail"

definition commit ::
  "'c engine_core \<Rightarrow> 'j event_journal \<Rightarrow> ('c, 'j) sequencer \<Rightarrow> sequence_id \<Rightarrow> datetime \<Rightarrow>
   command_outcome \<Rightarrow> ('c, 'j) sequencer \<times> (engine_error + bool)"
where
  "commit E J s sid now oc =
     (let should_commit_metadata = (co_state_mutated oc \<or> co_events oc \<noteq> []);
          snapshot = snapshot_for_commit E s sid now;
          events = map (\<lambda>ev. \<lparr>se_sequence_id = sid, se_timestamp = now, se_event = ev\<rparr>) (co_events oc)
      in if should_commit_metadata
         then (case ej_persist_commit J (sq_journal s) events (Some snapshot) of
             (j, Inl err) \<Rightarrow> (s\<lparr>sq_journal := j\<rparr>, Inl (ErrJournal
                (seq_err sid (engine_error_display err) ''failed to persist sequencer commit at '')))
           | (j, Inr _) \<Rightarrow>
               ((update_metadata E (s\<lparr>sq_journal := j\<rparr>) sid now)\<lparr>sq_snapshot_cache := snapshot\<rparr>,
                Inr (co_shutdown oc)))
         else (s, Inr (co_shutdown oc)))"

definition process_command ::
  "ext \<Rightarrow> 'c engine_core \<Rightarrow> 'j event_journal \<Rightarrow> (sequence_id \<Rightarrow> step_env) \<Rightarrow> ('c, 'j) sequencer \<Rightarrow>
   sequencer_command \<Rightarrow> ('c, 'j) processed"
where
  "process_command X E J env s cmd =
     (let (sid, gen) = next_id (sq_sequence_gen s);
          s = s\<lparr>sq_sequence_gen := gen\<rparr>;
          now = en_now (env sid)
      in case handle_command X E (env sid) s cmd now of
           Some (s', rep, Inr oc) \<Rightarrow>
             (let (s'', res) = commit E J s' sid now oc in (s'', rep, res))
         | Some (s', rep, Inl err) \<Rightarrow> (s', rep, Inl err)
         | None \<Rightarrow> (s, None, Inl (Internal
             (seq_err sid (lit ''Any { .. }'') ''sequencer panic at ''))))"

subsection \<open>Queues and the main loop\<close>

text \<open>\<open>SequencerHandle::send\<close>: the queue by priority; a full channel delays the sender.\<close>

definition enqueue :: "('c, 'j) sequencer \<Rightarrow> sequencer_command \<Rightarrow> ('c, 'j) sequencer" where
  "enqueue s cmd =
     (if is_high_priority cmd then s\<lparr>sq_high_priority := sq_high_priority s @ [cmd]\<rparr>
      else s\<lparr>sq_commands := sq_commands s @ [cmd]\<rparr>)"

definition try_next_pending_command ::
  "('c, 'j) sequencer \<Rightarrow> (sequencer_command \<times> ('c, 'j) sequencer) option"
where
  "try_next_pending_command s = (case sq_high_priority s of
       c # cs \<Rightarrow> Some (c, s\<lparr>sq_high_priority := cs\<rparr>)
     | [] \<Rightarrow> (case sq_commands s of
         c # cs \<Rightarrow> Some (c, s\<lparr>sq_commands := cs\<rparr>)
       | [] \<Rightarrow> None))"

definition pending :: "('c, 'j) sequencer \<Rightarrow> nat" where
  "pending s = length (sq_high_priority s) + length (sq_commands s)"

text \<open>
  \<open>drain_pending_commands\<close> and \<open>run\<close> on the commands that are queued, when all senders are gone;
  the bound on the number of steps is the number of queued commands, since no step enqueues.
\<close>

fun drain_pending_commands ::
  "nat \<Rightarrow> ext \<Rightarrow> 'c engine_core \<Rightarrow> 'j event_journal \<Rightarrow> (sequence_id \<Rightarrow> step_env) \<Rightarrow> ('c, 'j) sequencer \<Rightarrow>
   ('c, 'j) sequencer \<times> (engine_error + unit)"
where
  "drain_pending_commands 0 X E J env s = (s, Inr ())"
| "drain_pending_commands (Suc n) X E J env s = (case try_next_pending_command s of
       None \<Rightarrow> (s, Inr ())
     | Some (cmd, s) \<Rightarrow> (case process_command X E J env s cmd of
         (s, _, Inl e) \<Rightarrow> (s, Inl e)
       | (s, _, Inr _) \<Rightarrow> drain_pending_commands n X E J env s))"

fun run_loop ::
  "nat \<Rightarrow> ext \<Rightarrow> 'c engine_core \<Rightarrow> 'j event_journal \<Rightarrow> (sequence_id \<Rightarrow> step_env) \<Rightarrow> ('c, 'j) sequencer \<Rightarrow>
   ('c, 'j) sequencer \<times> (engine_error + engine_state_snapshot)"
where
  "run_loop 0 X E J env s = (s, Inr (sq_snapshot_cache s))"
| "run_loop (Suc n) X E J env s = (case try_next_pending_command s of
       None \<Rightarrow> (s, Inr (sq_snapshot_cache s))
     | Some (cmd, s) \<Rightarrow> (case process_command X E J env s cmd of
         (s, _, Inl e) \<Rightarrow> (s, Inl e)
       | (s, _, Inr True) \<Rightarrow> (case drain_pending_commands n X E J env s of
           (s, Inl e) \<Rightarrow> (s, Inl e)
         | (s, Inr _) \<Rightarrow> (s, Inr (sq_snapshot_cache s)))
       | (s, _, Inr False) \<Rightarrow> run_loop n X E J env s))"

definition run ::
  "ext \<Rightarrow> 'c engine_core \<Rightarrow> 'j event_journal \<Rightarrow> (sequence_id \<Rightarrow> step_env) \<Rightarrow> ('c, 'j) sequencer \<Rightarrow>
   ('c, 'j) sequencer \<times> (engine_error + engine_state_snapshot)"
where
  "run X E J env s = run_loop (pending s) X E J env s"

subsection \<open>Start-up\<close>

text \<open>The loop of \<open>restore_client_order_generators\<close> over the values of the cache, in some order.\<close>

fun next_sequences ::
  "order_ack list \<Rightarrow> (agent_id \<rightharpoonup> u64) \<Rightarrow> engine_error + (agent_id \<rightharpoonup> u64)"
where
  "next_sequences [] acc = Inr acc"
| "next_sequences (ack # acks) acc =
     (let i = ak_client_order_id ack in
      case parse_agent i of
        None \<Rightarrow> Inl (Internal [PStr ''persisted client_order_id '', PStr (client_order_id_str i),
                   PStr '' is malformed: missing agent prefix''])
      | Some agent \<Rightarrow>
          (case Option.bind (parse_sequence i) (\<lambda>q. if q = - 1 then None else Some (q + 1)) of
             None \<Rightarrow> Inl (Internal [PStr ''persisted client_order_id '', PStr (client_order_id_str i),
                        PStr '' is malformed: missing or overflowing sequence''])
           | Some next_sequence \<Rightarrow>
               next_sequences acks (acc(agent \<mapsto>
                 (case acc agent of Some cur \<Rightarrow> max cur next_sequence | None \<Rightarrow> next_sequence)))))"

definition restore_client_order_generators ::
  "order_ack list \<Rightarrow> u16 \<Rightarrow> engine_error + (agent_id \<rightharpoonup> client_order_id_generator)"
where
  "restore_client_order_generators acks epoch = (case next_sequences acks Map.empty of
       Inl e \<Rightarrow> Inl e
     | Inr nx \<Rightarrow> Inr (\<lambda>a. map_option (with_start_seq a epoch) (nx a)))"

definition cache_values :: "client_order_id list \<Rightarrow> engine_state \<Rightarrow> order_ack list" where
  "cache_values ks st = List.map_filter (es_idempotency_cache st) ks"

text \<open>
  \<open>Sequencer::new\<close>; \<open>order\<close> gives the iteration order of the idempotency cache's hash map.
\<close>

definition sequencer_new ::
  "'c engine_core \<Rightarrow> 'j event_journal \<Rightarrow> (engine_state \<Rightarrow> client_order_id list) \<Rightarrow> 'c \<Rightarrow> 'j \<Rightarrow> u16 \<Rightarrow>
   engine_error + ('c, 'j) sequencer"
where
  "sequencer_new E J order core journal epoch =
     (case ej_load_latest_snapshot J journal of
        Inl e \<Rightarrow> Inl e
      | Inr latest \<Rightarrow> (case ej_latest_sequence_id J journal of
          Inl e \<Rightarrow> Inl e
        | Inr journal_sequence \<Rightarrow>
            (let core = (case latest of None \<Rightarrow> core | Some (_, snap) \<Rightarrow> restore_snapshot E core snap)
             in case (case latest of
                        Some (sid, _) \<Rightarrow> Inr (sid < journal_sequence)
                      | None \<Rightarrow> (case ej_replay_from J journal seq_zero of
                          Inl e \<Rightarrow> Inl e | Inr evs \<Rightarrow> Inr (evs \<noteq> []))) of
                  Inl e \<Rightarrow> Inl e
                | Inr True \<Rightarrow> Inl (ErrJournal (lit (''journal contains unapplied events beyond the '' @
                    ''latest persisted snapshot; replay bootstrap is not implemented yet'')))
                | Inr False \<Rightarrow>
                    (let current_sequence = (case latest of
                           Some (sid, _) \<Rightarrow> sid | None \<Rightarrow> es_last_sequence_id (ec_state E core));
                         cache = (case latest of
                           Some (_, snap) \<Rightarrow> snap
                         | None \<Rightarrow> core_snapshot E core current_sequence
                                     (es_last_updated (ec_state E core)))
                     in case restore_client_order_generators
                               (cache_values (order (ec_state E core)) (ec_state E core)) epoch of
                          Inl e \<Rightarrow> Inl e
                        | Inr gens \<Rightarrow> Inr \<lparr>
                            sq_core = core,
                            sq_journal = journal,
                            sq_sequence_gen = sequence_generator_new (seq_next current_sequence),
                            sq_snapshot_cache = cache,
                            sq_high_priority = [],
                            sq_commands = [],
                            sq_generators = gens,
                            sq_restart_epoch = epoch,
                            sq_venue_submit = None\<rparr>))))"

definition with_venue_submit_tx :: "('c, 'j) sequencer \<Rightarrow> ('c, 'j) sequencer" where
  "with_venue_submit_tx s = s\<lparr>sq_venue_submit := Some []\<rparr>"

text \<open>The engine state after an accepted order.\<close>

definition accepted_state ::
  "engine_state \<Rightarrow> order_id \<Rightarrow> order_core \<Rightarrow> client_order_id \<Rightarrow> datetime \<Rightarrow> engine_state"
where
  "accepted_state st i core coid now = st\<lparr>
     es_orders := (es_orders st)(i \<mapsto>
       \<lparr>or_core = core, or_state = Pending, or_client_order_id = coid, or_venue_order_id = None,
        or_fills = [], or_created_at = now, or_last_updated = now\<rparr>),
     es_idempotency_cache := (es_idempotency_cache st)(coid \<mapsto>
       \<lparr>ak_order_id = i, ak_client_order_id = coid, ak_accepted_at = now\<rparr>)\<rparr>"

text \<open>The transitions of an order record that venue reports may cause.\<close>

fun venue_report_transition :: "order_state \<Rightarrow> order_state \<Rightarrow> bool" where
  "venue_report_transition Pending OSubmitted = True"
| "venue_report_transition Pending ORejected = True"
| "venue_report_transition OSubmitted OCancelled = True"
| "venue_report_transition OPartiallyFilled OCancelled = True"
| "venue_report_transition _ _ = False"

fun venue_report :: "sequencer_command \<Rightarrow> order_id option" where
  "venue_report (CmdOnVenueAck i _ _) = Some i"
| "venue_report (CmdOnVenueSubmitFailed i _) = Some i"
| "venue_report (CmdOnVenueCancelled i _ _) = Some i"
| "venue_report _ = None"

text \<open>A sequencer over the in-memory core and journal with an empty book.\<close>

definition example_state :: engine_state where
  "example_state = \<lparr>es_orders = Map.empty, es_positions = Map.empty, es_pending_signals = Map.empty,
     es_firm_book = \<lparr>fb_nav = 0, fb_gross_notional = 0, fb_net_notional = 0, fb_realized_pnl = 0,
       fb_unrealized_pnl = 0, fb_daily_pnl = 0, fb_hourly_pnl = 0, fb_current_drawdown_pct = 0,
       fb_allocated_capital = 0, fb_cash_available = 0, fb_total_fees_paid = 0,
       fb_agent_allocations = Map.empty, fb_instruments = [],
       fb_prediction_exposure = \<lparr>pe_total_notional = 0, pe_pct_of_nav = 0, pe_unresolved_markets = 0\<rparr>,
       fb_as_of = 0\<rparr>,
     es_agent_allocations = Map.empty,
     es_risk_limits = \<lparr>rl_firm = \<lparr>fl_max_gross_notional = 0, fl_max_net_notional = 0,
         fl_max_drawdown_pct = 0, fl_max_daily_loss = 0, fl_max_open_orders = 0\<rparr>,
       rl_per_agent = Map.empty, rl_per_instrument = Map.empty, rl_per_venue = Map.empty,
       rl_prediction_market = \<lparr>pl_max_total_notional = 0, pl_max_per_market_notional = 0,
         pl_max_pct_of_nav = 0, pl_max_unresolved_markets = 0\<rparr>\<rparr>,
     es_agent_statuses = Map.empty, es_idempotency_cache = Map.empty, es_last_sequence_id = 0,
     es_last_updated = 0\<rparr>"

definition example_sequencer :: "(test_core, recording_journal) sequencer" where
  "example_sequencer = \<lparr>
     sq_core = \<lparr>tc_state = example_state, tc_reject_orders = False\<rparr>,
     sq_journal = \<lparr>jr_events = [], jr_snapshot = None\<rparr>,
     sq_sequence_gen = 1,
     sq_snapshot_cache = \<lparr>sn_state = example_state, sn_sequence_id = 0, sn_snapshot_at = 0\<rparr>,
     sq_high_priority = [], sq_commands = [], sq_generators = Map.empty, sq_restart_epoch = 0,
     sq_venue_submit = Some []\<rparr>"

definition example_env :: "sequence_id \<Rightarrow> step_env" where
  "example_env sid = \<lparr>en_now = uint sid, en_try_send = SendOk,
     en_prices = \<lparr>latest_price = (\<lambda>_. None), is_stale = (\<lambda>_ _. False)\<rparr>\<rparr>"

definition example_validated :: "validated pipeline_order" where
  "example_validated = into_validated (pipeline_new example_core) 0"

subsection \<open>What the handlers leave alone\<close>

text \<open>Everything but the core, the generators and the venue channel.\<close>

definition same_frame :: "('c, 'j) sequencer \<Rightarrow> ('c, 'j) sequencer \<Rightarrow> bool" where
  "same_frame s t \<longleftrightarrow> sq_journal t = sq_journal s \<and> sq_sequence_gen t = sq_sequence_gen s \<and>
     sq_snapshot_cache t = sq_snapshot_cache s \<and> sq_high_priority t = sq_high_priority s \<and>
     sq_commands t = sq_commands s \<and> sq_restart_epoch t = sq_restart_epoch s"

lemmas handler_defs = handle_venue_ack_def handle_venue_submit_failed_def handle_venue_cancelled_def
  with_record_def handle_fill_def handle_reconciliation_def core_op_def

lemmas outcome_defs = outcome_default_def outcome_events_def outcome_mutated_def outcome_shutdown_def

lemma same_frame_simps [simp]:
  "same_frame s s" "same_frame s (s\<lparr>sq_core := c\<rparr>)" "same_frame s (seq_put E s st)"
  "same_frame s (t\<lparr>sq_core := c\<rparr>) = same_frame s t"
  "same_frame s (t\<lparr>sq_generators := g\<rparr>) = same_frame s t"
  "same_frame s (t\<lparr>sq_venue_submit := v\<rparr>) = same_frame s t"
  "same_frame s (seq_put E t st) = same_frame s t"
  by (simp_all add: same_frame_def seq_put_def)

lemma submit_order_frame:
  "handle_submit_order X E send s ord now = Some (s', rep, res) \<Longrightarrow> same_frame s s'"
  by (cases send) (auto simp: handle_submit_order_def Let_def bind_Some_iff next_client_order_id_def
      generator_next_def option_case_iff sum_case_iff)

lemma with_record_frame: "with_record E s i f ev = Some (s', rep, res) \<Longrightarrow> same_frame s s'"
  by (auto simp: with_record_def option_case_iff sum_case_iff)

lemma handle_fill_frame: "handle_fill X E s f now = Some (s', rep, res) \<Longrightarrow> same_frame s s'"
  by (auto simp: handle_fill_def bind_Some_iff Let_def option_case_iff sum_case_iff)

lemma handle_reconciliation_frame:
  "handle_reconciliation E s rp now = Some (s', rep, res) \<Longrightarrow> same_frame s s'"
  by (auto simp: handle_reconciliation_def bind_Some_iff Let_def sum_case_iff)

lemma core_op_frame: "core_op s op evs = Some (s', rep, res) \<Longrightarrow> same_frame s s'"
  by (auto simp: core_op_def bind_Some_iff)

lemma handle_command_frame:
  assumes "handle_command X E env s cmd now = Some (s', rep, res)"
  shows "same_frame s s'"
  using assms
  by (cases cmd)
    (auto simp: handle_command_def handle_venue_ack_def handle_venue_submit_failed_def
      handle_venue_cancelled_def bind_Some_iff
      dest: submit_order_frame with_record_frame handle_fill_frame handle_reconciliation_frame
      core_op_frame)

lemma process_command_cases:
  assumes "process_command X E J env s cmd = (s', rep, res)"
  obtains (panic) "handle_command X E (env (sq_sequence_gen s))
        (s\<lparr>sq_sequence_gen := sq_sequence_gen s + 1\<rparr>) cmd (en_now (env (sq_sequence_gen s))) = None"
      and "s' = s\<lparr>sq_sequence_gen := sq_sequence_gen s + 1\<rparr>" and "\<exists>e. res = Inl e"
  | (error) e where "handle_command X E (env (sq_sequence_gen s))
        (s\<lparr>sq_sequence_gen := sq_sequence_gen s + 1\<rparr>) cmd (en_now (env (sq_sequence_gen s))) =
        Some (s', rep, Inl e)" and "res = Inl e"
  | (ok) s1 oc where "handle_command X E (env (sq_sequence_gen s))
        (s\<lparr>sq_sequence_gen := sq_sequence_gen s + 1\<rparr>) cmd (en_now (env (sq_sequence_gen s))) =
        Some (s1, rep, Inr oc)"
      and "commit E J s1 (sq_sequence_gen s) (en_now (env (sq_sequence_gen s))) oc = (s', res)"
  using assms
  by (auto simp: process_command_def next_id_def Let_def
      split: option.splits prod.splits sum.splits)

lemma commit_frame:
  assumes "commit E J s sid now oc = (s', res)"
  shows "sq_sequence_gen s' = sq_sequence_gen s" "sq_high_priority s' = sq_high_priority s"
    "sq_commands s' = sq_commands s" "sq_restart_epoch s' = sq_restart_epoch s"
    "sq_generators s' = sq_generators s" "sq_venue_submit s' = sq_venue_submit s"
  using assms
  by (auto simp: commit_def Let_def update_metadata_def seq_put_def
      split: if_splits prod.splits sum.splits)

lemma process_command_gen:
  assumes "process_command X E J env s cmd = (s', rep, res)"
  shows "sq_sequence_gen s' = sq_sequence_gen s + 1 \<and> sq_high_priority s' = sq_high_priority s \<and>
    sq_commands s' = sq_commands s"
  using assms
proof (cases rule: process_command_cases)
  case (error e)
  from handle_command_frame [OF error(1)] show ?thesis by (simp add: same_frame_def)
next
  case (ok s1 oc)
  from handle_command_frame [OF ok(1)] commit_frame [OF ok(2)] show ?thesis
    by (simp add: same_frame_def)
qed simp

text \<open>The paths through \<open>handle_submit_order\<close>.\<close>

lemma submit_order_cases:
  assumes "handle_submit_order X E send s ord now = Some (s', rep, res)"
  obtains (cached) ack where "find_existing_ack E s (oc_id (po_core ord)) = Some ack"
      and "s' = s" and "rep = Some (OrderReply (Inr ack))" and "res = Inr outcome_default"
  | (risk) c err where "find_existing_ack E s (oc_id (po_core ord)) = None"
      and "ec_evaluate_order E (sq_core s) ord now = Some (c, Inl err)" and "s' = s\<lparr>sq_core := c\<rparr>"
      and "rep = Some (OrderReply (Inl err))"
      and "res = Inr (outcome_events
        [EvOrderRejected (oc_id (po_core ord)) ''risk'' (engine_error_display err)])"
  | (refused) c rc sent err where "find_existing_ack E s (oc_id (po_core ord)) = None"
      and "ec_evaluate_order E (sq_core s) ord now = Some (c, Inr rc)"
      and "sq_venue_submit s = Some sent" and "send \<noteq> SendOk"
      and "s' = snd (next_client_order_id X (s\<lparr>sq_core := c\<rparr>) (oc_agent_id (po_core ord)) now)"
      and "rep = Some (OrderReply (Inl (Internal err)))"
      and "res = Inr (outcome_events [EvOrderRejected (oc_id (po_core ord)) ''route'' err])"
  | (accepted) c rc coid s1 s2 where "find_existing_ack E s (oc_id (po_core ord)) = None"
      and "ec_evaluate_order E (sq_core s) ord now = Some (c, Inr rc)"
      and "next_client_order_id X (s\<lparr>sq_core := c\<rparr>) (oc_agent_id (po_core ord)) now = (coid, s1)"
      and "sq_venue_submit s = None \<or> send = SendOk"
      and "s2 = s1\<lparr>sq_venue_submit := map_option (\<lambda>sent. sent @ [into_routed rc
             \<lparr>rt_venue_id = oc_venue_id (po_core ord), rt_client_order_id = coid,
              rt_routed_at = now\<rparr>]) (sq_venue_submit s)\<rparr>"
      and "s' = seq_put E s2
             (accepted_state (seq_state E s1) (oc_id (po_core ord)) (po_core rc) coid now)"
      and "rep = Some (OrderReply (Inr \<lparr>ak_order_id = oc_id (po_core ord),
             ak_client_order_id = coid, ak_accepted_at = now\<rparr>))"
      and "res = Inr (outcome_mutated
        [EvOrderReceived (oc_id (po_core ord)) (oc_agent_id (po_core ord))
           (oc_instrument_id (po_core ord)) (oc_venue_id (po_core ord)),
         EvOrderValidated (oc_id (po_core ord)),
         EvOrderRiskChecked (oc_id (po_core ord)) KindApproved,
         EvOrderRouted (oc_id (po_core ord)) (oc_venue_id (po_core ord))])"
proof (cases "find_existing_ack E s (oc_id (po_core ord))")
  case (Some ack)
  with assms show thesis by (intro cached) (auto simp: handle_submit_order_def Let_def)
next
  case None
  then obtain c r where ev: "ec_evaluate_order E (sq_core s) ord now = Some (c, r)"
    using assms by (auto simp: handle_submit_order_def Let_def bind_Some_iff)
  show thesis
  proof (cases r)
    case (Inl err)
    with assms None ev show thesis by (intro risk) (auto simp: handle_submit_order_def Let_def)
  next
    case (Inr rc)
    obtain coid s1 where
      n: "next_client_order_id X (s\<lparr>sq_core := c\<rparr>) (oc_agent_id (po_core ord)) now = (coid, s1)"
      by fastforce
    then have v: "sq_venue_submit s1 = sq_venue_submit s"
      by (auto simp: next_client_order_id_def Let_def generator_next_def)
    note e = assms [unfolded handle_submit_order_def Let_def, simplified None ev Inr, simplified,
        simplified n, simplified, simplified v]
    show thesis
    proof (cases "sq_venue_submit s")
      case wired: None
      have "s1\<lparr>sq_venue_submit := None\<rparr> = s1" using v wired by simp
      with e wired show thesis
        by (intro accepted [OF None ev [unfolded Inr] n, of s1])
          (auto simp: seq_state_def accepted_state_def)
    next
      case (Some sent)
      show thesis
      proof (cases send)
        case SendOk
        with e Some show thesis
          by (intro accepted [OF None ev [unfolded Inr] n _ refl])
            (simp_all add: seq_state_def accepted_state_def)
      next
        case SendFull
        with e Some show thesis
          by (intro refused [OF None ev [unfolded Inr] Some, where err =
                "[PStr ''venue submit channel is full '', PStr em_dash, PStr '' order rejected'']"])
            (simp_all add: n)
      next
        case SendClosed
        with e Some show thesis
          by (intro refused [OF None ev [unfolded Inr] Some, where err =
                "[PStr ''venue submit channel is closed '', PStr em_dash, PStr '' order rejected'']"])
            (simp_all add: n)
      qed
    qed
  qed
qed

subsection \<open>Consequences of the core's contract\<close>

context engine_core_contract
begin

lemma seq_state_put [simp]: "seq_state E (seq_put E s st) = st"
  by (simp add: seq_state_def seq_put_def state_put)

lemma next_client_order_id_state:
  "next_client_order_id X s a now = (i, s') \<Longrightarrow>
   seq_state E s' = seq_state E s \<and> sq_venue_submit s' = sq_venue_submit s"
  by (auto simp: next_client_order_id_def generator_next_def seq_state_def Let_def)

lemma evaluate_seq_state:
  "ec_evaluate_order E (sq_core s) ord now = Some (c, r) \<Longrightarrow>
   seq_state E (s\<lparr>sq_core := c\<rparr>) = seq_state E s"
  by (simp add: seq_state_def evaluate_state)

lemma find_ack_accepted:
  "seq_state E s = accepted_state st i core coid now \<Longrightarrow> find_existing_ack E s i =
     Some \<lparr>ak_order_id = i, ak_client_order_id = coid, ak_accepted_at = now\<rparr>"
  by (simp add: find_existing_ack_def accepted_state_def)

lemma submit_reply_found:
  assumes "handle_submit_order X E send s ord now = Some (s', Some (OrderReply (Inr ack)), res)"
  shows "find_existing_ack E s' (oc_id (po_core ord)) = Some ack"
  using assms
proof (cases rule: submit_order_cases)
  case (accepted c rc coid s1 s2)
  then have "seq_state E s' =
      accepted_state (seq_state E s1) (oc_id (po_core ord)) (po_core rc) coid now"
    by simp
  from find_ack_accepted [OF this] accepted(7) show ?thesis by simp
qed simp_all

lemma keeps_ids_ack:
  "keeps_ids (seq_state E s) (seq_state E s') \<Longrightarrow> find_existing_ack E s' i = find_existing_ack E s i"
  by (cases "es_orders (seq_state E s) i"; cases "es_orders (seq_state E s') i")
    (auto simp: find_existing_ack_def keeps_ids_def dest: spec [of _ i])

lemma with_record_ids:
  assumes "with_record E s i f ev = Some (s', rep, res)"
    and "\<And>r r'. f r = Inr r' \<Longrightarrow> or_client_order_id r' = or_client_order_id r"
  shows "keeps_ids (seq_state E s) (seq_state E s')"
  using assms by (auto simp: with_record_def option_case_iff sum_case_iff intro!: keeps_ids_put_order)

lemma core_op_ids:
  assumes "core_op s op evs = Some (s', rep, res)"
    and "\<And>c u. op = Some (c, u) \<Longrightarrow> keeps_ids (seq_state E s) (ec_state E c)"
  shows "keeps_ids (seq_state E s) (seq_state E s')"
  using assms by (auto simp: core_op_def bind_Some_iff seq_state_def)

lemma handle_command_ids:
  assumes "handle_command X E env s cmd now = Some (s', rep, res)"
    and "\<nexists>ord. cmd = CmdSubmitOrder ord"
  shows "keeps_ids (seq_state E s) (seq_state E s')"
proof (cases cmd)
  case (CmdOnFill f)
  with assms(1) obtain c u where "ec_on_fill E (sq_core s) f now = Some (c, u)" "sq_core s' = c"
    by (auto simp: handle_command_def handle_fill_def bind_Some_iff Let_def option_case_iff
        sum_case_iff)
  then show ?thesis by (auto simp: seq_state_def dest: fill_ids)
next
  case (CmdOnReconciliation rp)
  with assms(1) obtain c u where "ec_on_reconciliation E (sq_core s) rp now = Some (c, u)" "sq_core s' = c"
    by (auto simp: handle_command_def handle_reconciliation_def bind_Some_iff Let_def sum_case_iff)
  then show ?thesis by (auto simp: seq_state_def dest: reconciliation_ids)
qed (use assms in \<open>auto simp: handle_command_def handle_venue_ack_def handle_venue_submit_failed_def
      handle_venue_cancelled_def bind_Some_iff seq_state_def split: if_splits
      elim!: with_record_ids [unfolded seq_state_def] core_op_ids [unfolded seq_state_def]
      dest: op_ids\<close>)

end

lemma with_record_cases:
  assumes "with_record E s i f ev = Some (s', rep, res)"
  obtains (missing) e where "res = Inl e" and "s' = s"
  | (changed) r r' where "es_orders (seq_state E s) i = Some r" and "f r = Inr r'"
      and "s' = seq_put E s (put_order (seq_state E s) i r')"
      and "res = Inr (outcome_mutated [ev])"
  using assms by (auto simp: with_record_def option_case_iff sum_case_iff)

text \<open>A submission that is not answered with an acknowledgement leaves no trace of the order.\<close>

context engine_core_contract
begin

lemma submit_error_state:
  assumes "handle_submit_order X E send s ord now = Some (s', Some (OrderReply (Inl e)), res)"
  shows "seq_state E s' = seq_state E s \<and> sq_venue_submit s' = sq_venue_submit s"
  using assms
proof (cases rule: submit_order_cases)
  case (risk c err)
  then show ?thesis by (simp add: evaluate_seq_state)
next
  case (refused c rc sent err)
  have "\<exists>i. next_client_order_id X (s\<lparr>sq_core := c\<rparr>) (oc_agent_id (po_core ord)) now = (i, s')"
    using refused(5) by (metis prod.collapse)
  then show ?thesis
    using next_client_order_id_state evaluate_seq_state [OF refused(2)] by fastforce
qed simp_all

lemma submit_accept_state:
  assumes "handle_submit_order X E send s ord now = Some (s', Some (OrderReply (Inr ack)), res)"
    and "find_existing_ack E s (oc_id (po_core ord)) = None"
  shows "\<exists>core rc. oc_id core = oc_id (po_core ord) \<and>
    seq_state E s' = accepted_state (seq_state E s) (oc_id (po_core ord)) core
      (ak_client_order_id ack) now \<and>
    sq_venue_submit s' = map_option (\<lambda>sent. sent @ [into_routed rc
      \<lparr>rt_venue_id = oc_venue_id (po_core ord), rt_client_order_id = ak_client_order_id ack,
       rt_routed_at = now\<rparr>]) (sq_venue_submit s) \<and> po_core rc = core"
  using assms(1)
proof (cases rule: submit_order_cases)
  case (accepted c rc coid s1 s2)
  then have "seq_state E s1 = seq_state E s" "sq_venue_submit s1 = sq_venue_submit s"
    using next_client_order_id_state [OF accepted(3)] evaluate_seq_state [OF accepted(2)] by auto
  then show ?thesis
    using accepted evaluate_id [OF accepted(2)] by (auto simp: seq_put_def state_put seq_state_def intro!: exI [of _ rc])
qed (use assms(2) in simp_all)

end

subsection \<open>Properties\<close>

text \<open>
  C14: Submission is idempotent: once an order id has been acknowledged, a further submission under
  that id returns the same acknowledgement and does nothing else, neither to the engine state nor
  to the venue channel; and this stays so after any other command that does not itself accept an
  order.
\<close>

theorem resubmission_idempotent:
  assumes "engine_core_contract E"
    and "handle_submit_order X E send s ord now = Some (s1, Some (OrderReply (Inr ack)), res)"
    and "handle_command X E env s1 cmd now' = Some (s2, rep, res')"
    and "\<nexists>ack'. rep = Some (OrderReply (Inr ack'))"
    and "oc_id (po_core ord2) = oc_id (po_core ord)"
  shows "handle_submit_order X E send2 s1 ord2 now2 =
      Some (s1, Some (OrderReply (Inr ack)), Inr outcome_default) \<and>
    handle_submit_order X E send2 s2 ord2 now2 =
      Some (s2, Some (OrderReply (Inr ack)), Inr outcome_default)"
proof -
  note contract = assms(1)
  have f1: "find_existing_ack E s1 (oc_id (po_core ord)) = Some ack"
    by (rule engine_core_contract.submit_reply_found [OF contract assms(2)])
  have "keeps_ids (seq_state E s1) (seq_state E s2)"
  proof (cases "\<exists>o'. cmd = CmdSubmitOrder o'")
    case True
    then obtain o' where
      h: "handle_submit_order X E (en_try_send env) s1 o' now' = Some (s2, rep, res')"
      using assms(3) by (auto simp: handle_command_def)
    then obtain e where "rep = Some (OrderReply (Inl e))"
      using assms(4) by (cases rule: submit_order_cases) auto
    with h engine_core_contract.submit_error_state [OF contract] show ?thesis by fastforce
  next
    case False
    then show ?thesis by (rule engine_core_contract.handle_command_ids [OF contract assms(3)])
  qed
  then have "find_existing_ack E s2 (oc_id (po_core ord)) = Some ack"
    using engine_core_contract.keeps_ids_ack [OF contract] f1 by metis
  with f1 assms(5) show ?thesis by (simp add: handle_submit_order_def Let_def)
qed

lemma example_submit:
  "\<exists>s1 ack res. handle_submit_order ideal_ext (test_engine_core ideal_ext) SendOk example_sequencer
     example_validated 1 = Some (s1, Some (OrderReply (Inr ack)), res)"
  by (simp add: handle_submit_order_def find_existing_ack_def seq_state_def test_engine_core_def
      example_sequencer_def example_state_def test_evaluate_order_def Let_def
      next_client_order_id_def generator_next_def)

lemma test_core_contract: "engine_core_contract (test_engine_core X)"
  by (rule test_core.engine_core_contract_axioms)

theorem resubmission_idempotent_witness:
  "\<exists>s1 ack res. handle_submit_order ideal_ext (test_engine_core ideal_ext) SendOk example_sequencer
       example_validated 1 = Some (s1, Some (OrderReply (Inr ack)), res) \<and>
     handle_submit_order ideal_ext (test_engine_core ideal_ext) SendFull s1 example_validated 2 =
       Some (s1, Some (OrderReply (Inr ack)), Inr outcome_default)"
proof -
  obtain s1 ack res where h: "handle_submit_order ideal_ext (test_engine_core ideal_ext) SendOk
      example_sequencer example_validated 1 = Some (s1, Some (OrderReply (Inr ack)), res)"
    using example_submit by blast
  have "handle_command ideal_ext (test_engine_core ideal_ext) (example_env 2) s1 CmdSnapshot 2 =
      Some (s1, Some (SnapshotReply (sq_snapshot_cache s1)), Inr outcome_default)"
    by (simp add: handle_command_def)
  from resubmission_idempotent [OF test_core_contract h this _ refl, of SendFull 2] h
  show ?thesis by auto
qed

text \<open>
  C1: No ghost orders: a submission that is answered with an error leaves the engine state and the
  venue channel as they were; one that is newly acknowledged adds exactly one pending record,
  under the id of the order, with the acknowledgement in the idempotency cache, and hands exactly
  one routed order, with the same data and client order id, to the venue channel if there is one.
\<close>

theorem no_ghost_orders:
  assumes "engine_core_contract E"
    and "handle_submit_order X E send s ord now = Some (s', Some (OrderReply r), res)"
    and "find_existing_ack E s (oc_id (po_core ord)) = None"
  shows "case r of
      Inl e \<Rightarrow> seq_state E s' = seq_state E s \<and> sq_venue_submit s' = sq_venue_submit s
    | Inr ack \<Rightarrow> (\<exists>core routed.
        seq_state E s' = accepted_state (seq_state E s) (oc_id (po_core ord)) core
          (ak_client_order_id ack) now \<and>
        oc_id core = oc_id (po_core ord) \<and> po_core routed = core \<and>
        routed_client_order_id routed = ak_client_order_id ack \<and>
        sq_venue_submit s' = map_option (\<lambda>sent. sent @ [routed]) (sq_venue_submit s))"
proof (cases r)
  case (Inl e)
  with engine_core_contract.submit_error_state [OF assms(1)] assms(2) show ?thesis by fastforce
next
  case (Inr ack)
  from engine_core_contract.submit_accept_state [OF assms(1) assms(2) [unfolded Inr] assms(3)]
  obtain core rc where c: "oc_id core = oc_id (po_core ord)"
      "seq_state E s' = accepted_state (seq_state E s) (oc_id (po_core ord)) core
         (ak_client_order_id ack) now"
      "sq_venue_submit s' = map_option (\<lambda>sent. sent @ [into_routed rc
        \<lparr>rt_venue_id = oc_venue_id (po_core ord), rt_client_order_id = ak_client_order_id ack,
         rt_routed_at = now\<rparr>]) (sq_venue_submit s)" "po_core rc = core" by blast
  let ?routed = "into_routed rc \<lparr>rt_venue_id = oc_venue_id (po_core ord),
      rt_client_order_id = ak_client_order_id ack, rt_routed_at = now\<rparr>"
  have "po_core ?routed = core" "routed_client_order_id ?routed = ak_client_order_id ack"
    using c(4) by (simp_all add: into_routed_def routed_client_order_id_def)
  with c(1-3) Inr show ?thesis by auto
qed

theorem no_ghost_orders_witness:
  "\<exists>(s1 :: (test_core, recording_journal) sequencer) (ack :: order_ack) core.
     seq_state (test_engine_core ideal_ext) s1 =
     accepted_state (seq_state (test_engine_core ideal_ext) example_sequencer) (OrderId ''ord-1'') core
       (ak_client_order_id ack) 1 \<and> (\<exists>routed. sq_venue_submit s1 = Some [routed])"
proof -
  obtain s1 ack res where h: "handle_submit_order ideal_ext (test_engine_core ideal_ext) SendOk
      example_sequencer example_validated 1 = Some (s1, Some (OrderReply (Inr ack)), res)"
    using example_submit by blast
  have i: "oc_id (po_core example_validated) = OrderId ''ord-1''"
    by (simp add: example_validated_def into_validated_def pipeline_new_def example_core_def)
  have f: "find_existing_ack (test_engine_core ideal_ext) example_sequencer
      (oc_id (po_core example_validated)) = None"
    by (simp add: find_existing_ack_def seq_state_def test_engine_core_def example_sequencer_def
        example_state_def)
  have v: "sq_venue_submit example_sequencer = Some []" by (simp add: example_sequencer_def)
  from no_ghost_orders [OF test_core_contract h f] show ?thesis by (auto simp: i v)
qed

text \<open>
  C15: Venue reports move an order record only along \<open>Pending \<rightarrow> Submitted\<close>, \<open>Pending \<rightarrow> Rejected\<close>
  and \<open>Submitted, PartiallyFilled \<rightarrow> Cancelled\<close>, never out of a terminal state; they change no
  other order, nor the data, client order id or fills of this one. A report that does not fit is
  an error and changes nothing.
\<close>

theorem venue_reports_follow_lifecycle:
  assumes "engine_core_contract E" and "venue_report cmd = Some i"
    and "handle_command X E env s cmd now = Some (s', rep, res)"
  shows "(\<exists>e. res = Inl e \<and> s' = s) \<or>
    (\<exists>r r'. es_orders (seq_state E s) i = Some r \<and>
       seq_state E s' = put_order (seq_state E s) i r' \<and>
       venue_report_transition (or_state r) (or_state r') \<and>
       \<not> order_state_is_terminal (or_state r) \<and>
       or_core r' = or_core r \<and> or_client_order_id r' = or_client_order_id r \<and>
       or_fills r' = or_fills r)"
proof -
  note st = engine_core_contract.seq_state_put [OF assms(1)]
  have "\<exists>f ev. handle_command X E env s cmd now = with_record E s i f ev \<and>
    (\<forall>r r'. f r = Inr r' \<longrightarrow> venue_report_transition (or_state r) (or_state r') \<and>
       \<not> order_state_is_terminal (or_state r) \<and> or_core r' = or_core r \<and>
       or_client_order_id r' = or_client_order_id r \<and> or_fills r' = or_fills r)"
    using assms(2)
    by (cases cmd) (fastforce simp: handle_command_def handle_venue_ack_def
        handle_venue_submit_failed_def handle_venue_cancelled_def split: if_splits)+
  with assms(3) obtain f ev where w: "with_record E s i f ev = Some (s', rep, res)"
    and f: "\<And>r r'. f r = Inr r' \<Longrightarrow> venue_report_transition (or_state r) (or_state r') \<and>
       \<not> order_state_is_terminal (or_state r) \<and> or_core r' = or_core r \<and>
       or_client_order_id r' = or_client_order_id r \<and> or_fills r' = or_fills r" by auto
  from w show ?thesis
  proof (cases rule: with_record_cases)
    case (changed r r')
    with f [OF changed(2)] st show ?thesis by auto
  qed simp
qed

theorem venue_reports_follow_lifecycle_witness:
  "\<exists>(s1 :: (test_core, recording_journal) sequencer) s2 rep res r r'. handle_command ideal_ext (test_engine_core ideal_ext) (example_env 2) s1
       (CmdOnVenueAck (OrderId ''ord-1'') (VenueOrderId ''v-1'') 2) 2 = Some (s2, rep, res) \<and>
     es_orders (seq_state (test_engine_core ideal_ext) s1) (OrderId ''ord-1'') = Some r \<and>
     es_orders (seq_state (test_engine_core ideal_ext) s2) (OrderId ''ord-1'') = Some r' \<and>
     venue_report_transition (or_state r) (or_state r')"
proof -
  let ?E = "test_engine_core ideal_ext"
  let ?s = "seq_put ?E example_sequencer
    (accepted_state example_state (OrderId ''ord-1'') example_core (ClientOrderId ''c'') 1)"
  let ?cmd = "CmdOnVenueAck (OrderId ''ord-1'') (VenueOrderId ''v-1'') 2"
  obtain s2 rep oc where
    h: "handle_command ideal_ext ?E (example_env 2) ?s ?cmd 2 = Some (s2, rep, Inr oc)"
    by (simp add: handle_command_def handle_venue_ack_def with_record_def accepted_state_def
        test_core.seq_state_put)
  have "venue_report ?cmd = Some (OrderId ''ord-1'')" by simp
  from venue_reports_follow_lifecycle [OF test_core_contract this h] obtain r r' where
      "es_orders (seq_state ?E ?s) (OrderId ''ord-1'') = Some r"
      "seq_state ?E s2 = put_order (seq_state ?E ?s) (OrderId ''ord-1'') r'"
      "venue_report_transition (or_state r) (or_state r')" by auto
  moreover from this(2) have "es_orders (seq_state ?E s2) (OrderId ''ord-1'') = Some r'"
    by (simp add: put_order_def)
  ultimately show ?thesis using h by blast
qed

end
