(* ===== verification/Sequencer_Recovery.thy ===== *)
theory Sequencer_Recovery
  imports Sequencer
begin

text \<open>
  Histories of the sequencer: the events a command adds to the journal, the order in which queued
  commands are taken, what a restart restores from the journal, the client order ids handed out
  after a restart, and what ends the main loop.
\<close>

text \<open>The events of a journal are numbered in order, below the next number \<open>g\<close>.\<close>

definition sequenced :: "journal_events \<Rightarrow> sequence_id \<Rightarrow> bool" where
  "sequenced evs g \<longleftrightarrow> sorted (map (uint \<circ> se_sequence_id) evs) \<and> (\<forall>e \<in> set evs. se_sequence_id e < g)"

text \<open>
  The journal holds the cached snapshot: it is the latest snapshot of the journal, and no event
  is newer. The sequencer is durable when the cached snapshot is also the engine state.
\<close>

definition held :: "'j event_journal \<Rightarrow> ('c, 'j) sequencer \<Rightarrow> bool" where
  "held J s \<longleftrightarrow>
     ej_load_latest_snapshot J (sq_journal s) =
       Inr (Some (sn_sequence_id (sq_snapshot_cache s), sq_snapshot_cache s)) \<and>
     (\<exists>m. ej_latest_sequence_id J (sq_journal s) = Inr m \<and> m \<le> sn_sequence_id (sq_snapshot_cache s)) \<and>
     sn_sequence_id (sq_snapshot_cache s) < sq_sequence_gen s"

definition durable :: "'c engine_core \<Rightarrow> 'j event_journal \<Rightarrow> ('c, 'j) sequencer \<Rightarrow> bool" where
  "durable E J s \<longleftrightarrow> held J s \<and> sn_state (sq_snapshot_cache s) = seq_state E s"

text \<open>Events with the sequence number and the time of their command.\<close>

definition stamped :: "sequence_id \<Rightarrow> datetime \<Rightarrow> engine_event list \<Rightarrow> journal_events" where
  "stamped sid now evs = map (\<lambda>ev. \<lparr>se_sequence_id = sid, se_timestamp = now, se_event = ev\<rparr>) evs"

text \<open>The next \<open>n\<close> sequence numbers exist and can be ordered by the journal.\<close>

definition numbers_left :: "(sequence_id \<Rightarrow> bool) \<Rightarrow> nat \<Rightarrow> ('c, 'j) sequencer \<Rightarrow> bool" where
  "numbers_left orderable n s \<longleftrightarrow> uint (sq_sequence_gen s) + int n < 2 ^ 64 \<and>
     (\<forall>k < n. orderable (sq_sequence_gen s + of_nat k))"

definition durable_example :: "(test_core, recording_journal) sequencer" where
  "durable_example = example_sequencer\<lparr>sq_journal :=
     \<lparr>jr_events = [], jr_snapshot = Some (0, sq_snapshot_cache example_sequencer)\<rparr>\<rparr>"

subsection \<open>Sequence numbers in the journal\<close>

lemma stamped_sid: "\<forall>e \<in> set (stamped sid now evs). se_sequence_id e = sid"
  by (auto simp: stamped_def)

lemma word_less_Suc:
  fixes g :: u64
  assumes "uint g + 1 < 2 ^ 64"
  shows "uint (g + 1) = uint g + 1"
  using assms by (simp add: uint_word_ariths)

lemma word_less_succ: "q \<noteq> - 1 \<Longrightarrow> q < q + (1 :: u64)"
proof -
  assume "q \<noteq> - 1"
  then have "uint q \<noteq> uint (- 1 :: u64)" by (simp add: word_uint_eq_iff)
  moreover have "uint q < 2 ^ 64" using uint_bounded [of q] by simp
  moreover have "uint (- 1 :: u64) = 2 ^ 64 - 1"
    by (simp add: unsigned_minus_1_eq_mask mask_eq_exp_minus_1)
  ultimately have "uint q + 1 < 2 ^ 64" by linarith
  from word_less_Suc [OF this] show ?thesis by (simp add: word_less_def)
qed

lemma sequenced_append:
  assumes "sequenced evs g" and "\<forall>e \<in> set new. se_sequence_id e = g" and "g \<noteq> - 1"
  shows "sequenced (evs @ new) (g + 1)"
proof -
  have "sorted (map (uint \<circ> se_sequence_id) new)"
    using assms(2) by (auto simp: sorted_wrt_iff_nth_less)
  moreover have "g < g + 1" using assms(3) by (rule word_less_succ)
  ultimately show ?thesis
    using assms(1,2) by (fastforce simp: sequenced_def sorted_append word_less_def)
qed

lemma try_next_frame:
  assumes "try_next_pending_command s = Some (cmd, s')"
  shows "sq_journal s' = sq_journal s" "sq_sequence_gen s' = sq_sequence_gen s"
    "pending s = Suc (pending s')" "seq_state E s' = seq_state E s"
    "sq_snapshot_cache s' = sq_snapshot_cache s"
  using assms
  by (auto simp: try_next_pending_command_def pending_def seq_state_def split: list.splits)

lemma pending_process:
  "process_command X E J env s cmd = (s', rep, res) \<Longrightarrow> pending s' = pending s"
  by (simp add: pending_def process_command_gen)

text \<open>
  Invariants of the main loop: \<open>P\<close> holds with the number of steps left, \<open>Q\<close> after a command
  that fails, \<open>R\<close> when the loop ends, having used its bound or found no command.
\<close>

lemma drain_rule:
  assumes "drain_pending_commands n X E J env s = (s', r)" and "P n s"
    and step: "\<And>n s cmd s1 s2 rep res. try_next_pending_command s = Some (cmd, s1) \<Longrightarrow>
      process_command X E J env s1 cmd = (s2, rep, res) \<Longrightarrow> P (Suc n) s \<Longrightarrow>
      (case res of Inl _ \<Rightarrow> Q s2 | Inr _ \<Rightarrow> P n s2)"
    and done_: "\<And>n s. P n s \<Longrightarrow> n = 0 \<or> try_next_pending_command s = None \<Longrightarrow> R s"
  shows "case r of Inl _ \<Rightarrow> Q s' | Inr _ \<Rightarrow> R s'"
  using assms(1,2)
proof (induction n arbitrary: s)
  case (Suc n)
  show ?case
  proof (cases "try_next_pending_command s")
    case (Some p)
    obtain cmd s1 where p: "try_next_pending_command s = Some (cmd, s1)" using Some by (cases p) auto
    obtain s2 rep res where q: "process_command X E J env s1 cmd = (s2, rep, res)"
      by (cases "process_command X E J env s1 cmd") auto
    show ?thesis using step [OF p q Suc.prems(2)] Suc.prems(1) Suc.IH [of s2] p q
      by (cases res) auto
  qed (use Suc.prems done_ in auto)
qed (use done_ in auto)

lemma run_loop_rule:
  assumes "run_loop n X E J env s = (s', r)" and "P n s"
    and step: "\<And>n s cmd s1 s2 rep res. try_next_pending_command s = Some (cmd, s1) \<Longrightarrow>
      process_command X E J env s1 cmd = (s2, rep, res) \<Longrightarrow> P (Suc n) s \<Longrightarrow>
      (case res of Inl _ \<Rightarrow> Q s2 | Inr _ \<Rightarrow> P n s2)"
    and done_: "\<And>n s. P n s \<Longrightarrow> n = 0 \<or> try_next_pending_command s = None \<Longrightarrow> R s"
  shows "case r of Inl _ \<Rightarrow> Q s' | Inr _ \<Rightarrow> R s'"
  using assms(1,2)
proof (induction n arbitrary: s)
  case (Suc n)
  show ?case
  proof (cases "try_next_pending_command s")
    case (Some p)
    obtain cmd s1 where p: "try_next_pending_command s = Some (cmd, s1)" using Some by (cases p) auto
    obtain s2 rep res where q: "process_command X E J env s1 cmd = (s2, rep, res)"
      by (cases "process_command X E J env s1 cmd") auto
    note P2 = step [OF p q Suc.prems(2)]
    consider (err) e where "res = Inl e" | (go) "res = Inr False" | (stop) "res = Inr True"
      by (cases res) (metis (full_types))+
    then show ?thesis
    proof cases
      case stop
      obtain s3 r3 where d: "drain_pending_commands n X E J env s2 = (s3, r3)" by fastforce
      with drain_rule [where P = P and Q = Q and R = R, OF d _ step done_] P2 stop Suc.prems(1) p q
      show ?thesis by (cases r3) auto
    qed (use Suc.prems(1) Suc.IH [of s2] P2 p q in auto)
  qed (use Suc.prems done_ in auto)
qed (use done_ in auto)

subsection \<open>Restored generators\<close>

lemma next_sequences_bound:
  assumes "next_sequences acks acc = Inr nx"
  shows "(\<forall>ack \<in> set acks. \<exists>a q n. parse_agent (ak_client_order_id ack) = Some a \<and>
      parse_sequence (ak_client_order_id ack) = Some q \<and> nx a = Some n \<and> q < n) \<and>
    (\<forall>a n. acc a = Some n \<longrightarrow> (\<exists>m. nx a = Some m \<and> n \<le> m))"
  using assms
proof (induction acks arbitrary: acc)
  case (Cons ack acks)
  from Cons.prems obtain a q where a: "parse_agent (ak_client_order_id ack) = Some a"
      and q: "parse_sequence (ak_client_order_id ack) = Some q" "q \<noteq> - 1"
      and nx: "next_sequences acks (acc(a \<mapsto>
        (case acc a of Some cur \<Rightarrow> max cur (q + 1) | None \<Rightarrow> q + 1))) = Inr nx"
    by (auto simp: Let_def bind_Some_iff split: option.splits if_splits)
  let ?acc = "acc(a \<mapsto> (case acc a of Some cur \<Rightarrow> max cur (q + 1) | None \<Rightarrow> q + 1))"
  have lt: "q < q + 1" using q(2) by (rule word_less_succ)
  note IH = Cons.IH [OF nx]
  obtain m where m: "nx a = Some m"
      "(case acc a of Some cur \<Rightarrow> max cur (q + 1) | None \<Rightarrow> q + 1) \<le> m"
    using conjunct2 [OF IH, rule_format, of a, OF fun_upd_same] by blast
  then have "q < m" using lt by (auto split: option.splits)
  moreover have "\<exists>m. nx b = Some m \<and> n \<le> m" if "acc b = Some n" for b n
  proof (cases "b = a")
    case True
    with m that show ?thesis by auto
  next
    case False
    with IH that show ?thesis by auto
  qed
  ultimately show ?case using IH a q(1) m(1) by auto
qed simp

lemma restored_generator:
  assumes "restore_client_order_generators acks epoch = Inr gens" and "ack \<in> set acks"
  obtains a q n where "parse_agent (ak_client_order_id ack) = Some a"
    and "parse_sequence (ak_client_order_id ack) = Some q"
    and "gens a = Some (with_start_seq a epoch n)" and "q < n"
  using assms next_sequences_bound [of acks Map.empty]
  by (force simp: restore_client_order_generators_def split: sum.splits)

subsection \<open>Durability\<close>

context engine_core_contract
begin

lemma silent_state:
  assumes "handle_command X E env s cmd now = Some (s', rep, Inr oc)"
    and "\<not> co_state_mutated oc" and "co_events oc = []"
  shows "seq_state E s' = seq_state E s"
proof (cases "\<exists>ord. cmd = CmdSubmitOrder ord")
  case True
  then obtain ord where
    h: "handle_submit_order X E (en_try_send env) s ord now = Some (s', rep, Inr oc)"
    using assms(1) by (auto simp: handle_command_def)
  then show ?thesis
    by (cases rule: submit_order_cases) (use assms(2,3) in \<open>auto simp: outcome_defs\<close>)
next
  case False
  with assms show ?thesis
    by (cases cmd)
      (auto simp: handle_command_def handler_defs outcome_defs bind_Some_iff Let_def seq_state_def
        option_case_iff sum_case_iff adjust_error split: if_splits)
qed

lemma commit_state:
  assumes "commit E J s sid now oc = (s', Inr b)" and "co_state_mutated oc \<or> co_events oc \<noteq> []"
  shows "seq_state E s' = sn_state (snapshot_for_commit E s sid now) \<and>
    sq_snapshot_cache s' = snapshot_for_commit E s sid now \<and>
    ej_persist_commit J (sq_journal s) (stamped sid now (co_events oc))
       (Some (snapshot_for_commit E s sid now)) = (sq_journal s', Inr ())"
proof -
  let ?snap = "snapshot_for_commit E s sid now"
  let ?evs = "stamped sid now (co_events oc)"
  obtain j where j: "ej_persist_commit J (sq_journal s) ?evs (Some ?snap) = (j, Inr ())"
      and s': "s' = (update_metadata E (s\<lparr>sq_journal := j\<rparr>) sid now)\<lparr>sq_snapshot_cache := ?snap\<rparr>"
    using assms by (auto simp: commit_def stamped_def Let_def split: if_splits prod.splits sum.splits)
  have "seq_state E s' = sn_state ?snap" "sq_journal s' = j" "sq_snapshot_cache s' = ?snap"
    unfolding s' by (simp_all add: update_metadata_def seq_put_def seq_state_def state_put
        snapshot_for_commit_def)
  then show ?thesis using j by simp
qed

lemma commit_held:
  assumes "journal_contract J jinv orderable" and "jinv (sq_journal s)" and "held J s"
    and "sn_sequence_id (sq_snapshot_cache s) < sid" and "orderable sid" and "sid < sq_sequence_gen s"
    and "commit E J s sid now oc = (s', res)"
  shows "jinv (sq_journal s') \<and> held J s' \<and>
    (res \<in> range Inr \<longrightarrow> co_state_mutated oc \<or> co_events oc \<noteq> [] \<longrightarrow> durable E J s')"
proof -
  let ?snap = "snapshot_for_commit E s sid now"
  obtain m where m: "ej_latest_sequence_id J (sq_journal s) = Inr m" "m < sid"
    using assms(3,4) by (auto simp: held_def)
  have gen: "sq_sequence_gen s' = sq_sequence_gen s" by (rule commit_frame(1) [OF assms(7)])
  consider (silent) "\<not> (co_state_mutated oc \<or> co_events oc \<noteq> [])" "s' = s"
    | (failed) e where "res = Inl e" "sq_snapshot_cache s' = sq_snapshot_cache s"
        "\<exists>evs e'. ej_persist_commit J (sq_journal s) evs (Some ?snap) = (sq_journal s', Inl e')"
    | (stored) b where "res = Inr b" "co_state_mutated oc \<or> co_events oc \<noteq> []"
    using assms(7)
    by (cases res) (auto simp: commit_def Let_def split: if_splits prod.splits sum.splits, blast+)
  then show ?thesis
  proof cases
    case failed
    then obtain evs e' where
      "ej_persist_commit J (sq_journal s) evs (Some ?snap) = (sq_journal s', Inl e')" by blast
    with journal_contract.commit_error [OF assms(1,2)] failed(1,2) gen assms(3) show ?thesis
      by (fastforce simp: held_def)
  next
    case stored
    from commit_state [OF assms(7) [unfolded stored(1)] stored(2)] have c:
        "seq_state E s' = sn_state ?snap" "sq_snapshot_cache s' = ?snap"
        "ej_persist_commit J (sq_journal s) (stamped sid now (co_events oc)) (Some ?snap) = (sq_journal s', Inr ())"
        by simp_all
    have sid: "sn_sequence_id ?snap = sid" by (simp add: snapshot_for_commit_def)
    have "i < sid" if "ej_load_latest_snapshot J (sq_journal s) = Inr (Some (i, old))" for i old
      using that assms(3,4) by (simp add: held_def)
    from journal_contract.commit_ok [OF assms(1,2) c(3) _ _ m(1)] this stamped_sid sid assms(5) m(2)
    have k: "jinv (sq_journal s')" "ej_load_latest_snapshot J (sq_journal s') = Inr (Some (sid, ?snap))"
        "\<exists>n. ej_latest_sequence_id J (sq_journal s') = Inr n \<and> n \<le> sid" by auto
    then have "held J s'" using c(2) sid gen assms(6) by (auto simp: held_def)
    with k(1) c(1,2) show ?thesis by (simp add: durable_def)
  qed (use assms in auto)
qed

lemma process_held:
  assumes "journal_contract J jinv orderable" and "jinv (sq_journal s)" and "durable E J s"
    and "sq_sequence_gen s \<noteq> - 1" and "orderable (sq_sequence_gen s)"
    and "process_command X E J env s cmd = (s', rep, res)"
  shows "jinv (sq_journal s') \<and> held J s' \<and> (res \<in> range Inr \<longrightarrow> durable E J s')"
proof -
  let ?g = "sq_sequence_gen s"
  have g: "?g < ?g + 1" using assms(4) by (rule word_less_succ)
  have cid: "sn_sequence_id (sq_snapshot_cache s) < ?g"
    using assms(3) by (simp add: durable_def held_def)
  have later: "held J t" if "sq_journal t = sq_journal s" "sq_sequence_gen t = ?g + 1"
      "sq_snapshot_cache t = sq_snapshot_cache s" for t
    using that assms(3) g cid by (auto simp: durable_def held_def)
  show ?thesis using assms(6)
  proof (cases rule: process_command_cases)
    case panic
    with later [of s'] assms(2) show ?thesis by auto
  next
    case (error e)
    from handle_command_frame [OF error(1)] later [of s'] assms(2) error(2) show ?thesis
      by (auto simp: same_frame_def)
  next
    case (ok s1 oc)
    note fr = handle_command_frame [OF ok(1), unfolded same_frame_def, simplified]
    have h1: "held J s1" using later [of s1] fr by simp
    have "jinv (sq_journal s1)" "sn_sequence_id (sq_snapshot_cache s1) < ?g" "?g < sq_sequence_gen s1"
      using fr assms(2) cid g by simp_all
    note c = commit_held [OF assms(1) this(1) h1 this(2) assms(5) this(3) ok(2)]
    show ?thesis
    proof (cases "co_state_mutated oc \<or> co_events oc \<noteq> []")
      case False
      then have s': "s' = s1" using ok(2) by (simp add: commit_def Let_def)
      have "seq_state E s1 = seq_state E s"
        using silent_state [OF ok(1)] False by (simp add: seq_state_def)
      then show ?thesis using c h1 assms(3) fr unfolding s' by (simp add: durable_def)
    qed (use c in blast)
  qed
qed

text \<open>What can be read from the journal after a commit.\<close>

lemma commit_replay:
  assumes "journal_contract J jinv orderable" and "jinv (sq_journal s)" and "held J s"
    and "sn_sequence_id (sq_snapshot_cache s) < sid" and "orderable sid"
    and "commit E J s sid now oc = (s', res)"
    and "orderable from" and "ej_replay_from J (sq_journal s) from = Inr old"
  shows "ej_replay_from J (sq_journal s') from = Inr (case res of Inl _ \<Rightarrow> old
    | Inr _ \<Rightarrow> old @ (if from \<le> sid then stamped sid now (co_events oc) else []))"
proof -
  let ?snap = "snapshot_for_commit E s sid now" and ?evs = "stamped sid now (co_events oc)"
  obtain m where m: "ej_latest_sequence_id J (sq_journal s) = Inr m" "m < sid"
    using assms(3,4) by (auto simp: held_def)
  have sid: "sn_sequence_id ?snap = sid" by (simp add: snapshot_for_commit_def)
  consider (silent) b where "co_events oc = []" "s' = s" "res = Inr b"
    | (failed) e e' where "res = Inl e" "ej_persist_commit J (sq_journal s) ?evs (Some ?snap) = (sq_journal s', Inl e')"
    | (stored) b where "res = Inr b" "co_state_mutated oc \<or> co_events oc \<noteq> []"
    using assms(6)
    by (cases res) (auto simp: commit_def stamped_def Let_def split: if_splits prod.splits sum.splits)
  then show ?thesis
  proof cases
    case silent
    with assms(8) show ?thesis by (simp add: stamped_def)
  next
    case failed
    with journal_contract.commit_error [OF assms(1,2)] assms(8) show ?thesis by fastforce
  next
    case stored
    have c: "ej_persist_commit J (sq_journal s) ?evs (Some ?snap) = (sq_journal s', Inr ())"
      using commit_state [OF assms(6) [unfolded stored(1)] stored(2)] by simp
    have "i < sid" if "ej_load_latest_snapshot J (sq_journal s) = Inr (Some (i, old))" for i old
      using that assms(3,4) by (simp add: held_def)
    from journal_contract.commit_ok [OF assms(1,2) c _ _ m(1)] this stamped_sid sid assms(5,7,8) m(2)
    have "ej_replay_from J (sq_journal s') from = Inr (old @ filter (\<lambda>e. from \<le> se_sequence_id e) ?evs)"
      by auto
    moreover have "filter (\<lambda>e. from \<le> se_sequence_id e) ?evs = (if from \<le> sid then ?evs else [])"
      using stamped_sid [of sid now "co_events oc"] by (auto simp: filter_id_conv filter_empty_conv)
    ultimately show ?thesis using stored(1) by simp
  qed
qed

lemma run_held:
  assumes "journal_contract J jinv orderable" and "jinv (sq_journal s)" and "durable E J s"
    and "numbers_left orderable (pending s) s" and "run X E J env s = (s', r)"
  shows "held J s' \<and> (r \<in> range Inr \<longrightarrow> durable E J s')"
proof -
  let ?P = "\<lambda>n s. jinv (sq_journal s) \<and> durable E J s \<and> numbers_left orderable n s"
  have "case r of Inl _ \<Rightarrow> held J s' | Inr _ \<Rightarrow> durable E J s'"
  proof (rule run_loop_rule [where P = ?P, OF assms(5) [unfolded run_def]])
    fix n s cmd s1 s2 rep res
    assume h: "try_next_pending_command s = Some (cmd, s1)"
      "process_command X E J env s1 cmd = (s2, rep, res)" "?P (Suc n) s"
    let ?g = "sq_sequence_gen s"
    note fr = try_next_frame(1,2,5) [OF h(1)] try_next_frame(4) [OF h(1), of E]
    have b: "uint ?g + int (Suc n) < 2 ^ 64" "\<forall>k < Suc n. orderable (?g + of_nat k)"
      using h(3) by (simp_all add: numbers_left_def)
    have "?g \<noteq> - 1"
    proof
      assume "?g = - 1"
      then have "uint ?g = 2 ^ 64 - 1" by (simp add: unsigned_minus_1_eq_mask mask_eq_exp_minus_1)
      with b(1) show False by simp
    qed
    moreover have "orderable ?g" using b(2) by force
    moreover have "jinv (sq_journal s1)" "durable E J s1"
      using h(3) fr by (simp_all add: durable_def held_def)
    ultimately have k: "jinv (sq_journal s2) \<and> held J s2 \<and> (res \<in> range Inr \<longrightarrow> durable E J s2)"
      using process_held [OF assms(1) _ _ _ _ h(2)] fr(2) by simp
    have "uint (sq_sequence_gen s2) = uint ?g + 1"
      using process_command_gen [OF h(2)] fr(2) b(1) word_less_Suc [of ?g] by simp
    then have "numbers_left orderable n s2"
      using b process_command_gen [OF h(2)] fr(2)
      by (auto simp: numbers_left_def add.assoc simp flip: of_nat_Suc)
    with k show "case res of Inl _ \<Rightarrow> held J s2 | Inr _ \<Rightarrow> ?P n s2" by (cases res) auto
  qed (use assms in auto)
  then show ?thesis by (cases r) (auto simp: durable_def)
qed

lemma restart_state:
  assumes "held J s"
  shows "sequencer_new E J order c0 (sq_journal s) epoch =
    (let st = sn_state (sq_snapshot_cache s) in
     case restore_client_order_generators (cache_values (order st) st) epoch of
       Inl e \<Rightarrow> Inl e
     | Inr gens \<Rightarrow> Inr \<lparr>
         sq_core = ec_put E c0 st, sq_journal = sq_journal s,
         sq_sequence_gen = sn_sequence_id (sq_snapshot_cache s) + 1,
         sq_snapshot_cache = sq_snapshot_cache s, sq_high_priority = [], sq_commands = [],
         sq_generators = gens, sq_restart_epoch = epoch, sq_venue_submit = None\<rparr>)"
proof -
  obtain m where m: "ej_latest_sequence_id J (sq_journal s) = Inr m"
      "m \<le> sn_sequence_id (sq_snapshot_cache s)"
    using assms by (auto simp: held_def)
  then have "(sn_sequence_id (sq_snapshot_cache s) < m) = False" by (simp add: not_less)
  moreover have "ej_load_latest_snapshot J (sq_journal s) =
      Inr (Some (sn_sequence_id (sq_snapshot_cache s), sq_snapshot_cache s))"
    "restore_snapshot E c0 (sq_snapshot_cache s) = ec_put E c0 (sn_state (sq_snapshot_cache s))"
    using assms by (simp_all add: held_def restore_snapshot_def)
  ultimately show ?thesis using m(1)
    by (simp add: sequencer_new_def Let_def state_put sequence_generator_new_def seq_next_def
        split: sum.split)
qed

end

subsection \<open>Properties\<close>

text \<open>
  C13: A restart recovers exactly the last committed state. The main loop is started on a journal
  that holds the engine state, with any queue of commands, and may end normally, by an error of a
  command, a panic or a failed commit. A new sequencer started on the journal it leaves has the
  state and snapshot of the last successful commit and continues the numbering after it; when the
  loop ended normally, that is the engine state itself. The start is refused only when a cached
  client order id is malformed.
\<close>

theorem restart_recovers_state:
  assumes "engine_core_contract E" and "journal_contract J jinv orderable" and "jinv (sq_journal s)"
    and "durable E J s" and "numbers_left orderable (pending s) s"
    and "run X E J env s = (s', r)"
  shows "(case sequencer_new E J order c0 (sq_journal s') epoch of
       Inl e \<Rightarrow> restore_client_order_generators
         (cache_values (order (sn_state (sq_snapshot_cache s'))) (sn_state (sq_snapshot_cache s')))
         epoch = Inl e
     | Inr t \<Rightarrow> seq_state E t = sn_state (sq_snapshot_cache s') \<and>
         sq_snapshot_cache t = sq_snapshot_cache s' \<and>
         sq_sequence_gen t = sn_sequence_id (sq_snapshot_cache s') + 1) \<and>
    (case r of Inl _ \<Rightarrow> True | Inr snap \<Rightarrow> sn_state (sq_snapshot_cache s') = seq_state E s')"
proof -
  note d = engine_core_contract.run_held [OF assms]
  have "held J s'" using d by simp
  from engine_core_contract.restart_state [OF assms(1) this] d
    engine_core_contract.state_put [OF assms(1)]
  show ?thesis by (auto simp: seq_state_def Let_def durable_def split: sum.split)
qed

lemma durable_enqueue: "durable E J (enqueue s cmd) = durable E J s"
  by (simp add: durable_def held_def enqueue_def seq_state_def split: sum.split)

lemma durable_example_durable:
  "durable (test_engine_core ideal_ext) recording_event_journal durable_example"
  by (simp add: durable_def held_def durable_example_def example_sequencer_def seq_state_def
      test_engine_core_def recording_event_journal_def seq_zero_def word_less_def)

theorem restart_recovers_state_witness:
  "\<exists>s' r. run ideal_ext (test_engine_core ideal_ext) recording_event_journal example_env
       (enqueue durable_example (CmdPauseAgent (AgentId ''satoshi'') [])) = (s', r) \<and>
     (case sequencer_new (test_engine_core ideal_ext) recording_event_journal (\<lambda>_. [])
         (sq_core example_sequencer) (sq_journal s') 0 of
        Inl e \<Rightarrow> False
      | Inr t \<Rightarrow> seq_state (test_engine_core ideal_ext) t = sn_state (sq_snapshot_cache s'))"
proof -
  let ?E = "test_engine_core ideal_ext"
  let ?s = "enqueue durable_example (CmdPauseAgent (AgentId ''satoshi'') [])"
  obtain s' r where p: "run ideal_ext ?E recording_event_journal example_env ?s = (s', r)" by fastforce
  have "durable ?E recording_event_journal ?s"
    by (simp add: durable_enqueue durable_example_durable)
  moreover have "numbers_left (\<lambda>_. True) (pending ?s) ?s"
    by (simp add: numbers_left_def pending_def enqueue_def durable_example_def example_sequencer_def)
  ultimately show ?thesis
    using restart_recovers_state [OF test_core_contract recording.journal_contract_axioms _ _ _ p,
        where order = "\<lambda>_. []" and ?c0.0 = "sq_core example_sequencer" and epoch = 0] p
    by (fastforce simp: restore_client_order_generators_def cache_values_def split: sum.splits)
qed

text \<open>
  C19: The journal records what commands do. For every journal that keeps the contract, a command
  that is processed adds to the journal exactly the events its handler produced, behind all earlier
  ones, each with the sequence number and the time of the command; a command that fails, panics or
  whose commit fails adds none. Events that are numbered in order, below the next number, stay so.
\<close>

theorem command_events_journaled:
  assumes "engine_core_contract E" and "journal_contract J jinv orderable" and "jinv (sq_journal s)"
    and "durable E J s" and "sq_sequence_gen s \<noteq> - 1" and "orderable (sq_sequence_gen s)"
    and "process_command X E J env s cmd = (s', rep, res)"
    and "orderable from" and "ej_replay_from J (sq_journal s) from = Inr old"
  shows "\<exists>new. ej_replay_from J (sq_journal s') from = Inr (old @ new) \<and>
    (case res of Inl _ \<Rightarrow> new = []
     | Inr _ \<Rightarrow> \<exists>s1 oc. handle_command X E (env (sq_sequence_gen s))
           (s\<lparr>sq_sequence_gen := sq_sequence_gen s + 1\<rparr>) cmd (en_now (env (sq_sequence_gen s))) =
           Some (s1, rep, Inr oc) \<and>
         new = (if from \<le> sq_sequence_gen s
           then stamped (sq_sequence_gen s) (en_now (env (sq_sequence_gen s))) (co_events oc) else [])) \<and>
    (sequenced old (sq_sequence_gen s) \<longrightarrow> sequenced (old @ new) (sq_sequence_gen s'))"
proof -
  let ?g = "sq_sequence_gen s" and ?now = "en_now (env (sq_sequence_gen s))"
  have gen: "sq_sequence_gen s' = ?g + 1" using process_command_gen [OF assms(7)] by simp
  have seq: "sequenced (old @ new) (?g + 1)"
    if "sequenced old ?g" "\<forall>e \<in> set new. se_sequence_id e = ?g" for new
    by (rule sequenced_append [OF that assms(5)])
  show ?thesis using assms(7)
  proof (cases rule: process_command_cases)
    case panic
    with assms(9) gen seq [of "[]"] show ?thesis by auto
  next
    case (error e)
    from handle_command_frame [OF error(1)] assms(9) error(2) gen seq [of "[]"] show ?thesis
      by (auto simp: same_frame_def)
  next
    case (ok s1 oc)
    note fr = handle_command_frame [OF ok(1), unfolded same_frame_def, simplified]
    have "held J s1" "sn_sequence_id (sq_snapshot_cache s1) < ?g" "jinv (sq_journal s1)"
      using fr assms(3,4) word_less_succ [OF assms(5)] by (auto simp: durable_def held_def)
    from engine_core_contract.commit_replay [OF assms(1,2) this(3,1,2) assms(6) ok(2) assms(8)] fr assms(9)
    have "ej_replay_from J (sq_journal s') from = Inr (old @ (case res of Inl _ \<Rightarrow> []
        | Inr _ \<Rightarrow> if from \<le> ?g then stamped ?g ?now (co_events oc) else []))"
      by (cases res) simp_all
    with ok(1) gen seq seq [of "[]"] stamped_sid [of ?g ?now "co_events oc"] show ?thesis by (cases res) auto
  qed
qed

theorem command_events_journaled_witness:
  "\<exists>s' rep res new. process_command ideal_ext (test_engine_core ideal_ext) recording_event_journal example_env
       durable_example (CmdPauseAgent (AgentId ''satoshi'') []) = (s', rep, res) \<and>
     jr_events (sq_journal s') = new \<and> sequenced new (sq_sequence_gen s') \<and>
     new = [\<lparr>se_sequence_id = 1, se_timestamp = en_now (example_env 1),
       se_event = EvAgentPaused (AgentId ''satoshi'') []\<rparr>]"
proof -
  let ?E = "test_engine_core ideal_ext" and ?J = recording_event_journal
  let ?cmd = "CmdPauseAgent (AgentId ''satoshi'') []"
  obtain s' rep res where p: "process_command ideal_ext ?E ?J example_env durable_example ?cmd = (s', rep, res)"
    by (metis prod.exhaust)
  have g: "sq_sequence_gen durable_example = 1" "jr_events (sq_journal durable_example) = []"
    by (simp_all add: durable_example_def example_sequencer_def)
  have r: "res \<in> range Inr"
    using p by (auto simp: process_command_def next_id_def handle_command_def core_op_def test_engine_core_def
        commit_def outcome_defs recording_event_journal_def durable_example_def Let_def split: if_splits)
  have "sq_sequence_gen durable_example \<noteq> - 1" using g by simp
  from command_events_journaled [OF test_core_contract recording.journal_contract_axioms TrueI
      durable_example_durable this TrueI p TrueI, of 0 "[]"] r g p
  show ?thesis
    by (auto simp: recording_event_journal_def sequenced_def handle_command_def core_op_def test_engine_core_def
        outcome_defs stamped_def bind_Some_iff split: sum.splits)
qed

text \<open>
  After a restart no client order id is handed out twice: whatever ids the persisted cache
  holds, the restored generators (also those of agents not seen before) produce an id that is not
  among them, even in the same restart epoch and millisecond.
\<close>

theorem restored_ids_fresh:
  assumes "restore_client_order_generators acks epoch = Inr gens" and "sq_generators s = gens"
    and "0 \<le> timestamp_millis X now"
  shows "fst (next_client_order_id X s a now) \<notin> ak_client_order_id ` set acks"
proof
  define g where "g = unwrap_or (gens a) (generator_new a (sq_restart_epoch s))"
  have i: "fst (next_client_order_id X s a now) = fst (generator_next X g now)"
    using assms(2) by (simp add: next_client_order_id_def g_def Let_def case_prod_beta)
  assume "fst (next_client_order_id X s a now) \<in> ak_client_order_id ` set acks"
  then obtain ack where ack: "ack \<in> set acks" "ak_client_order_id ack = fst (generator_next X g now)"
    using i by auto
  obtain b q n where b: "parse_agent (ak_client_order_id ack) = Some b"
      "parse_sequence (ak_client_order_id ack) = Some q"
      "gens b = Some (with_start_seq b epoch n)" "q < n"
    by (rule restored_generator [OF assms(1) ack(1)])
  have p: "agent_prefix g = agent_id_str a"
    by (cases "gens a")
      (use assms(1) in \<open>auto simp: g_def unwrap_or_def generator_new_def with_start_seq_def
        restore_client_order_generators_def split: sum.splits\<close>)
  then have "b = a" "q = counter g"
    using b(1,2) ack(2) parse_agent_next [OF assms(3), of g] parse_sequence_next [of X g now]
    by simp_all
  with b(3,4) show False by (simp add: g_def unwrap_or_def with_start_seq_def)
qed

theorem restored_ids_fresh_witness:
  "\<exists>gens. restore_client_order_generators
       [\<lparr>ak_order_id = OrderId ''o'', ak_client_order_id =
          fst (generator_next ideal_ext (generator_new (AgentId ''a'') 0) 5), ak_accepted_at = 5\<rparr>] 0 =
     Inr gens \<and>
     fst (next_client_order_id ideal_ext (example_sequencer\<lparr>sq_generators := gens\<rparr>) (AgentId ''a'') 5) \<noteq>
     fst (generator_next ideal_ext (generator_new (AgentId ''a'') 0) 5)"
proof -
  let ?i = "fst (generator_next ideal_ext (generator_new (AgentId ''a'') 0) 5)"
  let ?acks = "[\<lparr>ak_order_id = OrderId ''o'', ak_client_order_id = ?i, ak_accepted_at = 5\<rparr>]"
  have t: "0 \<le> timestamp_millis ideal_ext 5" by simp
  obtain gens where g: "restore_client_order_generators ?acks 0 = Inr gens"
    using parse_agent_next [OF t, of "generator_new (AgentId ''a'') 0"]
      parse_sequence_next [of ideal_ext "generator_new (AgentId ''a'') 0" 5]
    by (simp add: restore_client_order_generators_def generator_new_def with_start_seq_def)
  from restored_ids_fresh [OF g, of "example_sequencer\<lparr>sq_generators := gens\<rparr>", OF _ t] g
  show ?thesis by auto
qed

text \<open>
  Queued commands are taken by priority and then in order of arrival: a command enqueued at
  high priority is preceded only by the high-priority commands already waiting, and a normal
  command is taken only when no high-priority command waits.
\<close>

theorem priority_order:
  "try_next_pending_command (enqueue s cmd) =
     (case sq_high_priority s of
        c # cs \<Rightarrow> Some (c, enqueue (s\<lparr>sq_high_priority := cs\<rparr>) cmd)
      | [] \<Rightarrow> if is_high_priority cmd then Some (cmd, s)
          else (case sq_commands s of
             c # cs \<Rightarrow> Some (c, enqueue (s\<lparr>sq_commands := cs\<rparr>) cmd)
           | [] \<Rightarrow> Some (cmd, s)))"
  by (simp add: try_next_pending_command_def enqueue_def split: list.split)

text \<open>
  A venue report that does not fit ends the engine: when a submission failure is reported for
  an order the venue has already acknowledged, the command fails with an invalid transition and
  the main loop returns that error instead of continuing with the remaining commands.
\<close>

theorem late_submit_failure_stops_engine:
  assumes "try_next_pending_command s = Some (CmdOnVenueSubmitFailed i reason, s0)"
    and "es_orders (seq_state E s) i = Some r" and "or_state r = OSubmitted"
  shows "snd (run X E J env s) = Inl (ErrInvalidTransition
    [PStr ''venue submit failed for order '', PStr (order_id_str i), PStr '' in unexpected state '',
     PStr ''submitted''])"
proof -
  have "seq_state E s0 = seq_state E s" by (rule try_next_frame(4) [OF assms(1)])
  then have "snd (snd (process_command X E J env s0 (CmdOnVenueSubmitFailed i reason))) =
    Inl (ErrInvalidTransition [PStr ''venue submit failed for order '', PStr (order_id_str i),
      PStr '' in unexpected state '', PStr ''submitted''])"
    using assms(2,3) by (simp add: process_command_def next_id_def handle_command_def
        handle_venue_submit_failed_def with_record_def seq_state_def)
  then show ?thesis
    using try_next_frame(3) [OF assms(1)] assms(1)
    by (auto simp: run_def split: prod.splits sum.splits)
qed

theorem late_submit_failure_stops_engine_witness:
  "snd (run ideal_ext (test_engine_core ideal_ext) recording_event_journal example_env
     (enqueue (seq_put (test_engine_core ideal_ext) example_sequencer
       (put_order example_state (OrderId ''ord-1'')
         \<lparr>or_core = example_core, or_state = OSubmitted, or_client_order_id = ClientOrderId ''c'',
          or_venue_order_id = None, or_fills = [], or_created_at = 0, or_last_updated = 0\<rparr>))
       (CmdOnVenueSubmitFailed (OrderId ''ord-1'') []))) =
   Inl (ErrInvalidTransition [PStr ''venue submit failed for order '', PStr ''ord-1'',
     PStr '' in unexpected state '', PStr ''submitted''])"
proof -
  let ?E = "test_engine_core ideal_ext"
  let ?r = "\<lparr>or_core = example_core, or_state = OSubmitted, or_client_order_id = ClientOrderId ''c'',
      or_venue_order_id = None, or_fills = [], or_created_at = 0, or_last_updated = 0\<rparr>"
  let ?s = "seq_put ?E example_sequencer (put_order example_state (OrderId ''ord-1'') ?r)"
  have "try_next_pending_command (enqueue ?s (CmdOnVenueSubmitFailed (OrderId ''ord-1'') [])) =
      Some (CmdOnVenueSubmitFailed (OrderId ''ord-1'') [], ?s)"
    by (simp add: try_next_pending_command_def enqueue_def seq_put_def example_sequencer_def)
  moreover have "es_orders (seq_state ?E
      (enqueue ?s (CmdOnVenueSubmitFailed (OrderId ''ord-1'') []))) (OrderId ''ord-1'') = Some ?r"
    by (simp add: enqueue_def seq_state_def seq_put_def test_core.state_put put_order_def)
  ultimately show ?thesis
    using late_submit_failure_stops_engine [where r = ?r and i = "OrderId ''ord-1''"] by simp
qed

end
