(* ===== verification/Sequencer_Invariant.thy ===== *)
theory Sequencer_Invariant
  imports Sequencer_Recovery
begin

text \<open>
  Well-formedness of the engine state: order records and the idempotency cache are in bijection, and
  the client order id generators are ahead of every id handed out; every command and every restart
  keeps this. Also that the main loop ends only when every queued command has been processed.
\<close>

text \<open>
  Every order has its acknowledgement in the cache under its client order id, and every
  acknowledgement belongs to the order it names.
\<close>

definition orders_match_cache :: "engine_state \<Rightarrow> bool" where
  "orders_match_cache st \<longleftrightarrow>
     (\<forall>i r. es_orders st i = Some r \<longrightarrow> (\<exists>a. es_idempotency_cache st (or_client_order_id r) = Some a \<and>
        ak_order_id a = i)) \<and>
     (\<forall>c a. es_idempotency_cache st c = Some a \<longrightarrow> ak_client_order_id a = c \<and>
        (\<exists>r. es_orders st (ak_order_id a) = Some r \<and> or_client_order_id r = c))"

text \<open>The generators are past every id of \<open>C\<close>.\<close>

definition generators_ahead :: "('c, 'j) sequencer \<Rightarrow> client_order_id set \<Rightarrow> bool" where
  "generators_ahead s C \<longleftrightarrow>
     (\<forall>a g. sq_generators s a = Some g \<longrightarrow> agent_prefix g = agent_id_str a) \<and>
     (\<forall>c \<in> C. \<exists>a q g. parse_agent c = Some a \<and> parse_sequence c = Some q \<and>
        sq_generators s a = Some g \<and> q < counter g)"

text \<open>Every generator can hand out \<open>n\<close> more ids before its counter wraps around.\<close>

definition counters_left :: "nat \<Rightarrow> ('c, 'j) sequencer \<Rightarrow> bool" where
  "counters_left n s \<longleftrightarrow> int n < 2 ^ 64 \<and>
     (\<forall>a g. sq_generators s a = Some g \<longrightarrow> uint (counter g) + int n < 2 ^ 64)"

definition ids_ok :: "'c engine_core \<Rightarrow> ('c, 'j) sequencer \<Rightarrow> bool" where
  "ids_ok E s \<longleftrightarrow> orders_match_cache (seq_state E s) \<and>
     generators_ahead s (dom (es_idempotency_cache (seq_state E s)))"

subsection \<open>Client order ids\<close>

lemma next_id_fresh:
  assumes "next_client_order_id X s a now = (c, s1)" and "generators_ahead s C"
    and "counters_left (Suc n) s" and "0 \<le> timestamp_millis X now"
  shows "c \<notin> C" and "generators_ahead s1 (insert c C)" and "counters_left n s1"
proof -
  define g where "g = unwrap_or (sq_generators s a) (generator_new a (sq_restart_epoch s))"
  have c: "c = fst (generator_next X g now)"
      and s1: "s1 = s\<lparr>sq_generators := (sq_generators s)(a \<mapsto> g\<lparr>counter := counter g + 1\<rparr>)\<rparr>"
    using assms(1) by (auto simp: next_client_order_id_def g_def Let_def generator_next_def)
  have p: "agent_prefix g = agent_id_str a" and nw: "uint (counter g) + int (Suc n) < 2 ^ 64"
    using assms(2,3) by (cases "sq_generators s a"; auto simp: generators_ahead_def counters_left_def g_def
        unwrap_or_def generator_new_def with_start_seq_def)+
  have up: "uint (counter g + 1) = uint (counter g) + 1" using nw word_less_Suc by simp
  have pa: "parse_agent c = Some a" "parse_sequence c = Some (counter g)"
    using parse_agent_next [OF assms(4), of g] parse_sequence_next [of X g now] p c by simp_all
  have lt: "counter g < counter g + 1" using up by (simp add: word_less_def)
  show "c \<notin> C"
  proof
    assume "c \<in> C"
    then obtain g' where "sq_generators s a = Some g'" "counter g < counter g'"
      using assms(2) pa unfolding generators_ahead_def by (metis option.inject)
    then show False by (simp add: g_def unwrap_or_def)
  qed
  have new: "\<exists>q g. parse_sequence c = Some q \<and> sq_generators s1 a = Some g \<and> q < counter g"
    using pa(2) lt unfolding s1 by simp
  have mono: "\<exists>g'. sq_generators s1 b = Some g' \<and> q < counter g'"
    if "sq_generators s b = Some h" "q < counter h" for b q h
    using that lt unfolding s1 by (auto simp: g_def unwrap_or_def)
  have "agent_prefix h = agent_id_str b" if "sq_generators s1 b = Some h" for b h
    using that assms(2) p unfolding s1 by (auto simp: generators_ahead_def split: if_splits)
  moreover have "\<exists>a q g. parse_agent d = Some a \<and> parse_sequence d = Some q \<and> sq_generators s1 a = Some g \<and> q < counter g"
    if "d \<in> insert c C" for d
    using that pa(1) new mono assms(2) unfolding generators_ahead_def by (metis insert_iff)
  ultimately show "generators_ahead s1 (insert c C)" unfolding generators_ahead_def by blast
  show "counters_left n s1"
    using assms(3) up nw unfolding s1 counters_left_def by (fastforce split: if_splits)
qed

lemma generators_ahead_mono: "generators_ahead s C \<Longrightarrow> D \<subseteq> C \<Longrightarrow> generators_ahead s D"
  unfolding generators_ahead_def by blast

lemma generators_ahead_cong: "sq_generators t = sq_generators s \<Longrightarrow> generators_ahead t C = generators_ahead s C"
  by (simp add: generators_ahead_def)

lemma orders_match_keeps:
  assumes "orders_match_cache st" and "keeps_ids st st'"
  shows "orders_match_cache st'"
proof -
  have c: "es_idempotency_cache st' = es_idempotency_cache st"
    and o: "\<And>i. map_option or_client_order_id (es_orders st' i) = map_option or_client_order_id (es_orders st i)"
    using assms(2) by (simp_all add: keeps_ids_def)
  have to: "\<exists>r. es_orders st i = Some r \<and> or_client_order_id r = or_client_order_id r'"
    if "es_orders st' i = Some r'" for i r' using o [of i] that by (cases "es_orders st i") auto
  have from_: "\<exists>r'. es_orders st' i = Some r' \<and> or_client_order_id r' = or_client_order_id r"
    if "es_orders st i = Some r" for i r using o [of i] that by (cases "es_orders st' i") auto
  note m = assms(1) [unfolded orders_match_cache_def]
  have "\<exists>a. es_idempotency_cache st (or_client_order_id r') = Some a \<and> ak_order_id a = i"
    if "es_orders st' i = Some r'" for i r'
  proof -
    from to [OF that] obtain r where "es_orders st i = Some r" "or_client_order_id r = or_client_order_id r'"
      by blast
    with conjunct1 [OF m] show ?thesis by metis
  qed
  moreover have "ak_client_order_id a = d \<and> (\<exists>r. es_orders st' (ak_order_id a) = Some r \<and> or_client_order_id r = d)"
    if "es_idempotency_cache st d = Some a" for d a
  proof -
    from conjunct2 [OF m] that obtain r
      where "ak_client_order_id a = d" "es_orders st (ak_order_id a) = Some r" "or_client_order_id r = d"
      by blast
    with from_ [of "ak_order_id a" r] show ?thesis by simp
  qed
  ultimately show ?thesis unfolding orders_match_cache_def c by blast
qed

lemma orders_match_accepted:
  assumes "orders_match_cache st" and "es_orders st i = None" and "es_idempotency_cache st c = None"
  shows "orders_match_cache (accepted_state st i core c now)"
proof -
  have "or_client_order_id r \<noteq> c" if "es_orders st j = Some r" for j r
    using assms(1,3) that unfolding orders_match_cache_def by (metis option.distinct(1))
  moreover have "ak_order_id a \<noteq> i" if "es_idempotency_cache st d = Some a" for d a
    using assms(1,2) that unfolding orders_match_cache_def by (metis option.distinct(1))
  ultimately show ?thesis
    using assms(1) unfolding orders_match_cache_def accepted_state_def
    by (auto simp: fun_upd_def)
qed

lemma no_ack_no_order:
  "orders_match_cache (seq_state E s) \<Longrightarrow> find_existing_ack E s i = None \<longleftrightarrow> es_orders (seq_state E s) i = None"
  unfolding orders_match_cache_def
  by (cases "es_orders (seq_state E s) i") (simp_all add: find_existing_ack_def, metis option.distinct(1))

subsection \<open>One command\<close>

text \<open>Only a submission uses a generator.\<close>

lemma handle_command_generators:
  assumes "handle_command X E env s cmd now = Some (s', rep, res)"
    and "\<nexists>ord. cmd = CmdSubmitOrder ord"
  shows "sq_generators s' = sq_generators s"
  using assms
  by (cases cmd)
    (auto simp: handle_command_def handler_defs bind_Some_iff Let_def option_case_iff sum_case_iff
      seq_put_def split: if_splits)

lemma ids_ok_cong:
  assumes "ids_ok E s" and "sq_generators t = sq_generators s"
    and "keeps_ids (seq_state E s) (seq_state E t)"
  shows "ids_ok E t"
  using assms orders_match_keeps [of "seq_state E s" "seq_state E t"]
  by (simp add: ids_ok_def generators_ahead_def keeps_ids_def)

lemma counters_left_cong:
  "sq_generators t = sq_generators s \<Longrightarrow> counters_left n t = counters_left n s"
  by (simp add: counters_left_def)

lemma counters_left_Suc: "counters_left (Suc n) s \<Longrightarrow> counters_left n s"
  by (fastforce simp: counters_left_def)

context engine_core_contract
begin

lemma submit_ids_ok:
  assumes "handle_submit_order X E send s ord now = Some (s', rep, res)"
    and "ids_ok E s" and "counters_left (Suc n) s" and "0 \<le> timestamp_millis X now"
  shows "ids_ok E s' \<and> counters_left n s'"
  using assms(1)
proof (cases rule: submit_order_cases)
  case (cached ack)
  with assms show ?thesis by (simp add: counters_left_Suc)
next
  case (risk c err)
  then show ?thesis
    using assms(2,3) ids_ok_cong [of E s s'] counters_left_cong [of s' s] evaluate_seq_state [OF risk(2)]
    by (simp add: counters_left_Suc)
next
  case (refused c rc sent err)
  let ?s = "s\<lparr>sq_core := c\<rparr>"
  obtain i where n: "next_client_order_id X ?s (oc_agent_id (po_core ord)) now = (i, s')"
    using refused(5) by (metis prod.collapse)
  have e: "seq_state E ?s = seq_state E s" by (rule evaluate_seq_state [OF refused(2)])
  have "generators_ahead ?s (dom (es_idempotency_cache (seq_state E s)))" "counters_left (Suc n) ?s"
    using assms(2,3) by (simp_all add: ids_ok_def generators_ahead_def counters_left_def)
  from next_id_fresh [OF n this assms(4)] next_client_order_id_state [OF n] e assms(2)
  show ?thesis using generators_ahead_mono [OF _ subset_insertI] by (auto simp: ids_ok_def)
next
  case (accepted c rc coid s1 s2)
  let ?s = "s\<lparr>sq_core := c\<rparr>" and ?i = "oc_id (po_core ord)"
  have e: "seq_state E s1 = seq_state E s"
    using evaluate_seq_state [OF accepted(2)] next_client_order_id_state [OF accepted(3)] by simp
  have "generators_ahead ?s (dom (es_idempotency_cache (seq_state E s)))" "counters_left (Suc n) ?s"
    using assms(2,3) by (simp_all add: ids_ok_def generators_ahead_def counters_left_def)
  note fresh = next_id_fresh [OF accepted(3) this assms(4)]
  have st: "seq_state E s' = accepted_state (seq_state E s) ?i (po_core rc) coid now"
      and g: "sq_generators s' = sq_generators s1"
    using accepted(5,6) e by (simp_all add: seq_put_def seq_state_def state_put)
  have m: "orders_match_cache (seq_state E s)" using assms(2) by (simp add: ids_ok_def)
  have "es_orders (seq_state E s) ?i = None"
    using accepted(1) no_ack_no_order [OF m] by simp
  then have "orders_match_cache (seq_state E s')"
    unfolding st using fresh(1) by (intro orders_match_accepted [OF m]) (auto simp: domIff)
  moreover have "dom (es_idempotency_cache (seq_state E s')) =
      insert coid (dom (es_idempotency_cache (seq_state E s)))"
    unfolding st by (simp add: accepted_state_def)
  then have "generators_ahead s' (dom (es_idempotency_cache (seq_state E s')))"
    using fresh(2) generators_ahead_cong [OF g] by simp
  ultimately show ?thesis
    using fresh(3) counters_left_cong [OF g] by (simp add: ids_ok_def)
qed

lemma handle_command_ids_ok:
  assumes "handle_command X E env s cmd now = Some (s', rep, res)"
    and "ids_ok E s" and "counters_left (Suc n) s" and "0 \<le> timestamp_millis X now"
  shows "ids_ok E s' \<and> counters_left n s'"
proof (cases "\<exists>ord. cmd = CmdSubmitOrder ord")
  case True
  then obtain ord where "handle_submit_order X E (en_try_send env) s ord now = Some (s', rep, res)"
    using assms(1) by (auto simp: handle_command_def)
  then show ?thesis using assms(2-4) by (rule submit_ids_ok)
next
  case False
  from handle_command_generators [OF assms(1) False] handle_command_ids [OF assms(1) False] assms(2,3)
  show ?thesis using ids_ok_cong counters_left_cong counters_left_Suc by metis
qed

lemma commit_ids:
  "commit E J s sid now oc = (s', res) \<Longrightarrow> keeps_ids (seq_state E s) (seq_state E s')"
  by (auto simp: commit_def Let_def update_metadata_def seq_put_def seq_state_def state_put
      keeps_ids_def split: if_splits prod.splits sum.splits)

lemma process_command_ids_ok:
  assumes "process_command X E J env s cmd = (s', rep, res)"
    and "ids_ok E s" and "counters_left (Suc n) s" and "\<forall>sid. 0 \<le> timestamp_millis X (en_now (env sid))"
  shows "ids_ok E s' \<and> counters_left n s'"
proof -
  let ?s = "s\<lparr>sq_sequence_gen := sq_sequence_gen s + 1\<rparr>"
  have ok: "ids_ok E ?s" "counters_left (Suc n) ?s"
    using assms(2,3) by (simp_all add: ids_ok_def generators_ahead_def counters_left_def seq_state_def)
  note h = handle_command_ids_ok [OF _ ok assms(4) [rule_format]]
  show ?thesis using assms(1)
  proof (cases rule: process_command_cases)
    case panic
    with ok counters_left_Suc show ?thesis by simp
  next
    case (error e)
    from h [OF error(1)] show ?thesis .
  next
    case (ok s1 oc)
    from h [OF ok(1)] commit_ids [OF ok(2)] commit_frame(5) [OF ok(2)]
    show ?thesis using ids_ok_cong counters_left_cong by metis
  qed
qed

end

lemma restored_ids_ok:
  assumes "sequencer_new E J order c0 j epoch = Inr s" and "orders_match_cache (seq_state E s)"
    and "dom (es_idempotency_cache (seq_state E s)) \<subseteq> set (order (seq_state E s))"
  shows "ids_ok E s"
proof -
  let ?st = "seq_state E s"
  have r: "restore_client_order_generators (cache_values (order ?st) ?st) epoch = Inr (sq_generators s)"
    using assms(1)
    by (auto simp: sequencer_new_def Let_def seq_state_def sum_case_iff split: bool.splits)
  have "\<exists>a q g. parse_agent c = Some a \<and> parse_sequence c = Some q \<and> sq_generators s a = Some g \<and> q < counter g"
    if c: "c \<in> dom (es_idempotency_cache ?st)" for c
  proof -
    obtain ack where ack: "es_idempotency_cache ?st c = Some ack" using c by blast
    then have "ak_client_order_id ack = c" using assms(2) unfolding orders_match_cache_def by blast
    moreover have "ack \<in> set (cache_values (order ?st) ?st)"
      using ack c assms(3) by (force simp: cache_values_def map_filter_def)
    ultimately show ?thesis using restored_generator [OF r, of ack] by (force simp: with_start_seq_def)
  qed
  moreover have "agent_prefix g = agent_id_str a" if "sq_generators s a = Some g" for a g
    using r that
    by (auto simp: restore_client_order_generators_def with_start_seq_def fun_eq_iff split: sum.splits
        dest!: spec [of _ a])
  ultimately show ?thesis using assms(2) by (auto simp: ids_ok_def generators_ahead_def)
qed

subsection \<open>The main loop ends\<close>

lemma pending_none: "try_next_pending_command s = None \<longleftrightarrow> pending s = 0"
  by (simp add: try_next_pending_command_def pending_def split: list.split)

lemma step_pending:
  assumes "try_next_pending_command s = Some (cmd, s1)" and "process_command X E J env s1 cmd = (s2, rep, res)"
  shows "pending s = Suc (pending s2)" and "sq_sequence_gen s2 = sq_sequence_gen s + 1"
  using try_next_frame(2,3) [OF assms(1)] pending_process [OF assms(2)] process_command_gen [OF assms(2)]
  by simp_all

lemma drain_bound:
  "pending s \<le> n \<Longrightarrow>
   drain_pending_commands n X E J env s = drain_pending_commands (pending s) X E J env s"
proof (induction n arbitrary: s)
  case (Suc n)
  show ?case
  proof (cases "try_next_pending_command s")
    case None
    then have "pending s = 0" by (simp add: pending_none)
    with None show ?thesis by simp
  next
    case (Some p)
    obtain cmd s1 where p: "try_next_pending_command s = Some (cmd, s1)" using Some by (cases p) auto
    obtain s2 rep res where q: "process_command X E J env s1 cmd = (s2, rep, res)"
      by (cases "process_command X E J env s1 cmd") auto
    note st = step_pending(1) [OF p q]
    have "drain_pending_commands n X E J env s2 = drain_pending_commands (pending s2) X E J env s2"
      by (rule Suc.IH) (use Suc.prems st in simp)
    with p q st show ?thesis by (simp split: sum.split)
  qed
qed simp

lemma run_loop_bound:
  "pending s \<le> n \<Longrightarrow> run_loop n X E J env s = run_loop (pending s) X E J env s"
proof (induction n arbitrary: s)
  case (Suc n)
  show ?case
  proof (cases "try_next_pending_command s")
    case None
    then have "pending s = 0" by (simp add: pending_none)
    with None show ?thesis by simp
  next
    case (Some p)
    obtain cmd s1 where p: "try_next_pending_command s = Some (cmd, s1)" using Some by (cases p) auto
    obtain s2 rep res where q: "process_command X E J env s1 cmd = (s2, rep, res)"
      by (cases "process_command X E J env s1 cmd") auto
    note st = step_pending(1) [OF p q]
    have le: "pending s2 \<le> n" using Suc.prems st by simp
    from Suc.IH [OF le] drain_bound [OF le, of X E J env] p q st
    show ?thesis by (simp split: sum.split bool.split)
  qed
qed simp

lemma run_counts:
  assumes "run_loop n X E J env s = (s', r)" and "pending s = n"
  shows "case r of Inl _ \<Rightarrow> True | Inr _ \<Rightarrow> pending s' = 0 \<and>
    sq_sequence_gen s' = sq_sequence_gen s + of_nat n"
proof (rule run_loop_rule [where Q = "\<lambda>_. True" and P = "\<lambda>m t. pending t = m \<and>
      sq_sequence_gen t + of_nat m = sq_sequence_gen s + of_nat n", OF assms(1)])
  fix m t cmd t1 t2 rep res
  assume "try_next_pending_command t = Some (cmd, t1)" "process_command X E J env t1 cmd = (t2, rep, res)"
    "pending t = Suc m \<and> sq_sequence_gen t + of_nat (Suc m) = sq_sequence_gen s + of_nat n"
  then show "case res of Inl _ \<Rightarrow> True | Inr _ \<Rightarrow> pending t2 = m \<and>
      sq_sequence_gen t2 + of_nat m = sq_sequence_gen s + of_nat n"
    using step_pending [of t cmd t1 X E J env t2 rep res] by (cases res) (simp_all add: algebra_simps)
qed (use assms(2) in \<open>auto simp: pending_none\<close>)

subsection \<open>Properties\<close>

text \<open>
  C20: The main loop processes every queued command and ends: the number of queued commands bounds
  its steps (a larger bound changes nothing), and unless a command ends it with an error, both
  queues are empty afterwards, also after a shutdown command, and exactly one sequence number was
  used for each command.
\<close>

theorem run_processes_every_command:
  assumes "run X E J env s = (s', r)" and "pending s \<le> n"
  shows "run_loop n X E J env s = (s', r) \<and>
    (case r of Inl _ \<Rightarrow> True | Inr _ \<Rightarrow> sq_high_priority s' = [] \<and> sq_commands s' = [] \<and>
       sq_sequence_gen s' = sq_sequence_gen s + of_nat (pending s))"
  using run_loop_bound [OF assms(2)] run_counts [OF assms(1) [unfolded run_def] refl] assms(1)
  by (auto simp: run_def pending_def split: sum.splits)

theorem run_processes_every_command_witness:
  "\<exists>s'. run ideal_ext (test_engine_core ideal_ext) recording_event_journal example_env
       (enqueue (enqueue example_sequencer CmdShutdown) CmdSnapshot) = (s', Inr (sq_snapshot_cache s')) \<and>
     sq_commands s' = [] \<and> sq_sequence_gen s' = 3"
proof -
  let ?s = "enqueue (enqueue example_sequencer CmdShutdown) CmdSnapshot"
  let ?R = "run ideal_ext (test_engine_core ideal_ext) recording_event_journal example_env ?s"
  obtain s' r where r: "?R = (s', r)" by fastforce
  have n: "pending ?s = 2" by (simp add: pending_def enqueue_def example_sequencer_def)
  have i: "snd ?R = Inr (sq_snapshot_cache (fst ?R))"
    by (simp add: run_def pending_def enqueue_def example_sequencer_def try_next_pending_command_def
        process_command_def next_id_def handle_command_def commit_def outcome_defs)
  from run_processes_every_command [OF r le_refl] r i n show ?thesis
    by (simp add: enqueue_def example_sequencer_def)
qed

end
