(* ===== verification/Engine_History.thy ===== *)
theory Engine_History
  imports Sequencer_Invariant
begin

text \<open>
  The whole life of an engine: a first start on an empty journal, commands, and restarts on the
  journal that the previous session left, at any point between two commands, also after a command
  or a commit that failed. \<open>ClientOrderIdGenerator\<close> documents that the restart epoch increments
  with every start of the process; here it has to differ from those of the earlier sessions.
\<close>

subsection \<open>Histories\<close>

text \<open>The client order ids of the orders handed to the venue channel.\<close>

definition handed_ids :: "('c, 'j) sequencer \<Rightarrow> client_order_id list" where
  "handed_ids s = (case sq_venue_submit s of None \<Rightarrow> [] | Some sent \<Rightarrow> map routed_client_order_id sent)"

definition no_orders :: "engine_state \<Rightarrow> bool" where
  "no_orders st \<longleftrightarrow> es_orders st = Map.empty \<and> es_idempotency_cache st = Map.empty \<and> es_last_sequence_id st = 0"

text \<open>
  \<open>past\<close> are the ids handed over by earlier sessions, \<open>epochs\<close> the epochs used so far. Every
  start gives the core without orders; \<open>order\<close> lists the keys of the restored cache. The counters
  and the sequence numbers must not run out, and no clock is before the Unix epoch. A command may have
  any result; the main loop takes no further one after an error, which is not required here.
\<close>

inductive engine_history ::
  "ext \<Rightarrow> 'c engine_core \<Rightarrow> 'j event_journal \<Rightarrow> ('j \<Rightarrow> bool) \<Rightarrow> (sequence_id \<Rightarrow> bool) \<Rightarrow>
   u16 set \<Rightarrow> client_order_id list \<Rightarrow> ('c, 'j) sequencer \<Rightarrow> bool"
  for X E J jinv orderable
where
  first: "jinv j \<Longrightarrow> ej_load_latest_snapshot J j = Inr None \<Longrightarrow> ej_latest_sequence_id J j = Inr seq_zero \<Longrightarrow>
    no_orders (ec_state E c0) \<Longrightarrow> sequencer_new E J order c0 j epoch = Inr s \<Longrightarrow>
    engine_history X E J jinv orderable {epoch} [] (with_venue_submit_tx s)"
| queued: "engine_history X E J jinv orderable epochs past s \<Longrightarrow>
    engine_history X E J jinv orderable epochs past (s\<lparr>sq_high_priority := high, sq_commands := cmds\<rparr>)"
| command: "engine_history X E J jinv orderable epochs past s \<Longrightarrow>
    process_command X E J env s cmd = (s', rep, res) \<Longrightarrow>
    sq_sequence_gen s \<noteq> - 1 \<Longrightarrow> orderable (sq_sequence_gen s) \<Longrightarrow> counters_left 1 s \<Longrightarrow>
    \<forall>sid. 0 \<le> timestamp_millis X (en_now (env sid)) \<Longrightarrow>
    engine_history X E J jinv orderable epochs past s'"
| restart: "engine_history X E J jinv orderable epochs past s \<Longrightarrow> no_orders (ec_state E c0) \<Longrightarrow>
    sequencer_new E J order c0 (sq_journal s) epoch = Inr t \<Longrightarrow> epoch \<notin> epochs \<Longrightarrow>
    dom (es_idempotency_cache (seq_state E t)) \<subseteq> set (order (seq_state E t)) \<Longrightarrow>
    engine_history X E J jinv orderable (insert epoch epochs) (past @ handed_ids s) (with_venue_submit_tx t)"

subsection \<open>Invariant\<close>

text \<open>
  What the journal of a session can give a restart: nothing, or the state of the last commit, in
  which the orders match the cache. The next sequence number is above everything in it.
\<close>

definition journal_sound :: "'j event_journal \<Rightarrow> ('j \<Rightarrow> bool) \<Rightarrow> ('c, 'j) sequencer \<Rightarrow> bool" where
  "journal_sound J jinv s \<longleftrightarrow> jinv (sq_journal s) \<and>
     (\<exists>m. ej_latest_sequence_id J (sq_journal s) = Inr m \<and> m < sq_sequence_gen s \<and>
       (ej_load_latest_snapshot J (sq_journal s) = Inr None \<and> m = seq_zero \<or>
        (\<exists>i snap. ej_load_latest_snapshot J (sq_journal s) = Inr (Some (i, snap)) \<and> i < sq_sequence_gen s \<and>
           orders_match_cache (sn_state snap))))"

text \<open>The ids of a session carry its epoch and are behind its generators.\<close>

definition session_ids_ok :: "('c, 'j) sequencer \<Rightarrow> bool" where
  "session_ids_ok s \<longleftrightarrow> (\<forall>a g. sq_generators s a = Some g \<longrightarrow> restart_epoch g = sq_restart_epoch s) \<and>
     generators_ahead s (set (handed_ids s)) \<and> distinct (handed_ids s) \<and>
     (\<forall>c \<in> set (handed_ids s). parse_restart_epoch c = Some (sq_restart_epoch s))"

definition history_ok ::
  "'c engine_core \<Rightarrow> 'j event_journal \<Rightarrow> ('j \<Rightarrow> bool) \<Rightarrow> u16 set \<Rightarrow> client_order_id list \<Rightarrow>
   ('c, 'j) sequencer \<Rightarrow> bool"
where
  "history_ok E J jinv epochs past s \<longleftrightarrow> ids_ok E s \<and> journal_sound J jinv s \<and> session_ids_ok s \<and>
     distinct past \<and> sq_restart_epoch s \<in> epochs \<and>
     (\<forall>c \<in> set past. \<exists>e \<in> epochs - {sq_restart_epoch s}. parse_restart_epoch c = Some e)"

lemma journal_sound_cong:
  "sq_journal t = sq_journal s \<Longrightarrow> sq_sequence_gen s \<le> sq_sequence_gen t \<Longrightarrow> journal_sound J jinv s \<Longrightarrow>
   journal_sound J jinv t"
  unfolding journal_sound_def by (auto intro: order.strict_trans2)

lemma session_ids_ok_cong:
  "sq_generators t = sq_generators s \<Longrightarrow> sq_venue_submit t = sq_venue_submit s \<Longrightarrow>
   sq_restart_epoch t = sq_restart_epoch s \<Longrightarrow> session_ids_ok t = session_ids_ok s"
  by (simp add: session_ids_ok_def handed_ids_def generators_ahead_def)

subsection \<open>Starting\<close>

text \<open>What a start takes from the journal.\<close>

lemma sequencer_new_cases:
  assumes "sequencer_new E J order c0 j epoch = Inr s"
  obtains (empty) m where "ej_load_latest_snapshot J j = Inr None" and "ej_latest_sequence_id J j = Inr m"
      and "seq_state E s = ec_state E c0" and "sq_sequence_gen s = es_last_sequence_id (ec_state E c0) + 1"
  | (restored) i snap m where "ej_load_latest_snapshot J j = Inr (Some (i, snap))"
      and "ej_latest_sequence_id J j = Inr m" and "m \<le> i"
      and "seq_state E s = ec_state E (restore_snapshot E c0 snap)" and "sq_sequence_gen s = i + 1"
  using assms
  by (auto simp: sequencer_new_def Let_def sum_case_iff seq_state_def sequence_generator_new_def seq_next_def
      not_less split: bool.splits option.splits prod.splits)

lemma sequencer_new_frame:
  assumes "sequencer_new E J order c0 j epoch = Inr s"
  shows "sq_journal s = j" and "sq_restart_epoch s = epoch"
    and "sq_generators s a = Some g \<Longrightarrow> restart_epoch g = epoch \<and> agent_prefix g = agent_id_str a"
proof -
  obtain acks where r: "restore_client_order_generators acks epoch = Inr (sq_generators s)"
      and f: "sq_journal s = j" "sq_restart_epoch s = epoch"
    using assms by (auto simp: sequencer_new_def Let_def sum_case_iff split: bool.splits)
  show "sq_journal s = j" "sq_restart_epoch s = epoch" by (rule f)+
  show "restart_epoch g = epoch \<and> agent_prefix g = agent_id_str a" if g: "sq_generators s a = Some g"
    using r g
    by (auto simp: restore_client_order_generators_def with_start_seq_def fun_eq_iff split: sum.splits
        dest!: spec [of _ a])
qed

lemma started_session_ok:
  assumes "sequencer_new E J order c0 j epoch = Inr s"
  shows "session_ids_ok (with_venue_submit_tx s)"
  using sequencer_new_frame(2,3) [OF assms]
  by (auto simp: session_ids_ok_def handed_ids_def with_venue_submit_tx_def generators_ahead_def)

lemma with_venue_submit_tx_simps [simp]:
  "sq_journal (with_venue_submit_tx s) = sq_journal s" "sq_restart_epoch (with_venue_submit_tx s) = sq_restart_epoch s"
  "sq_sequence_gen (with_venue_submit_tx s) = sq_sequence_gen s" "seq_state E (with_venue_submit_tx s) = seq_state E s"
  "ids_ok E (with_venue_submit_tx s) = ids_ok E s"
  by (simp_all add: with_venue_submit_tx_def seq_state_def ids_ok_def generators_ahead_def)

lemma no_orders_match: "no_orders st \<Longrightarrow> orders_match_cache st"
  by (simp add: no_orders_def orders_match_cache_def)

subsection \<open>Commands\<close>

lemma next_id_epoch:
  assumes "next_client_order_id X s a now = (c, s1)"
    and "\<forall>a g. sq_generators s a = Some g \<longrightarrow> restart_epoch g = sq_restart_epoch s"
  shows "parse_restart_epoch c = Some (sq_restart_epoch s) \<and> sq_restart_epoch s1 = sq_restart_epoch s \<and>
    sq_venue_submit s1 = sq_venue_submit s \<and>
    (\<forall>a g. sq_generators s1 a = Some g \<longrightarrow> restart_epoch g = sq_restart_epoch s)"
proof -
  define g where "g = unwrap_or (sq_generators s a) (generator_new a (sq_restart_epoch s))"
  have c: "c = fst (generator_next X g now)"
      and s1: "s1 = s\<lparr>sq_generators := (sq_generators s)(a \<mapsto> g\<lparr>counter := counter g + 1\<rparr>)\<rparr>"
    using assms(1) by (auto simp: next_client_order_id_def g_def Let_def generator_next_def)
  have "restart_epoch g = sq_restart_epoch s"
    using assms(2) by (auto simp: g_def unwrap_or_def generator_new_def with_start_seq_def split: option.split)
  then show ?thesis using parse_restart_epoch_next [of X g now] assms(2) unfolding c s1 by simp
qed

lemma session_next_id:
  assumes "session_ids_ok s" and "next_client_order_id X (s\<lparr>sq_core := c\<rparr>) a now = (coid, s1)"
    and "counters_left 1 s" and "0 \<le> timestamp_millis X now"
  shows "session_ids_ok s1" and "sq_venue_submit s1 = sq_venue_submit s" and "sq_restart_epoch s1 = sq_restart_epoch s"
    and "coid \<notin> set (handed_ids s)" and "generators_ahead s1 (insert coid (set (handed_ids s)))"
    and "parse_restart_epoch coid = Some (sq_restart_epoch s)"
proof -
  let ?s = "s\<lparr>sq_core := c\<rparr>"
  have ga: "generators_ahead ?s (set (handed_ids s))" "counters_left (Suc 0) ?s"
    using assms(1,3) by (simp_all add: session_ids_ok_def generators_ahead_def counters_left_def)
  note f = next_id_fresh [OF assms(2) ga assms(4)]
  have e: "parse_restart_epoch coid = Some (sq_restart_epoch s)" "sq_restart_epoch s1 = sq_restart_epoch s"
      "sq_venue_submit s1 = sq_venue_submit s"
      "\<forall>a g. sq_generators s1 a = Some g \<longrightarrow> restart_epoch g = sq_restart_epoch s"
    using next_id_epoch [OF assms(2)] assms(1) by (auto simp: session_ids_ok_def)
  then have h: "handed_ids s1 = handed_ids s" by (simp add: handed_ids_def)
  show "session_ids_ok s1"
    using assms(1) e(2,4) generators_ahead_mono [OF f(2) subset_insertI] unfolding session_ids_ok_def h by simp
  show "sq_venue_submit s1 = sq_venue_submit s" "sq_restart_epoch s1 = sq_restart_epoch s" "coid \<notin> set (handed_ids s)"
    "generators_ahead s1 (insert coid (set (handed_ids s)))" "parse_restart_epoch coid = Some (sq_restart_epoch s)"
    using e f by simp_all
qed

context engine_core_contract
begin

lemma submit_session_ok:
  assumes "handle_submit_order X E send s ord now = Some (s', rep, res)"
    and "session_ids_ok s" and "counters_left 1 s" and "0 \<le> timestamp_millis X now"
  shows "session_ids_ok s'"
  using assms(1)
proof (cases rule: submit_order_cases)
  case (cached ack)
  with assms(2) show ?thesis by simp
next
  case (risk c err)
  with assms(2) session_ids_ok_cong [of s' s] show ?thesis by simp
next
  case (refused c rc sent err)
  obtain i where "next_client_order_id X (s\<lparr>sq_core := c\<rparr>) (oc_agent_id (po_core ord)) now = (i, s')"
    using refused(5) by (metis prod.collapse)
  from session_next_id(1) [OF assms(2) this assms(3,4)] show ?thesis .
next
  case (accepted c rc coid s1 s2)
  note n = session_next_id [OF assms(2) accepted(3) assms(3,4)]
  have f: "sq_generators s' = sq_generators s1" "sq_restart_epoch s' = sq_restart_epoch s"
      "sq_venue_submit s' = map_option (\<lambda>sent. sent @ [into_routed rc \<lparr>rt_venue_id = oc_venue_id (po_core ord),
         rt_client_order_id = coid, rt_routed_at = now\<rparr>]) (sq_venue_submit s)"
    using accepted(5,6) n(3) by (simp_all add: seq_put_def)
  then have h: "handed_ids s' = handed_ids s \<or> handed_ids s' = handed_ids s @ [coid]"
    by (cases "sq_venue_submit s") (simp_all add: handed_ids_def into_routed_def routed_client_order_id_def)
  have ga: "generators_ahead s' (set (handed_ids s'))"
    by (rule generators_ahead_mono [OF n(5) [folded generators_ahead_cong [OF f(1)]]]) (use h in auto)
  have "\<forall>a g. sq_generators s' a = Some g \<longrightarrow> restart_epoch g = sq_restart_epoch s'"
    using n(1,3) f(1,2) by (simp add: session_ids_ok_def)
  with ga h n(4,6) f(2) assms(2) show ?thesis by (auto simp: session_ids_ok_def)
qed

lemma handle_command_session_ok:
  assumes "handle_command X E env s cmd now = Some (s', rep, res)"
    and "session_ids_ok s" and "counters_left 1 s" and "0 \<le> timestamp_millis X now"
  shows "session_ids_ok s'"
proof (cases "\<exists>ord. cmd = CmdSubmitOrder ord")
  case True
  then obtain ord where "handle_submit_order X E (en_try_send env) s ord now = Some (s', rep, res)"
    using assms(1) by (auto simp: handle_command_def)
  then show ?thesis using assms(2-4) by (rule submit_session_ok)
next
  case False
  then have "sq_venue_submit s' = sq_venue_submit s"
    using assms(1)
    by (cases cmd)
      (auto simp: handle_command_def handler_defs bind_Some_iff Let_def option_case_iff sum_case_iff
        seq_put_def split: if_splits)
  with handle_command_generators [OF assms(1) False] handle_command_frame [OF assms(1)] assms(2)
  show ?thesis using session_ids_ok_cong [of s' s] by (simp add: same_frame_def)
qed

lemma commit_journal_sound:
  assumes "journal_contract J jinv orderable" and "commit E J s sid now oc = (s', res)"
    and "orders_match_cache (seq_state E s)" and "journal_sound J jinv (s\<lparr>sq_sequence_gen := sid\<rparr>)"
    and "orderable sid" and "sid < sq_sequence_gen s"
  shows "journal_sound J jinv s'"
proof -
  let ?snap = "snapshot_for_commit E s sid now" and ?evs = "stamped sid now (co_events oc)"
  have gen: "sq_sequence_gen s' = sq_sequence_gen s" by (rule commit_frame(1) [OF assms(2)])
  obtain m where m: "ej_latest_sequence_id J (sq_journal s) = Inr m" "m < sid" and j: "jinv (sq_journal s)"
      and i: "\<And>i old. ej_load_latest_snapshot J (sq_journal s) = Inr (Some (i, old)) \<Longrightarrow> i < sid"
    using assms(4) by (auto simp: journal_sound_def)
  consider (silent) "s' = s"
    | (failed) e' where "ej_persist_commit J (sq_journal s) ?evs (Some ?snap) = (sq_journal s', Inl e')"
    | (stored) b where "res = Inr b" "co_state_mutated oc \<or> co_events oc \<noteq> []"
    using assms(2)
    by (cases res) (auto simp: commit_def stamped_def Let_def split: if_splits prod.splits sum.splits)
  then show ?thesis
  proof cases
    case silent
    with journal_sound_cong [OF _ _ assms(4), of s] assms(6) show ?thesis by simp
  next
    case failed
    from journal_contract.commit_error [OF assms(1) j failed] assms(4,6) gen
    have "journal_sound J jinv (s'\<lparr>sq_sequence_gen := sid\<rparr>)" by (simp add: journal_sound_def)
    then show ?thesis by (rule journal_sound_cong [rotated 2]) (use assms(6) gen in simp_all)
  next
    case stored
    note c = commit_state [OF assms(2) [unfolded stored(1)] stored(2)]
    have sid: "sn_sequence_id ?snap = sid" by (simp add: snapshot_for_commit_def)
    have "orders_match_cache (sn_state ?snap)"
      using orders_match_keeps [OF assms(3) commit_ids [OF assms(2)]] c by simp
    moreover from journal_contract.commit_ok [OF assms(1) j, of ?evs ?snap "sq_journal s'" m] c stamped_sid sid
      assms(5) m i
    have "jinv (sq_journal s') \<and> ej_load_latest_snapshot J (sq_journal s') = Inr (Some (sid, ?snap)) \<and>
        (\<exists>n. ej_latest_sequence_id J (sq_journal s') = Inr n \<and> n \<le> sid)" by auto
    ultimately show ?thesis using assms(6) gen by (force simp: journal_sound_def)
  qed
qed

lemma process_history_ok:
  assumes "journal_contract J jinv orderable" and "history_ok E J jinv epochs past s"
    and "process_command X E J env s cmd = (s', rep, res)"
    and "sq_sequence_gen s \<noteq> - 1" and "orderable (sq_sequence_gen s)" and "counters_left 1 s"
    and "\<forall>sid. 0 \<le> timestamp_millis X (en_now (env sid))"
  shows "history_ok E J jinv epochs past s'"
proof -
  let ?g = "sq_sequence_gen s" and ?s = "s\<lparr>sq_sequence_gen := sq_sequence_gen s + 1\<rparr>"
  have lt: "?g < ?g + 1" using assms(4) by (rule word_less_succ)
  have ok: "ids_ok E s" "journal_sound J jinv s" "session_ids_ok s" using assms(2) by (simp_all add: history_ok_def)
  have "counters_left (Suc 0) s" using assms(6) by simp
  then have "ids_ok E s'" using process_command_ids_ok [OF assms(3) ok(1) _ assms(7)] by blast
  have s: "session_ids_ok ?s" "counters_left 1 ?s" "ids_ok E ?s" "counters_left (Suc 0) ?s"
    using ok(1,3) assms(6) session_ids_ok_cong [of ?s s]
    by (simp_all add: counters_left_def ids_ok_def generators_ahead_def seq_state_def)
  have "journal_sound J jinv s' \<and> session_ids_ok s' \<and> sq_restart_epoch s' = sq_restart_epoch s"
    using assms(3)
  proof (cases rule: process_command_cases)
    case panic
    with s(1) journal_sound_cong [OF _ _ ok(2), of ?s] lt show ?thesis by simp
  next
    case (error e)
    note fr = handle_command_frame [OF error(1), unfolded same_frame_def, simplified]
    have "journal_sound J jinv s'" by (rule journal_sound_cong [OF _ _ ok(2)]) (use fr lt in simp_all)
    with handle_command_session_ok [OF error(1) s(1,2)] assms(7) fr show ?thesis by simp
  next
    case (ok s1 oc)
    note fr = handle_command_frame [OF ok(1), unfolded same_frame_def, simplified]
    have i: "orders_match_cache (seq_state E s1)"
      using handle_command_ids_ok [OF ok(1) s(3,4)] assms(7) by (simp add: ids_ok_def)
    have j: "journal_sound J jinv (s1\<lparr>sq_sequence_gen := ?g\<rparr>)"
      by (rule journal_sound_cong [of _ s]) (use fr \<open>journal_sound J jinv s\<close> in simp_all)
    have "journal_sound J jinv s'"
      by (rule commit_journal_sound [OF assms(1) ok(2) i j assms(5)]) (use fr lt in simp)
    moreover have "session_ids_ok s1" using handle_command_session_ok [OF ok(1) s(1,2)] assms(7) by simp
    ultimately show ?thesis
      using session_ids_ok_cong [of s' s1] commit_frame [OF ok(2)] fr by simp
  qed
  with \<open>ids_ok E s'\<close> assms(2) show ?thesis by (simp add: history_ok_def)
qed

lemma history_invariant:
  assumes "engine_history X E J jinv orderable epochs past s" and "journal_contract J jinv orderable"
  shows "history_ok E J jinv epochs past s"
  using assms(1)
proof induction
  case (first j c0 order epoch s)
  have st: "seq_state E s = ec_state E c0" "sq_sequence_gen s = 1"
    using first(5) by (cases rule: sequencer_new_cases; use first(2,4) in \<open>simp add: no_orders_def\<close>)+
  have "ids_ok E s"
    by (rule restored_ids_ok [OF first(5)]) (use first(4) st(1) in \<open>simp_all add: no_orders_match, simp add: no_orders_def\<close>)
  with st first(1-3) sequencer_new_frame [OF first(5)] started_session_ok [OF first(5)] show ?case
    by (simp add: history_ok_def journal_sound_def seq_zero_def)
next
  case (queued epochs past s cmds high)
  let ?s = "s\<lparr>sq_high_priority := high, sq_commands := cmds\<rparr>"
  from queued(2) session_ids_ok_cong [of ?s s] show ?case
    by (simp add: history_ok_def ids_ok_def generators_ahead_def journal_sound_def seq_state_def)
next
  case (command epochs past s env cmd s' rep res)
  from process_history_ok [OF assms(2) command(7,2-6)] show ?case .
next
  case (restart epochs past s c0 order epoch t)
  note ok = restart(6) [unfolded history_ok_def] and fr = sequencer_new_frame [OF restart(3)]
  have j: "journal_sound J jinv t \<and> orders_match_cache (seq_state E t)" using restart(3)
  proof (cases rule: sequencer_new_cases)
    case (empty m)
    then show ?thesis using ok fr(1) restart(2) by (auto simp: journal_sound_def no_orders_match, simp add: no_orders_def seq_zero_def)
  next
    case (restored i snap m)
    have "i < sq_sequence_gen s" "orders_match_cache (sn_state snap)" "jinv (sq_journal s)"
      using ok restored(1) by (auto simp: journal_sound_def)
    moreover from this(1) have "i \<noteq> - 1" using word_order.extremum_strict by blast
    ultimately show ?thesis using word_less_succ [of i] restored fr(1) by (auto simp: journal_sound_def state_restore)
  qed
  have "ids_ok E t" by (rule restored_ids_ok [OF restart(3)]) (use j restart(5) in simp_all)
  moreover have "distinct (past @ handed_ids s)"
    using ok by (auto simp: session_ids_ok_def)
  ultimately show ?case
    using j started_session_ok [OF restart(3)] fr(2) ok restart(4)
    by (auto simp: history_ok_def journal_sound_def session_ids_ok_def)
qed

end

subsection \<open>Example\<close>

text \<open>A first session that accepts an order, and a second one on its journal.\<close>

definition example_history :: "u16 set \<Rightarrow> client_order_id list \<Rightarrow> (test_core, recording_journal) sequencer \<Rightarrow> bool" where
  "example_history = engine_history ideal_ext (test_engine_core ideal_ext) recording_event_journal
     (\<lambda>_. True) (\<lambda>_. True)"

definition example_id :: client_order_id where
  "example_id = fst (generator_next ideal_ext (generator_new (oc_agent_id example_core) 0) 1)"

lemma example_first_session:
  "\<exists>s snap. example_history {0} [] s \<and> handed_ids s \<noteq> [] \<and> jr_snapshot (sq_journal s) = Some (1, snap) \<and>
     ej_latest_sequence_id recording_event_journal (sq_journal s) = Inr 1 \<and>
     es_idempotency_cache (sn_state snap) = [example_id \<mapsto> \<lparr>ak_order_id = oc_id example_core,
       ak_client_order_id = example_id, ak_accepted_at = 1\<rparr>]"
proof -
  let ?E = "test_engine_core ideal_ext" and ?s0 = "example_sequencer\<lparr>sq_venue_submit := None\<rparr>"
  have n: "sequencer_new ?E recording_event_journal (\<lambda>_. []) (sq_core example_sequencer)
      (sq_journal example_sequencer) 0 = Inr ?s0"
    by (simp add: sequencer_new_def recording_event_journal_def example_sequencer_def example_state_def
        test_engine_core_def cache_values_def restore_client_order_generators_def core_snapshot_def
        sequence_generator_new_def seq_next_def Let_def)
  have h: "example_history {0} [] (with_venue_submit_tx ?s0)"
    unfolding example_history_def
    by (rule engine_history.first [OF _ _ _ _ n])
      (simp_all add: recording_event_journal_def example_sequencer_def no_orders_def test_engine_core_def example_state_def)
  let ?p = "process_command ideal_ext ?E recording_event_journal example_env (with_venue_submit_tx ?s0)
    (CmdSubmitOrder example_validated)"
  obtain s' rep res where p: "?p = (s', rep, res)" by (metis prod.exhaust)
  have "example_history {0} [] s'"
    unfolding example_history_def
    by (rule engine_history.command [OF h [unfolded example_history_def] p])
      (simp_all add: example_sequencer_def counters_left_def example_env_def pos_imp_zdiv_nonneg_iff
        with_venue_submit_tx_def)
  moreover have "handed_ids (fst ?p) \<noteq> [] \<and> (\<exists>snap. jr_snapshot (sq_journal (fst ?p)) = Some (1, snap) \<and>
     ej_latest_sequence_id recording_event_journal (sq_journal (fst ?p)) = Inr 1 \<and>
     es_idempotency_cache (sn_state snap) = [example_id \<mapsto> \<lparr>ak_order_id = oc_id example_core,
       ak_client_order_id = example_id, ak_accepted_at = 1\<rparr>])"
    by (simp add: process_command_def next_id_def handle_command_def handle_submit_order_def find_existing_ack_def
        seq_state_def test_engine_core_def with_venue_submit_tx_def example_sequencer_def example_state_def
        test_evaluate_order_def Let_def next_client_order_id_def generator_next_def example_env_def commit_def
        recording_event_journal_def outcome_mutated_def seq_put_def update_metadata_def handed_ids_def
        snapshot_for_commit_def example_validated_def into_validated_def pipeline_new_def unwrap_or_def example_id_def)
  ultimately show ?thesis using p by auto
qed

lemma example_second_session: "\<exists>past s. example_history {1, 0} past s \<and> past \<noteq> []"
proof -
  let ?E = "test_engine_core ideal_ext" and ?J = recording_event_journal
  obtain s snap where h: "example_history {0} [] s" "handed_ids s \<noteq> []"
      and j: "jr_snapshot (sq_journal s) = Some (1, snap)" "ej_latest_sequence_id ?J (sq_journal s) = Inr 1"
      and st: "es_idempotency_cache (sn_state snap) = [example_id \<mapsto> \<lparr>ak_order_id = oc_id example_core,
        ak_client_order_id = example_id, ak_accepted_at = 1\<rparr>]"
    using example_first_session by blast
  have p: "parse_agent example_id = Some (oc_agent_id example_core)" "parse_sequence example_id = Some 0"
    using parse_agent_next [of ideal_ext 1 "generator_new (oc_agent_id example_core) 0"]
      parse_sequence_next [of ideal_ext "generator_new (oc_agent_id example_core) 0" 1]
    by (simp_all add: generator_new_def with_start_seq_def example_id_def)
  have l: "ej_load_latest_snapshot ?J (sq_journal s) = Inr (Some (1, snap))"
    using j(1) by (simp add: recording_event_journal_def)
  obtain t where t: "sequencer_new ?E ?J (\<lambda>_. [example_id]) (sq_core example_sequencer) (sq_journal s) 1 = Inr t"
      "seq_state ?E t = sn_state snap"
    using j(2) l st p
    by (simp add: sequencer_new_def restore_snapshot_def test_engine_core_def cache_values_def map_filter_def
        restore_client_order_generators_def seq_state_def Let_def)
  have n: "no_orders (ec_state ?E (sq_core example_sequencer))"
    by (simp add: no_orders_def example_sequencer_def test_engine_core_def example_state_def)
  have "example_history (insert 1 {0}) ([] @ handed_ids s) (with_venue_submit_tx t)"
    unfolding example_history_def
    by (rule engine_history.restart [OF h(1) [unfolded example_history_def] n t(1)]) (simp_all add: t(2) st)
  with h(2) show ?thesis by auto
qed

subsection \<open>Properties\<close>

text \<open>
  C7: Client order ids are never used twice in the life of an engine: over a first start, commands that
  succeed, fail, panic or cannot be committed, and restarts on the journal left behind, each with a
  restart epoch not used before. In every session the orders correspond one to one to the cached
  acknowledgements, two orders with the same client order id are the same order, and the
  generators are past every id in the cache; and all ids handed to the venue channel, by this and by
  all earlier sessions, are different, also those of orders that a failed commit has forgotten.
\<close>

theorem client_ids_never_collide:
  assumes "engine_core_contract E" and "journal_contract J jinv orderable"
    and "engine_history X E J jinv orderable epochs past s"
  shows "orders_match_cache (seq_state E s) \<and>
    generators_ahead s (dom (es_idempotency_cache (seq_state E s))) \<and>
    (\<forall>i1 i2 r1 r2. es_orders (seq_state E s) i1 = Some r1 \<and> es_orders (seq_state E s) i2 = Some r2 \<and>
       or_client_order_id r1 = or_client_order_id r2 \<longrightarrow> i1 = i2) \<and>
    distinct (past @ handed_ids s)"
proof -
  have ok: "history_ok E J jinv epochs past s" by (rule engine_core_contract.history_invariant [OF assms(1,3,2)])
  then have k: "orders_match_cache (seq_state E s)" "generators_ahead s (dom (es_idempotency_cache (seq_state E s)))"
    by (simp_all add: history_ok_def ids_ok_def)
  have "i1 = i2" if "es_orders (seq_state E s) i1 = Some r1" "es_orders (seq_state E s) i2 = Some r2"
    "or_client_order_id r1 = or_client_order_id r2" for i1 i2 r1 r2
    using k(1) that unfolding orders_match_cache_def by (metis option.inject)
  moreover have "distinct (past @ handed_ids s)" using ok by (auto simp: history_ok_def session_ids_ok_def)
  ultimately show ?thesis using k by blast
qed

theorem client_ids_never_collide_witness:
  "\<exists>past s. example_history {1, 0} past s \<and> past \<noteq> [] \<and>
     orders_match_cache (seq_state (test_engine_core ideal_ext) s) \<and> distinct (past @ handed_ids s)"
proof -
  obtain past s where h: "example_history {1, 0} past s" "past \<noteq> []" using example_second_session by blast
  from client_ids_never_collide [OF test_core_contract recording.journal_contract_axioms
      h(1) [unfolded example_history_def]] h show ?thesis by blast
qed

end
