(* ===== verification/Venue_Submit.thy ===== *)
theory Venue_Submit
  imports Paper_Adapter Sequencer
begin

text \<open>
  The venue submit task (\<open>gateway/src/lib.rs\<close>, \<open>VenueSubmitTask\<close>): it takes routed orders from
  the channel of the sequencer, submits them to the adapter of their venue and reports every
  outcome back as a sequencer command. The trait \<open>VenueAdapter\<close> is the record of its operations
  that the task calls; adapters of different venues may differ in them. \<open>alive n\<close> tells whether
  the sequencer still receives after \<open>n\<close> commands of the task; \<open>clock\<close> gives the instants of the
  submission and of a cancellation of the \<open>n\<close>-th order. An iteration of the loop has two parts,
  the submission up to the acknowledgement and the collection of the actions queued behind it;
  other users of the adapter may act between them. The lemmas show that no order is dropped silently
  and which shape the reports on one order have.
\<close>

subsection \<open>Adapters\<close>

record 'a venue_adapter =
  ad_simulates_fills_locally :: bool
  ad_submit_order :: "'a \<Rightarrow> order_submission \<Rightarrow> ('a \<times> (gateway_error + venue_order_ack)) option"
  ad_take_post_ack_actions :: "'a \<Rightarrow> venue_order_id \<Rightarrow> 'a \<times> (gateway_error + post_ack_actions)"

definition paper_venue_adapter :: "paper_adapter venue_adapter" where
  "paper_venue_adapter = \<lparr>ad_simulates_fills_locally = True, ad_submit_order = submit_order,
     ad_take_post_ack_actions = take_post_ack_actions\<rparr>"

text \<open>The default implementations of the trait, for an adapter given by its submission.\<close>

definition default_venue_adapter ::
  "('a \<Rightarrow> order_submission \<Rightarrow> ('a \<times> (gateway_error + venue_order_ack)) option) \<Rightarrow> 'a venue_adapter"
where
  "default_venue_adapter submit = \<lparr>ad_simulates_fills_locally = False, ad_submit_order = submit,
     ad_take_post_ack_actions = (\<lambda>a _. (a, Inr post_ack_actions_default))\<rparr>"

subsection \<open>The task\<close>

record 'a venue_submit_task =
  vt_adapters :: "venue_id \<rightharpoonup> 'a venue_adapter \<times> 'a"
  vt_sent :: "sequencer_command list"

definition venue_submit_task_new :: "(venue_id \<rightharpoonup> 'a venue_adapter \<times> 'a) \<Rightarrow> 'a venue_submit_task" where
  "venue_submit_task_new adapters = \<lparr>vt_adapters = adapters, vt_sent = []\<rparr>"

text \<open>\<open>SequencerHandle::send\<close>, and whether the command was received.\<close>

definition handle_send ::
  "(nat \<Rightarrow> bool) \<Rightarrow> sequencer_command \<Rightarrow> 'a venue_submit_task \<Rightarrow> 'a venue_submit_task \<times> bool"
where
  "handle_send alive cmd t =
     (if alive (length (vt_sent t)) then (t\<lparr>vt_sent := vt_sent t @ [cmd]\<rparr>, True) else (t, False))"

text \<open>The loop over the queued fills, which stops at the first one that is not received.\<close>

fun send_fills ::
  "(nat \<Rightarrow> bool) \<Rightarrow> post_ack_fill list \<Rightarrow> 'a venue_submit_task \<Rightarrow> 'a venue_submit_task"
where
  "send_fills alive [] t = t"
| "send_fills alive (q # qs) t = (case handle_send alive (CmdOnFill (pf_fill q)) t of
       (t', True) \<Rightarrow> send_fills alive qs t'
     | (t', False) \<Rightarrow> t')"

definition put_adapter :: "venue_id \<Rightarrow> 'a venue_adapter \<Rightarrow> 'a \<Rightarrow> 'a venue_submit_task \<Rightarrow> 'a venue_submit_task" where
  "put_adapter v A a t = t\<lparr>vt_adapters := (vt_adapters t)(v \<mapsto> (A, a))\<rparr>"

definition send :: "(nat \<Rightarrow> bool) \<Rightarrow> sequencer_command \<Rightarrow> 'a venue_submit_task \<Rightarrow> 'a venue_submit_task" where
  "send alive cmd t = fst (handle_send alive cmd t)"

definition report_post_ack ::
  "(nat \<Rightarrow> bool) \<Rightarrow> datetime \<Rightarrow> order_id \<Rightarrow> gateway_error + post_ack_actions \<Rightarrow> 'a venue_submit_task \<Rightarrow>
   'a venue_submit_task"
where
  "report_post_ack alive cancel_time order_id res t = (case res of
       Inr actions \<Rightarrow>
         (let t = send_fills alive (pk_fills actions) t in
          case pk_cancellation_reason actions of
            None \<Rightarrow> t
          | Some reason \<Rightarrow> send alive (CmdOnVenueCancelled order_id reason cancel_time) t)
     | Inl err \<Rightarrow> send alive (CmdOnVenueSubmitFailed order_id
         (PStr ''post-ack adapter action failed: '' # gateway_error_display err)) t)"

text \<open>
  The first part of an iteration of \<open>run\<close>: up to the acknowledgement, which is returned when it was
  received and the adapter has to be asked for further actions; \<open>None\<close> when the adapter panics.
\<close>

definition submit_first ::
  "(nat \<Rightarrow> bool) \<Rightarrow> datetime \<Rightarrow> routed pipeline_order \<Rightarrow> 'a venue_submit_task \<Rightarrow>
   ('a venue_submit_task \<times> venue_order_ack option) option"
where
  "submit_first alive now order t =
     (let order_id = oc_id (po_core order); venue_id = oc_venue_id (po_core order) in
      case vt_adapters t venue_id of
        None \<Rightarrow> Some (send alive (CmdOnVenueSubmitFailed order_id
                  [PStr ''no adapter registered for venue '', PStr (venue_id_str venue_id)]) t, None)
      | Some (A, a) \<Rightarrow>
          if oc_dry_run (po_core order) \<and> \<not> ad_simulates_fills_locally A
          then Some (send alive (CmdOnVenueAck order_id
                  (VenueOrderId (''sim-'' @ client_order_id_str (routed_client_order_id order))) now) t, None)
          else do {
            (a', res) \<leftarrow> ad_submit_order A a (submission_from_routed order);
            let t = put_adapter venue_id A a' t;
            Some (case res of
                Inr ack \<Rightarrow>
                  (case handle_send alive
                          (CmdOnVenueAck order_id (vk_venue_order_id ack) (vk_accepted_at ack)) t of
                     (t, False) \<Rightarrow> (t, None)
                   | (t, True) \<Rightarrow> (t, Some ack))
              | Inl err \<Rightarrow>
                  (send alive (CmdOnVenueSubmitFailed order_id (gateway_error_display err)) t, None)) })"

text \<open>The second part; the task never drops an adapter.\<close>

definition submit_second ::
  "(nat \<Rightarrow> bool) \<Rightarrow> datetime \<Rightarrow> routed pipeline_order \<Rightarrow> venue_order_ack \<Rightarrow> 'a venue_submit_task \<Rightarrow>
   'a venue_submit_task"
where
  "submit_second alive cancel_time order ack t =
     (let venue_id = oc_venue_id (po_core order) in
      case vt_adapters t venue_id of
        None \<Rightarrow> t
      | Some (A, a) \<Rightarrow>
          (let (a', actions) = ad_take_post_ack_actions A a (vk_venue_order_id ack)
           in report_post_ack alive cancel_time (oc_id (po_core order)) actions (put_adapter venue_id A a' t)))"

definition submit_one ::
  "(nat \<Rightarrow> bool) \<Rightarrow> datetime \<times> datetime \<Rightarrow> routed pipeline_order \<Rightarrow> 'a venue_submit_task \<Rightarrow>
   'a venue_submit_task option"
where
  "submit_one alive tms order t = do {
     (t', accepted) \<leftarrow> submit_first alive (fst tms) order t;
     Some (case accepted of None \<Rightarrow> t' | Some ack \<Rightarrow> submit_second alive (snd tms) order ack t') }"

text \<open>The loop, on the orders received until the sequencer drops the channel.\<close>

fun run_submit_task ::
  "(nat \<Rightarrow> bool) \<Rightarrow> (nat \<Rightarrow> datetime \<times> datetime) \<Rightarrow> nat \<Rightarrow> routed pipeline_order list \<Rightarrow>
   'a venue_submit_task \<Rightarrow> 'a venue_submit_task option"
where
  "run_submit_task alive clock n [] t = Some t"
| "run_submit_task alive clock n (order # orders) t = do {
     t' \<leftarrow> submit_one alive (clock n) order t;
     run_submit_task alive clock (Suc n) orders t' }"

subsection \<open>Specification\<close>

text \<open>The reports on one order: a failure, or an acknowledgement, fills and at most one cancel.\<close>

definition report_shape :: "order_id \<Rightarrow> sequencer_command list \<Rightarrow> bool" where
  "report_shape i cmds \<longleftrightarrow>
     (\<exists>reason. cmds = [CmdOnVenueSubmitFailed i reason]) \<or>
     (\<exists>v at_time fills. cmds = CmdOnVenueAck i v at_time # map CmdOnFill fills) \<or>
     (\<exists>v at_time fills reason t. cmds = CmdOnVenueAck i v at_time # map CmdOnFill fills @
        [CmdOnVenueCancelled i reason t])"

text \<open>What the task reports after an acknowledgement, given the adapter's actions.\<close>

definition post_ack_reports ::
  "datetime \<Rightarrow> order_id \<Rightarrow> gateway_error + post_ack_actions \<Rightarrow> sequencer_command list"
where
  "post_ack_reports ct i res = (case res of
       Inr actions \<Rightarrow> map CmdOnFill (map pf_fill (pk_fills actions)) @
         (case pk_cancellation_reason actions of
            None \<Rightarrow> [] | Some reason \<Rightarrow> [CmdOnVenueCancelled i reason ct])
     | Inl err \<Rightarrow> [CmdOnVenueSubmitFailed i
         (PStr ''post-ack adapter action failed: '' # gateway_error_display err)])"

definition example_task :: "paper_adapter venue_submit_task" where
  "example_task = \<lparr>vt_adapters = [VenueId ''paper'' \<mapsto> (paper_venue_adapter, ready_adapter)], vt_sent = []\<rparr>"

definition example_paper_routed :: "routed pipeline_order" where
  "example_paper_routed = \<lparr>po_core = example_paper_order, po_stage = \<lparr>ro_validated_at = 0,
     ro_approval = \<lparr>ra_approved_at = 0, ra_checks_performed = [], ra_warnings = []\<rparr>,
     ro_routing = \<lparr>rt_venue_id = VenueId ''paper'', rt_client_order_id = ClientOrderId ''athena-1-0-0'',
       rt_routed_at = 0\<rparr>\<rparr>\<rparr>"

text \<open>
  The contract of an adapter. \<open>ainv\<close> is an invariant of its state; the actions behind an
  acknowledgement are \<open>collectable\<close> from then on, whatever else the adapter does.
\<close>

locale venue_adapter_contract =
  fixes A :: "'a venue_adapter" and ainv :: "'a \<Rightarrow> bool" and collectable :: "'a \<Rightarrow> venue_order_id \<Rightarrow> bool"
  assumes submit_keeps: "ainv a \<Longrightarrow> ad_submit_order A a sub = Some (a', r) \<Longrightarrow>
      ainv a' \<and> (\<forall>v. collectable a v \<longrightarrow> collectable a' v)"
    and submit_acked: "ainv a \<Longrightarrow> ad_submit_order A a sub = Some (a', Inr ack) \<Longrightarrow>
      collectable a' (vk_venue_order_id ack)"
    and take_keeps: "ainv a \<Longrightarrow> ainv (fst (ad_take_post_ack_actions A a v)) \<and>
      (\<forall>w. collectable a w \<longrightarrow> collectable (fst (ad_take_post_ack_actions A a v)) w)"
    and collected: "ainv a \<Longrightarrow> collectable a v \<Longrightarrow> \<exists>actions. snd (ad_take_post_ack_actions A a v) = Inr actions"

definition adapters_ok ::
  "(venue_id \<Rightarrow> 'a \<Rightarrow> bool) \<Rightarrow> (venue_id \<Rightarrow> 'a \<Rightarrow> venue_order_id \<Rightarrow> bool) \<Rightarrow> (venue_id \<rightharpoonup> 'a venue_adapter \<times> 'a) \<Rightarrow> bool"
where
  "adapters_ok I C adapters \<longleftrightarrow>
     (\<forall>v A a. adapters v = Some (A, a) \<longrightarrow> venue_adapter_contract A (I v) (C v) \<and> I v a)"

text \<open>The actions behind the acknowledgement of an order can be collected.\<close>

definition ack_collectable ::
  "(venue_id \<Rightarrow> 'a \<Rightarrow> venue_order_id \<Rightarrow> bool) \<Rightarrow> 'a venue_submit_task \<Rightarrow> routed pipeline_order \<Rightarrow> venue_order_ack \<Rightarrow> bool"
where
  "ack_collectable C t order ack \<longleftrightarrow> (\<exists>A a. vt_adapters t (oc_venue_id (po_core order)) = Some (A, a) \<and>
     C (oc_venue_id (po_core order)) a (vk_venue_order_id ack))"

text \<open>Every cached acknowledgement of the paper adapter is of an acknowledged order.\<close>

definition acks_known :: "paper_adapter \<Rightarrow> bool" where
  "acks_known pa \<longleftrightarrow> (\<forall>c ack. ps_idempotency_cache (pa_state pa) c = Some ack \<longrightarrow>
     vk_venue_order_id ack \<in> ps_acknowledged_orders (pa_state pa))"

abbreviation acknowledged :: "paper_adapter \<Rightarrow> venue_order_id \<Rightarrow> bool" where
  "acknowledged pa v \<equiv> v \<in> ps_acknowledged_orders (pa_state pa)"

text \<open>What other calls may do to the paper adapter.\<close>

definition undisturbing :: "(paper_adapter \<Rightarrow> paper_adapter) \<Rightarrow> bool" where
  "undisturbing f \<longleftrightarrow> (\<forall>pa. acks_known pa \<longrightarrow>
     acks_known (f pa) \<and> ps_acknowledged_orders (pa_state pa) \<subseteq> ps_acknowledged_orders (pa_state (f pa)))"

text \<open>A submission to the paper adapter with other calls between its critical sections.\<close>

definition interleaved_submit ::
  "(paper_adapter \<Rightarrow> paper_adapter) \<Rightarrow> (paper_adapter \<Rightarrow> paper_adapter) \<Rightarrow> paper_adapter \<Rightarrow> order_submission \<Rightarrow>
   (paper_adapter \<times> (gateway_error + venue_order_ack)) option"
where
  "interleaved_submit f g pa sub = (case submit_check pa sub of
       Some answer \<Rightarrow> Some (pa, answer)
     | None \<Rightarrow> (case submit_book (f pa) sub of
         Inl e \<Rightarrow> Some (f pa, Inl e)
       | Inr book \<Rightarrow> submit_record (g (f pa)) sub book))"

subsection \<open>Sending\<close>

lemma send_alive:
  assumes "\<forall>n. alive n"
  shows "handle_send alive cmd t = (t\<lparr>vt_sent := vt_sent t @ [cmd]\<rparr>, True)"
    and "send alive cmd t = t\<lparr>vt_sent := vt_sent t @ [cmd]\<rparr>"
  using assms by (simp_all add: handle_send_def send_def)

lemma send_fills_alive:
  "\<forall>n. alive n \<Longrightarrow> send_fills alive qs t = t\<lparr>vt_sent := vt_sent t @ map (\<lambda>q. CmdOnFill (pf_fill q)) qs\<rparr>"
  by (induction qs arbitrary: t) (simp_all add: send_alive)

lemma report_shapeI:
  "report_shape i [CmdOnVenueSubmitFailed i reason]"
  "report_shape i (CmdOnVenueAck i v w # map CmdOnFill fs)"
  "report_shape i (CmdOnVenueAck i v w # map CmdOnFill fs @ [CmdOnVenueCancelled i reason ct])"
  unfolding report_shape_def by blast+

lemma report_post_ack_alive:
  "\<forall>n. alive n \<Longrightarrow> report_post_ack alive ct i res t = t\<lparr>vt_sent := vt_sent t @ post_ack_reports ct i res\<rparr>"
  by (auto simp: report_post_ack_def post_ack_reports_def send_fills_alive send_alive comp_def Let_def
      split: sum.split option.split)

lemma post_ack_reports_shape: "report_shape i (CmdOnVenueAck i v w # post_ack_reports ct i (Inr actions))"
  by (cases "pk_cancellation_reason actions")
    (simp_all add: post_ack_reports_def report_shapeI(2) report_shapeI(3) del: map_map)

lemma put_adapter_simps [simp]:
  "vt_sent (put_adapter v A a t) = vt_sent t"
  "vt_adapters (put_adapter v A a t) = (vt_adapters t)(v \<mapsto> (A, a))"
  by (simp_all add: put_adapter_def)

text \<open>The paths through the first part, while the sequencer receives.\<close>

lemma submit_first_cases:
  assumes "submit_first alive now order t = Some (t', acc)" and "\<forall>n. alive n"
  obtains (direct) cmd where "vt_adapters t' = vt_adapters t" and "vt_sent t' = vt_sent t @ [cmd]"
      and "report_shape (oc_id (po_core order)) [cmd]" and "acc = None"
  | (refused) A a a' e where "vt_adapters t (oc_venue_id (po_core order)) = Some (A, a)"
      and "ad_submit_order A a (submission_from_routed order) = Some (a', Inl e)"
      and "vt_adapters t' = (vt_adapters t)(oc_venue_id (po_core order) \<mapsto> (A, a'))"
      and "vt_sent t' = vt_sent t @ [CmdOnVenueSubmitFailed (oc_id (po_core order)) (gateway_error_display e)]"
      and "acc = None"
  | (acked) A a a' ack where "vt_adapters t (oc_venue_id (po_core order)) = Some (A, a)"
      and "ad_submit_order A a (submission_from_routed order) = Some (a', Inr ack)"
      and "vt_adapters t' = (vt_adapters t)(oc_venue_id (po_core order) \<mapsto> (A, a'))"
      and "vt_sent t' = vt_sent t @ [CmdOnVenueAck (oc_id (po_core order)) (vk_venue_order_id ack)
        (vk_accepted_at ack)]" and "acc = Some ack"
proof (cases "vt_adapters t (oc_venue_id (po_core order))")
  case None
  with assms show thesis
    by (intro direct) (auto simp: submit_first_def send_alive [OF assms(2)] report_shapeI)
next
  case (Some p)
  obtain A a where p: "p = (A, a)" by (cases p)
  show thesis
  proof (cases "oc_dry_run (po_core order) \<and> \<not> ad_simulates_fills_locally A")
    case True
    with assms Some p show thesis
      by (intro direct)
        (auto simp: submit_first_def send_alive [OF assms(2)] report_shapeI(2) [where fs = "[]", simplified] Let_def)
  next
    case False
    then obtain a' res where sub: "ad_submit_order A a (submission_from_routed order) = Some (a', res)"
      using assms(1) Some p by (auto simp: submit_first_def bind_Some_iff Let_def)
    show thesis
    proof (cases res)
      case (Inl e)
      with assms Some p False sub show thesis
        by (intro refused [OF _ sub [unfolded Inl]]) (auto simp: submit_first_def send_alive [OF assms(2)] Let_def)
    next
      case (Inr ack)
      with assms Some p False sub show thesis
        by (intro acked [OF _ sub [unfolded Inr]])
          (auto simp: submit_first_def send_alive [OF assms(2)] Let_def)
    qed
  qed
qed

text \<open>The first part answers the order; what it leaves to collect can be collected.\<close>

lemma submit_first_reports:
  assumes "submit_first alive now order t = Some (t', acc)" and "\<forall>n. alive n" and "adapters_ok I C (vt_adapters t)"
  shows "adapters_ok I C (vt_adapters t')"
    and "case acc of
       None \<Rightarrow> \<exists>cmd. vt_sent t' = vt_sent t @ [cmd] \<and> report_shape (oc_id (po_core order)) [cmd]
     | Some ack \<Rightarrow> ack_collectable C t' order ack \<and> vt_sent t' = vt_sent t @ [CmdOnVenueAck (oc_id (po_core order))
         (vk_venue_order_id ack) (vk_accepted_at ack)]"
proof -
  let ?v = "oc_venue_id (po_core order)"
  have keep: "adapters_ok I C (vt_adapters t')" if "vt_adapters t' = (vt_adapters t)(?v \<mapsto> (A, a'))"
    "vt_adapters t ?v = Some (A, a)" "ad_submit_order A a (submission_from_routed order) = Some (a', r)" for A a a' r
    using assms(3) that venue_adapter_contract.submit_keeps [of A "I ?v" "C ?v" a _ a' r]
    by (auto simp: adapters_ok_def)
  have "adapters_ok I C (vt_adapters t') \<and> (case acc of
       None \<Rightarrow> \<exists>cmd. vt_sent t' = vt_sent t @ [cmd] \<and> report_shape (oc_id (po_core order)) [cmd]
     | Some ack \<Rightarrow> ack_collectable C t' order ack \<and> vt_sent t' = vt_sent t @ [CmdOnVenueAck (oc_id (po_core order))
         (vk_venue_order_id ack) (vk_accepted_at ack)])"
    using assms(1,2)
  proof (cases rule: submit_first_cases)
    case (direct cmd)
    with assms(3) show ?thesis by simp
  next
    case (refused A a a' e)
    with keep [OF refused(3,1,2)] show ?thesis by (simp add: report_shapeI)
  next
    case (acked A a a' ack)
    have "venue_adapter_contract A (I ?v) (C ?v)" "I ?v a" using assms(3) acked(1) by (auto simp: adapters_ok_def)
    from venue_adapter_contract.submit_acked [OF this acked(2)] keep [OF acked(3,1,2)] acked(3-5)
    show ?thesis by (simp add: ack_collectable_def)
  qed
  then show "adapters_ok I C (vt_adapters t')"
    "case acc of
       None \<Rightarrow> \<exists>cmd. vt_sent t' = vt_sent t @ [cmd] \<and> report_shape (oc_id (po_core order)) [cmd]
     | Some ack \<Rightarrow> ack_collectable C t' order ack \<and> vt_sent t' = vt_sent t @ [CmdOnVenueAck (oc_id (po_core order))
         (vk_venue_order_id ack) (vk_accepted_at ack)]"
    by blast+
qed

text \<open>The second part reports fills and at most one cancellation.\<close>

lemma submit_second_reports:
  assumes "adapters_ok I C (vt_adapters t)" and "ack_collectable C t order ack" and "\<forall>n. alive n"
  obtains actions where "vt_sent (submit_second alive ct order ack t) =
      vt_sent t @ post_ack_reports ct (oc_id (po_core order)) (Inr actions)"
    and "adapters_ok I C (vt_adapters (submit_second alive ct order ack t))"
proof -
  let ?v = "oc_venue_id (po_core order)" and ?w = "vk_venue_order_id ack"
  obtain A a where a: "vt_adapters t ?v = Some (A, a)" "C ?v a ?w" using assms(2) by (auto simp: ack_collectable_def)
  have c: "venue_adapter_contract A (I ?v) (C ?v)" "I ?v a" using assms(1) a(1) by (auto simp: adapters_ok_def)
  obtain actions where act: "snd (ad_take_post_ack_actions A a ?w) = Inr actions"
    using venue_adapter_contract.collected [OF c a(2)] by blast
  have s: "submit_second alive ct order ack t = (put_adapter ?v A (fst (ad_take_post_ack_actions A a ?w)) t)
      \<lparr>vt_sent := vt_sent t @ post_ack_reports ct (oc_id (po_core order)) (Inr actions)\<rparr>"
    using a(1) act by (auto simp: submit_second_def report_post_ack_alive [OF assms(3)] split: prod.split)
  show thesis
    by (rule that [of actions])
      (use venue_adapter_contract.take_keeps [OF c] c(1) assms(1) in \<open>auto simp: s adapters_ok_def\<close>)
qed

lemma submit_one_reports:
  assumes "submit_one alive tms order t = Some t'" and "\<forall>n. alive n" and "adapters_ok I C (vt_adapters t)"
  shows "adapters_ok I C (vt_adapters t') \<and>
    (\<exists>cmds. vt_sent t' = vt_sent t @ cmds \<and> report_shape (oc_id (po_core order)) cmds)"
proof -
  obtain u acc where u: "submit_first alive (fst tms) order t = Some (u, acc)"
      "t' = (case acc of None \<Rightarrow> u | Some ack \<Rightarrow> submit_second alive (snd tms) order ack u)"
    using assms(1) by (auto simp: submit_one_def bind_Some_iff)
  note f = submit_first_reports [OF u(1) assms(2,3)]
  show ?thesis
  proof (cases acc)
    case None
    with f u(2) show ?thesis by auto
  next
    case (Some ack)
    then have a: "ack_collectable C u order ack" "vt_sent u = vt_sent t @ [CmdOnVenueAck (oc_id (po_core order))
         (vk_venue_order_id ack) (vk_accepted_at ack)]" using f(2) by simp_all
    obtain actions where "vt_sent t' = vt_sent u @ post_ack_reports (snd tms) (oc_id (po_core order)) (Inr actions)"
        "adapters_ok I C (vt_adapters t')"
      using submit_second_reports [OF f(1) a(1) assms(2), of "snd tms"] u(2) Some by auto
    with a(2) post_ack_reports_shape show ?thesis by simp
  qed
qed

lemma run_submit_reports:
  assumes "run_submit_task alive clock n orders t = Some t'" and "\<forall>n. alive n" and "adapters_ok I C (vt_adapters t)"
  shows "\<exists>segs. vt_sent t' = vt_sent t @ concat segs \<and>
    list_all2 (\<lambda>order seg. report_shape (oc_id (po_core order)) seg) orders segs"
  using assms(1,3)
proof (induction orders arbitrary: n t)
  case Nil
  then show ?case by (intro exI [of _ "[]"]) simp
next
  case (Cons order orders)
  then obtain u where u: "submit_one alive (clock n) order t = Some u"
    "run_submit_task alive clock (Suc n) orders u = Some t'" by (auto simp: bind_Some_iff)
  obtain cmds where cmds: "adapters_ok I C (vt_adapters u)" "vt_sent u = vt_sent t @ cmds" "report_shape (oc_id (po_core order)) cmds"
    using submit_one_reports [OF u(1) assms(2) Cons.prems(2)] by blast
  obtain segs where "vt_sent t' = vt_sent u @ concat segs"
    "list_all2 (\<lambda>order seg. report_shape (oc_id (po_core order)) seg) orders segs"
    using Cons.IH [OF u(2) cmds(1)] by blast
  with cmds show ?case by (intro exI [of _ "cmds # segs"]) simp
qed

subsection \<open>The paper adapter keeps the contract\<close>

lemma submit_record_acks:
  assumes "submit_record pa sub book = Some (pa', r)" and "acks_known pa"
  shows "acks_known pa'" and "ps_acknowledged_orders (pa_state pa) \<subseteq> ps_acknowledged_orders (pa_state pa')"
proof -
  have "acks_known (pa\<lparr>pa_state := fst (submit_resting sub ack (pa_state pa))\<rparr>) \<and>
      ps_acknowledged_orders (pa_state pa) \<subseteq> ps_acknowledged_orders (fst (submit_resting sub ack (pa_state pa)))" for ack
    using assms(2) by (cases "os_time_in_force sub")
      (auto simp: acks_known_def submit_resting_def acknowledge_def queue_actions_def open_order_def Let_def)
  moreover have "acks_known (pa\<lparr>pa_state := fst (submit_executed sub ack sf (pa_state pa))\<rparr>) \<and>
      ps_acknowledged_orders (pa_state pa) \<subseteq> ps_acknowledged_orders (fst (submit_executed sub ack sf (pa_state pa)))"
    for ack sf
    using assms(2)
    by (auto simp: acks_known_def submit_executed_def acknowledge_def queue_actions_def open_order_def Let_def)
  ultimately show "acks_known pa'" "ps_acknowledged_orders (pa_state pa) \<subseteq> ps_acknowledged_orders (pa_state pa')"
    using assms by (cases rule: submit_record_cases [OF assms(1)]; simp)+
qed

lemma broadcasts_state [simp]: "pa_state (foldl broadcast_fill pa fs) = pa_state pa"
  by (induction fs arbitrary: pa) (simp_all add: broadcast_fill_def)

lemma take_acks:
  assumes "acks_known pa"
  shows "acks_known (fst (take_post_ack_actions pa v))"
    and "ps_acknowledged_orders (pa_state (fst (take_post_ack_actions pa v))) = ps_acknowledged_orders (pa_state pa)"
    and "acknowledged pa v \<Longrightarrow> \<exists>actions. snd (take_post_ack_actions pa v) = Inr actions"
  using assms
  by (auto simp: acks_known_def take_post_ack_actions_def take_section_def Let_def split: option.split)

text \<open>The contract holds with any other calls between the critical sections of a submission.\<close>

lemma interleaved_contract:
  assumes "undisturbing f" and "undisturbing g"
  shows "venue_adapter_contract (paper_venue_adapter\<lparr>ad_submit_order := interleaved_submit f g\<rparr>) acks_known acknowledged"
proof (unfold_locales, goal_cases)
  case (1 pa sub pa' r)
  then have sub: "interleaved_submit f g pa sub = Some (pa', r)" by simp
  have dist: "acks_known (f pa)" "acks_known (g (f pa))"
      "ps_acknowledged_orders (pa_state pa) \<subseteq> ps_acknowledged_orders (pa_state (f pa))"
      "ps_acknowledged_orders (pa_state (f pa)) \<subseteq> ps_acknowledged_orders (pa_state (g (f pa)))"
    using assms 1(1) by (simp_all add: undisturbing_def)
  consider "pa' = pa" | "pa' = f pa" | book where "submit_record (g (f pa)) sub book = Some (pa', r)"
    using sub by (auto simp: interleaved_submit_def split: option.splits sum.splits)
  then show ?case
  proof cases
    case (3 book)
    from submit_record_acks [OF this dist(2)] dist(3,4) show ?thesis by blast
  qed (use 1(1) dist in auto)
next
  case (2 pa sub pa' ack)
  then have sub: "interleaved_submit f g pa sub = Some (pa', Inr ack)" by simp
  consider "pa' = pa" "ps_idempotency_cache (pa_state pa) (os_client_order_id sub) = Some ack"
    | book where "submit_record (g (f pa)) sub book = Some (pa', Inr ack)"
    using sub
    by (auto simp: interleaved_submit_def submit_check_def split: option.splits sum.splits if_splits)
  then show ?case
  proof cases
    case 1
    with 2(1) show ?thesis by (simp add: acks_known_def)
  next
    case (2 book)
    have "acks_known (g (f pa))" using assms \<open>acks_known pa\<close> by (simp add: undisturbing_def)
    from submit_record_acks(1) [OF 2 this] submit_record_cache(2) [OF 2 refl] show ?thesis
      by (simp add: acks_known_def)
  qed
qed (use take_acks in \<open>auto simp: paper_venue_adapter_def\<close>)

lemma undisturbing_ops:
  "undisturbing id" "undisturbing (\<lambda>pa. broadcast_fill pa fill)" "undisturbing (\<lambda>pa. fst (cancel_order pa v))"
  "undisturbing (\<lambda>pa. fst (take_post_ack_actions pa v))" "undisturbing (\<lambda>pa. connect pa now)" "undisturbing disconnect"
  by (auto simp: undisturbing_def take_acks)
    (auto simp: acks_known_def broadcast_fill_def cancel_order_def connect_def disconnect_def split: option.splits)

lemma reprice_loop_acks:
  "reprice_loop X pa snapshot vs st fills = Some (st', r) \<Longrightarrow>
   ps_acknowledged_orders st' = ps_acknowledged_orders st"
proof (induction vs arbitrary: st fills)
  case (Cons v vs)
  then show ?case
    by (auto simp: bind_Some_iff Let_def sum_case_iff outcome_case_iff
        split: option.splits if_splits dest!: Cons.IH)
qed simp

lemma book_section_acks:
  "book_section X keys pa snapshot = Some (pa', r) \<Longrightarrow>
   ps_acknowledged_orders (pa_state pa') = ps_acknowledged_orders (pa_state pa)"
  by (auto simp: book_section_def collect_repriced_fills_def bind_Some_iff Let_def
      dest!: reprice_loop_acks split: if_splits sum.splits)

lemma undisturbing_book:
  "undisturbing (\<lambda>pa. case replace_orderbook X keys pa b of Some (pa', _) \<Rightarrow> pa' | None \<Rightarrow> pa)"
  by (auto simp: undisturbing_def acks_known_def replace_orderbook_def book_section_acks book_section_cache
      split: option.splits sum.splits bind_splits)

interpretation paper: venue_adapter_contract paper_venue_adapter acks_known acknowledged
proof -
  have "paper_venue_adapter\<lparr>ad_submit_order := interleaved_submit id id\<rparr> = paper_venue_adapter"
    by (simp add: paper_venue_adapter_def interleaved_submit_def submit_order_def fun_eq_iff cong: option.case_cong sum.case_cong)
  with interleaved_contract [OF undisturbing_ops(1,1)]
  show "venue_adapter_contract paper_venue_adapter acks_known acknowledged" by simp
qed

text \<open>Adapters that use the default implementation keep it for trivial reasons.\<close>

interpretation defaulted: venue_adapter_contract "default_venue_adapter submit" "\<lambda>_. True" "\<lambda>_ _. True" for submit
  by unfold_locales (simp_all add: default_venue_adapter_def)

subsection \<open>Properties\<close>

text \<open>
  C0: No order is dropped silently. While the sequencer receives, the task reports on every order
  it takes from the channel, in order: either a single submission failure, or an
  acknowledgement followed by fills and at most one cancellation; a failure is never reported
  after an acknowledgement. This holds for adapters whose actions can be collected after an
  acknowledgement, such as the paper adapter.
\<close>

theorem submit_task_reports:
  assumes "run_submit_task alive clock n orders t = Some t'" and "\<forall>n. alive n"
    and "\<forall>v A a. vt_adapters t v = Some (A, a) \<longrightarrow> venue_adapter_contract A (I v) (C v) \<and> I v a"
  shows "\<exists>segs. vt_sent t' = vt_sent t @ concat segs \<and>
    list_all2 (\<lambda>order seg. report_shape (oc_id (po_core order)) seg) orders segs"
  using run_submit_reports [OF assms(1,2)] assms(3) by (auto simp: adapters_ok_def)

lemma example_task_run:
  "\<exists>t'. run_submit_task (\<lambda>_. True) (\<lambda>_. (0, 0)) 0 [example_paper_routed] example_task = Some t'"
proof -
  have "submission_from_routed example_paper_routed = example_submission"
    by (simp add: submission_from_routed_def example_paper_routed_def example_paper_order_def
        example_submission_def)
  moreover have "oc_venue_id (po_core example_paper_routed) = VenueId ''paper''"
    by (simp add: example_paper_routed_def example_paper_order_def)
  ultimately show ?thesis using example_accepted
    by (auto simp: submit_one_def submit_first_def submit_second_def example_task_def paper_venue_adapter_def
        handle_send_def Let_def split: prod.split)
qed

theorem submit_task_reports_witness:
  "\<exists>t' seg. run_submit_task (\<lambda>_. True) (\<lambda>_. (0, 0)) 0 [example_paper_routed] example_task = Some t' \<and>
     vt_sent t' = seg \<and> report_shape (OrderId ''ord-paper-1'') seg"
proof -
  obtain t' where run: "run_submit_task (\<lambda>_. True) (\<lambda>_. (0, 0)) 0 [example_paper_routed] example_task = Some t'"
    using example_task_run by blast
  have "\<forall>v A a. vt_adapters example_task v = Some (A, a) \<longrightarrow>
      venue_adapter_contract A acks_known acknowledged \<and> acks_known a"
    by (auto simp: example_task_def paper.venue_adapter_contract_axioms acks_known_def ready_adapter_simps
        split: if_splits)
  from submit_task_reports [OF run _ this] run show ?thesis
    by (auto simp: list_all2_Cons1 example_task_def example_paper_routed_def example_paper_order_def)
qed

end
