(* ===== verification/Journal.thy ===== *)
theory Journal
  imports Sequencer_Recovery "HOL-Library.Product_Lexorder"
begin

text \<open>
  The SQLite journal (\<open>engine-core/src/journal.rs\<close>). The two tables are lists of rows in the order
  of insertion; each SQL statement of the source is the list operation it denotes (\<open>INSERT OR
  IGNORE\<close>, \<open>INSERT OR REPLACE\<close>, \<open>DELETE\<close>, \<open>SELECT\<close> with its \<open>WHERE\<close> and \<open>ORDER BY\<close>), and a
  transaction that is not committed leaves the tables as they were. Which statements fail is not
  determined by the source: a schedule (\<open>db_env\<close>) gives for every stage of every operation the error
  of the database, if any. The MessagePack encoding (\<open>rmp_serde\<close>) and the RFC 3339 rendering are the
  record \<open>codec\<close>; its payloads are an arbitrary type.

  Shown here: the journal refines the in-memory journal of the engine core under the sequencer's
  use, commits are atomic, the contract \<open>journal_contract\<close> holds, and what opening an older or a
  half-migrated file does.
\<close>

subsection \<open>Rows, tables and the codec\<close>

record 'b event_row =
  er_sequence_id :: int
  er_event_index :: int
  er_timestamp :: string
  er_event_kind :: string
  er_schema_version :: int
  er_payload :: 'b

record 'b snapshot_row =
  ss_sequence_id :: int
  ss_timestamp :: string
  ss_schema_version :: int
  ss_payload :: 'b

record 'b tables =
  tb_events :: "'b event_row list"
  tb_snapshots :: "'b snapshot_row list"

record 'b codec =
  cd_encode_event :: "engine_event sequenced_event \<Rightarrow> msg + 'b"
  cd_decode_event :: "'b \<Rightarrow> msg + engine_event sequenced_event"
  cd_encode_snapshot :: "engine_state_snapshot \<Rightarrow> msg + 'b"
  cd_decode_snapshot :: "'b \<Rightarrow> msg + engine_state_snapshot"
  cd_rfc3339 :: "datetime \<Rightarrow> string"

definition PERSISTED_SCHEMA_VERSION :: int where
  "PERSISTED_SCHEMA_VERSION = 1"

text \<open>Where an operation on the connection can fail.\<close>

datatype db_stage =
    StJoin | StLock | StBegin | StInsert nat | StSnapshot | StPrune | StCommit
  | StPrepare | StQuery | StRow nat
  | StOpen | StPragma | StCreateEvents | StCreateSnapshots
  | StInfoPrepare string | StInfoQuery string | StInfoRow string
  | StCreateV2 | StCopy | StDrop | StRename | StAlter string

type_synonym db_faults = "db_stage \<Rightarrow> msg option"

text \<open>The faults of the \<open>n\<close>-th write, and of the reads that follow \<open>n\<close> writes.\<close>

record db_env =
  de_write :: "nat \<Rightarrow> db_faults"
  de_read :: "nat \<Rightarrow> db_faults"

record 'b sqlite_journal =
  sj_tables :: "'b tables"
  sj_ops :: nat

abbreviation jerr :: "msg \<Rightarrow> engine_error + 'a" where
  "jerr m \<equiv> Inl (ErrJournal m)"

subsection \<open>Encoding\<close>

definition encode_event :: "'b codec \<Rightarrow> engine_event sequenced_event \<Rightarrow> engine_error + 'b" where
  "encode_event C event = (case cd_encode_event C event of
       Inl e \<Rightarrow> jerr ([PStr ''failed to encode event seq:'', PInt (uint (se_sequence_id event)), PStr '': ''] @ e)
     | Inr b \<Rightarrow> Inr b)"

definition decode_event :: "'b codec \<Rightarrow> 'b \<Rightarrow> engine_error + engine_event sequenced_event" where
  "decode_event C bytes = (case cd_decode_event C bytes of
       Inl e \<Rightarrow> jerr (PStr ''failed to decode event: '' # e)
     | Inr ev \<Rightarrow> Inr ev)"

definition encode_snapshot :: "'b codec \<Rightarrow> engine_state_snapshot \<Rightarrow> engine_error + 'b" where
  "encode_snapshot C snapshot = (case cd_encode_snapshot C snapshot of
       Inl e \<Rightarrow> jerr (PStr ''failed to encode snapshot: '' # e)
     | Inr b \<Rightarrow> Inr b)"

definition decode_snapshot :: "'b codec \<Rightarrow> 'b \<Rightarrow> engine_error + engine_state_snapshot" where
  "decode_snapshot C bytes = (case cd_decode_snapshot C bytes of
       Inl e \<Rightarrow> jerr (PStr ''failed to decode snapshot: '' # e)
     | Inr sn \<Rightarrow> Inr sn)"

definition ensure_supported_schema_version :: "string \<Rightarrow> int \<Rightarrow> int \<Rightarrow> engine_error + unit" where
  "ensure_supported_schema_version entity schema_version sequence_id =
     (if schema_version = PERSISTED_SCHEMA_VERSION then Inr ()
      else jerr [PStr ''unsupported '', PStr entity, PStr '' schema_version '', PInt schema_version,
             PStr '' at seq:'', PInt sequence_id, PStr ''; expected '', PInt PERSISTED_SCHEMA_VERSION])"

text \<open>The cast of a release build: ids from \<open>2\<^sup>6\<^sup>3\<close> on become negative.\<close>

definition seq_as_i64 :: "sequence_id \<Rightarrow> int" where
  "seq_as_i64 q = sint q"

fun event_kind :: "engine_event \<Rightarrow> string" where
  "event_kind (EvOrderReceived i a n v) = ''OrderReceived''"
| "event_kind (EvOrderValidated i) = ''OrderValidated''"
| "event_kind (EvOrderRiskChecked i k) = ''OrderRiskChecked''"
| "event_kind (EvOrderRouted i v) = ''OrderRouted''"
| "event_kind (EvOrderSubmitted i w) = ''OrderSubmitted''"
| "event_kind (EvOrderFilled i q p e) = ''OrderFilled''"
| "event_kind (EvOrderPartiallyFilled i q p r e) = ''OrderPartiallyFilled''"
| "event_kind (EvOrderCancelled i r) = ''OrderCancelled''"
| "event_kind (EvOrderRejected i g r) = ''OrderRejected''"
| "event_kind (EvOrderAmended i p q) = ''OrderAmended''"
| "event_kind (EvRiskBreached a k r) = ''RiskBreached''"
| "event_kind (EvCircuitBreakerTripped b r) = ''CircuitBreakerTripped''"
| "event_kind (EvCircuitBreakerReset b) = ''CircuitBreakerReset''"
| "event_kind (EvPositionCorrected n v p q) = ''PositionCorrected''"
| "event_kind (EvReconciliationCompleted v d) = ''ReconciliationCompleted''"
| "event_kind (EvAgentPaused a r) = ''AgentPaused''"
| "event_kind (EvAgentResumed a) = ''AgentResumed''"
| "event_kind (EvEngineStarted m) = ''EngineStarted''"
| "event_kind (EvEngineHalted r) = ''EngineHalted''"
| "event_kind (EvSnapshotCreated sid) = ''SnapshotCreated''"
| "event_kind (EvVenueConnected v) = ''VenueConnected''"
| "event_kind (EvVenueDisconnected v r) = ''VenueDisconnected''"
| "event_kind (EvSubsystemDegraded u r) = ''SubsystemDegraded''"
| "event_kind (EvSubsystemRecovered u) = ''SubsystemRecovered''"

definition encode_event_row ::
  "'b codec \<Rightarrow> nat \<Rightarrow> engine_event sequenced_event \<Rightarrow> engine_error + 'b event_row"
where
  "encode_event_row C event_index event =
     (if int event_index \<ge> 2 ^ 63
      then jerr [PStr ''event_index '', PInt (int event_index), PStr '' overflows i64'']
      else (case encode_event C event of
          Inl e \<Rightarrow> Inl e
        | Inr payload \<Rightarrow> Inr \<lparr>
            er_sequence_id = seq_as_i64 (se_sequence_id event),
            er_event_index = int event_index,
            er_timestamp = cd_rfc3339 C (se_timestamp event),
            er_event_kind = event_kind (se_event event),
            er_schema_version = PERSISTED_SCHEMA_VERSION,
            er_payload = payload\<rparr>))"

definition encode_snapshot_row ::
  "'b codec \<Rightarrow> engine_state_snapshot \<Rightarrow> engine_error + 'b snapshot_row"
where
  "encode_snapshot_row C snapshot = (case encode_snapshot C snapshot of
       Inl e \<Rightarrow> Inl e
     | Inr payload \<Rightarrow> Inr \<lparr>
         ss_sequence_id = seq_as_i64 (sn_sequence_id snapshot),
         ss_timestamp = cd_rfc3339 C (sn_snapshot_at snapshot),
         ss_schema_version = PERSISTED_SCHEMA_VERSION,
         ss_payload = payload\<rparr>)"

text \<open>\<open>collect::<Result<Vec<_>, _>>()\<close>.\<close>

fun collect_results :: "('e + 'a) list \<Rightarrow> 'e + 'a list" where
  "collect_results [] = Inr []"
| "collect_results (Inl e # rs) = Inl e"
| "collect_results (Inr x # rs) = (case collect_results rs of Inl e \<Rightarrow> Inl e | Inr xs \<Rightarrow> Inr (x # xs))"

subsection \<open>Writing\<close>

definition row_key :: "'b event_row \<Rightarrow> int \<times> int" where
  "row_key r = (er_sequence_id r, er_event_index r)"

text \<open>\<open>INSERT OR IGNORE INTO events\<close>, \<open>INSERT OR REPLACE INTO snapshots\<close>, \<open>DELETE FROM snapshots\<close>.\<close>

definition insert_or_ignore :: "'b event_row \<Rightarrow> 'b event_row list \<Rightarrow> 'b event_row list" where
  "insert_or_ignore r rows = (if row_key r \<in> row_key ` set rows then rows else rows @ [r])"

definition insert_or_replace :: "'b snapshot_row \<Rightarrow> 'b snapshot_row list \<Rightarrow> 'b snapshot_row list" where
  "insert_or_replace r rows = filter (\<lambda>r'. ss_sequence_id r' \<noteq> ss_sequence_id r) rows @ [r]"

definition delete_older :: "int \<Rightarrow> 'b snapshot_row list \<Rightarrow> 'b snapshot_row list" where
  "delete_older q rows = filter (\<lambda>r. \<not> ss_sequence_id r < q) rows"

fun insert_events :: "db_faults \<Rightarrow> nat \<Rightarrow> 'b event_row list \<Rightarrow> 'b tables \<Rightarrow> engine_error + 'b tables" where
  "insert_events f n [] tx = Inr tx"
| "insert_events f n (r # rs) tx = (case f (StInsert n) of
       Some e \<Rightarrow> jerr ([PStr ''batch insert at seq:'', PInt (er_sequence_id r), PStr ''/event:'',
                        PInt (er_event_index r), PStr '': ''] @ e)
     | None \<Rightarrow> insert_events f (Suc n) rs (tx\<lparr>tb_events := insert_or_ignore r (tb_events tx)\<rparr>))"

definition store_snapshot :: "db_faults \<Rightarrow> 'b snapshot_row \<Rightarrow> 'b tables \<Rightarrow> engine_error + 'b tables" where
  "store_snapshot f sn tx = (case f StSnapshot of
       Some e \<Rightarrow> jerr ([PStr ''save_snapshot at seq:'', PInt (ss_sequence_id sn), PStr '': ''] @ e)
     | None \<Rightarrow> (case f StPrune of
         Some e \<Rightarrow> jerr ([PStr ''prune old snapshots at seq:'', PInt (ss_sequence_id sn), PStr '': ''] @ e)
       | None \<Rightarrow> Inr (tx\<lparr>tb_snapshots :=
           delete_older (ss_sequence_id sn) (insert_or_replace sn (tb_snapshots tx))\<rparr>)))"

text \<open>
  \<open>persist_rows\<close>: on an error the transaction is dropped and rolled back. The checkpoint after the
  commit changes no table and its failure is only logged.
\<close>

definition persist_rows ::
  "db_faults \<Rightarrow> 'b tables \<Rightarrow> 'b event_row list \<Rightarrow> 'b snapshot_row option \<Rightarrow> 'b tables \<times> (engine_error + unit)"
where
  "persist_rows f db events snapshot =
     (if events = [] \<and> snapshot = None then (db, Inr ())
      else case f StBegin of
        Some e \<Rightarrow> (db, jerr (PStr ''begin transaction: '' # e))
      | None \<Rightarrow> (case insert_events f 0 events db of
          Inl err \<Rightarrow> (db, Inl err)
        | Inr tx \<Rightarrow> (case (case snapshot of None \<Rightarrow> Inr tx | Some sn \<Rightarrow> store_snapshot f sn tx) of
            Inl err \<Rightarrow> (db, Inl err)
          | Inr tx \<Rightarrow> (case f StCommit of
              Some e \<Rightarrow> (db, jerr (PStr ''commit transaction: '' # e))
            | None \<Rightarrow> (tx, Inr ())))))"

text \<open>\<open>spawn_blocking\<close> and the lock of the connection around the body of an operation.\<close>

definition blocking :: "db_faults \<Rightarrow> engine_error + 'a \<Rightarrow> engine_error + 'a" where
  "blocking f r = (case f StJoin of
       Some e \<Rightarrow> jerr (PStr ''spawn_blocking panic: '' # e)
     | None \<Rightarrow> (case f StLock of
         Some _ \<Rightarrow> jerr (lit ''journal mutex poisoned'')
       | None \<Rightarrow> r))"

definition persist_commit ::
  "'b codec \<Rightarrow> db_env \<Rightarrow> 'b sqlite_journal \<Rightarrow> journal_events \<Rightarrow> engine_state_snapshot option \<Rightarrow>
   'b sqlite_journal \<times> (engine_error + unit)"
where
  "persist_commit C F j events snapshot =
     (case collect_results (map (\<lambda>(event_index, event). encode_event_row C event_index event)
             (enumerate 0 events)) of
        Inl err \<Rightarrow> (j, Inl err)
      | Inr rows \<Rightarrow> (case (case snapshot of None \<Rightarrow> Inr None
                          | Some sn \<Rightarrow> map_sum id Some (encode_snapshot_row C sn)) of
          Inl err \<Rightarrow> (j, Inl err)
        | Inr snapshot_row \<Rightarrow>
            (let f = de_write F (sj_ops j); j = j\<lparr>sj_ops := Suc (sj_ops j)\<rparr> in
             case blocking f (Inr ()) of
               Inl err \<Rightarrow> (j, Inl err)
             | Inr _ \<Rightarrow> (let (db, r) = persist_rows f (sj_tables j) rows snapshot_row
                         in (j\<lparr>sj_tables := db\<rparr>, r)))))"

definition append_event ::
  "'b codec \<Rightarrow> db_env \<Rightarrow> 'b sqlite_journal \<Rightarrow> engine_event sequenced_event \<Rightarrow>
   'b sqlite_journal \<times> (engine_error + unit)"
where
  "append_event C F j event = persist_commit C F j [event] None"

definition append_batch ::
  "'b codec \<Rightarrow> db_env \<Rightarrow> 'b sqlite_journal \<Rightarrow> journal_events \<Rightarrow> 'b sqlite_journal \<times> (engine_error + unit)"
where
  "append_batch C F j events = persist_commit C F j events None"

definition save_snapshot ::
  "'b codec \<Rightarrow> db_env \<Rightarrow> 'b sqlite_journal \<Rightarrow> sequence_id \<Rightarrow> engine_state_snapshot \<Rightarrow>
   'b sqlite_journal \<times> (engine_error + unit)"
where
  "save_snapshot C F j sequence_id snapshot = persist_commit C F j [] (Some snapshot)"

subsection \<open>Reading\<close>

text \<open>\<open>SELECT ... FROM events WHERE ... ORDER BY sequence_id ASC, event_index ASC\<close>.\<close>

definition select_events :: "('b event_row \<Rightarrow> bool) \<Rightarrow> 'b event_row list \<Rightarrow> 'b event_row list" where
  "select_events P rows = sort_key row_key (filter P rows)"

definition decode_event_row :: "'b codec \<Rightarrow> 'b event_row \<Rightarrow> engine_error + engine_event sequenced_event" where
  "decode_event_row C r =
     (case ensure_supported_schema_version ''event'' (er_schema_version r) (er_sequence_id r) of
        Inl e \<Rightarrow> Inl e
      | Inr _ \<Rightarrow> decode_event C (er_payload r))"

definition replay ::
  "string \<Rightarrow> 'b codec \<Rightarrow> db_faults \<Rightarrow> ('b event_row \<Rightarrow> bool) \<Rightarrow> 'b tables \<Rightarrow> engine_error + journal_events"
where
  "replay what C f P db = (case f StPrepare of
       Some e \<Rightarrow> jerr ([PStr ''prepare '', PStr what, PStr '': ''] @ e)
     | None \<Rightarrow> (case f StQuery of
         Some e \<Rightarrow> jerr ([PStr ''query '', PStr what, PStr '': ''] @ e)
       | None \<Rightarrow> collect_results (map (\<lambda>(i, r). case f (StRow i) of
             Some e \<Rightarrow> jerr (PStr ''row error: '' # e)
           | None \<Rightarrow> decode_event_row C r) (enumerate 0 (select_events P (tb_events db))))))"

definition replay_from ::
  "'b codec \<Rightarrow> db_env \<Rightarrow> 'b sqlite_journal \<Rightarrow> sequence_id \<Rightarrow> engine_error + journal_events"
where
  "replay_from C F j from =
     (let from_id = seq_as_i64 from; f = de_read F (sj_ops j)
      in blocking f (replay ''replay_from'' C f (\<lambda>r. from_id \<le> er_sequence_id r) (sj_tables j)))"

definition replay_range ::
  "'b codec \<Rightarrow> db_env \<Rightarrow> 'b sqlite_journal \<Rightarrow> sequence_id \<Rightarrow> sequence_id \<Rightarrow> engine_error + journal_events"
where
  "replay_range C F j from to =
     (let from_id = seq_as_i64 from; to_id = seq_as_i64 to; f = de_read F (sj_ops j)
      in blocking f (replay ''replay_range'' C f
           (\<lambda>r. from_id \<le> er_sequence_id r \<and> er_sequence_id r \<le> to_id) (sj_tables j)))"

text \<open>\<open>ORDER BY sequence_id DESC LIMIT 1\<close> on the primary key.\<close>

definition load_latest_snapshot ::
  "'b codec \<Rightarrow> db_env \<Rightarrow> 'b sqlite_journal \<Rightarrow> engine_error + (sequence_id \<times> engine_state_snapshot) option"
where
  "load_latest_snapshot C F j =
     (let f = de_read F (sj_ops j) in blocking f (case f StQuery of
          Some e \<Rightarrow> jerr (PStr ''load_latest_snapshot query: '' # e)
        | None \<Rightarrow> (case max_by ss_sequence_id (tb_snapshots (sj_tables j)) of
            None \<Rightarrow> Inr None
          | Some r \<Rightarrow>
              (case ensure_supported_schema_version ''snapshot'' (ss_schema_version r) (ss_sequence_id r) of
                 Inl e \<Rightarrow> Inl e
               | Inr _ \<Rightarrow> (case decode_snapshot C (ss_payload r) of
                   Inl e \<Rightarrow> Inl e
                 | Inr snapshot \<Rightarrow> Inr (Some (word_of_int (ss_sequence_id r), snapshot)))))))"

definition latest_sequence_id :: "db_env \<Rightarrow> 'b sqlite_journal \<Rightarrow> engine_error + sequence_id" where
  "latest_sequence_id F j =
     (let f = de_read F (sj_ops j); rows = tb_events (sj_tables j) in blocking f (case f StQuery of
          Some e \<Rightarrow> jerr (PStr ''latest_sequence_id query: '' # e)
        | None \<Rightarrow> Inr (if rows = [] then seq_zero else word_of_int (Max (er_sequence_id ` set rows)))))"

definition sqlite_event_journal :: "'b codec \<Rightarrow> db_env \<Rightarrow> 'b sqlite_journal event_journal" where
  "sqlite_event_journal C F = \<lparr>
     ej_append = append_event C F,
     ej_append_batch = append_batch C F,
     ej_persist_commit = persist_commit C F,
     ej_replay_from = replay_from C F,
     ej_replay_range = replay_range C F,
     ej_save_snapshot = save_snapshot C F,
     ej_load_latest_snapshot = load_latest_snapshot C F,
     ej_latest_sequence_id = latest_sequence_id F\<rparr>"

subsection \<open>Opening a file\<close>

text \<open>
  A database file, with the columns of its tables; \<open>events_v2\<close> is the table of a migration in
  progress. A row of a table without one of the columns \<open>event_index\<close> and \<open>schema_version\<close> has no
  meaning in that component. Every statement outside a transaction takes effect at once.
\<close>

record 'b db_file =
  df_events :: "(string list \<times> 'b event_row list) option"
  df_events_v2 :: "'b event_row list option"
  df_snapshots :: "(string list \<times> 'b snapshot_row list) option"

definition event_columns :: "string list" where
  "event_columns = [''sequence_id'', ''event_index'', ''timestamp'', ''event_kind'', ''schema_version'', ''payload'']"

definition snapshot_columns :: "string list" where
  "snapshot_columns = [''sequence_id'', ''timestamp'', ''schema_version'', ''state'']"

definition statement ::
  "db_faults \<Rightarrow> db_stage \<Rightarrow> msg \<Rightarrow> ('b db_file \<Rightarrow> 'b db_file) \<Rightarrow> 'b db_file \<Rightarrow>
   'b db_file \<times> (engine_error + unit)"
where
  "statement f st what upd d = (case f st of
       Some e \<Rightarrow> (d, jerr (what @ e))
     | None \<Rightarrow> (upd d, Inr ()))"

definition and_then ::
  "'d \<times> (engine_error + 'a) \<Rightarrow> ('a \<Rightarrow> 'd \<Rightarrow> 'd \<times> (engine_error + 'c)) \<Rightarrow> 'd \<times> (engine_error + 'c)"
where
  "and_then r k = (case snd r of Inl e \<Rightarrow> (fst r, Inl e) | Inr x \<Rightarrow> k x (fst r))"

text \<open>\<open>CREATE TABLE IF NOT EXISTS\<close>.\<close>

definition create_tables :: "db_faults \<Rightarrow> 'b db_file \<Rightarrow> 'b db_file \<times> (engine_error + unit)" where
  "create_tables f d =
     and_then (statement f StCreateEvents (lit ''failed to create events table: '')
       (\<lambda>d. if df_events d = None then d\<lparr>df_events := Some (event_columns, [])\<rparr> else d) d) (\<lambda>_.
     statement f StCreateSnapshots (lit ''failed to create snapshots table: '')
       (\<lambda>d. if df_snapshots d = None then d\<lparr>df_snapshots := Some (snapshot_columns, [])\<rparr> else d))"

text \<open>\<open>PRAGMA table_info\<close>, which has no rows for a table that does not exist.\<close>

definition load_table_columns :: "db_faults \<Rightarrow> string \<Rightarrow> string list \<Rightarrow> engine_error + string list" where
  "load_table_columns f table cols = (case f (StInfoPrepare table) of
       Some e \<Rightarrow> jerr ([PStr ''prepare table_info for '', PStr table, PStr '': ''] @ e)
     | None \<Rightarrow> (case f (StInfoQuery table) of
         Some e \<Rightarrow> jerr ([PStr ''query table_info for '', PStr table, PStr '': ''] @ e)
       | None \<Rightarrow> (case f (StInfoRow table) of
           Some e \<Rightarrow> jerr ([PStr ''row error in table_info for '', PStr table, PStr '': ''] @ e)
         | None \<Rightarrow> Inr cols)))"

definition table_columns :: "(string list \<times> 'r list) option \<Rightarrow> string list" where
  "table_columns t = (case t of None \<Rightarrow> [] | Some (cols, _) \<Rightarrow> cols)"

definition table_rows :: "(string list \<times> 'r list) option \<Rightarrow> 'r list" where
  "table_rows t = (case t of None \<Rightarrow> [] | Some (_, rows) \<Rightarrow> rows)"

text \<open>
  The migration of the events table. \<open>INSERT INTO events_v2 SELECT ...\<close> fails as a whole on a
  duplicate primary key; \<open>DROP\<close> and \<open>RENAME\<close> are two statements.
\<close>

definition migrated_rows :: "bool \<Rightarrow> 'b event_row list \<Rightarrow> 'b event_row list" where
  "migrated_rows has_schema_version rows =
     map (\<lambda>r. r\<lparr>er_event_index := 0,
              er_schema_version := (if has_schema_version then er_schema_version r else 1)\<rparr>)
       (sort_key er_sequence_id rows)"

definition copy_events :: "db_faults \<Rightarrow> bool \<Rightarrow> 'b db_file \<Rightarrow> 'b db_file \<times> (engine_error + unit)" where
  "copy_events f has_schema_version d =
     (let rows = migrated_rows has_schema_version (table_rows (df_events d)) in
      if distinct (map row_key rows)
      then statement f StCopy (lit ''copy legacy events rows: '')
             (\<lambda>d. d\<lparr>df_events_v2 := Some rows\<rparr>) d
      else (d, jerr [PStr ''copy legacy events rows: '', PStr ''UNIQUE constraint failed'']))"

definition ensure_events_schema :: "db_faults \<Rightarrow> 'b db_file \<Rightarrow> 'b db_file \<times> (engine_error + unit)" where
  "ensure_events_schema f d =
     and_then (d, load_table_columns f ''events'' (table_columns (df_events d))) (\<lambda>columns d.
       let has_event_index = ''event_index'' \<in> set columns;
           has_schema_version = ''schema_version'' \<in> set columns in
       if has_event_index \<and> has_schema_version then (d, Inr ())
       else if df_events_v2 d \<noteq> None
       then (d, jerr [PStr ''create events_v2 table: '', PStr ''table events_v2 already exists''])
       else
         and_then (statement f StCreateV2 (lit ''create events_v2 table: '')
           (\<lambda>d. d\<lparr>df_events_v2 := Some []\<rparr>) d) (\<lambda>_ d.
         and_then (copy_events f has_schema_version d) (\<lambda>_ d.
         and_then (statement f StDrop (lit ''replace events table: '')
           (\<lambda>d. d\<lparr>df_events := None\<rparr>) d) (\<lambda>_.
         statement f StRename (lit ''replace events table: '')
           (\<lambda>d. d\<lparr>df_events := map_option (Pair event_columns) (df_events_v2 d),
                   df_events_v2 := None\<rparr>)))))"

definition ensure_schema_version_column ::
  "db_faults \<Rightarrow> 'b db_file \<Rightarrow> 'b db_file \<times> (engine_error + unit)"
where
  "ensure_schema_version_column f d =
     and_then (d, load_table_columns f ''snapshots'' (table_columns (df_snapshots d))) (\<lambda>columns d.
       if ''schema_version'' \<in> set columns then (d, Inr ())
       else statement f (StAlter ''snapshots'')
              [PStr ''add schema_version to '', PStr ''snapshots'', PStr '': '']
              (\<lambda>d. d\<lparr>df_snapshots := Some (columns @ [''schema_version''],
                 map (\<lambda>r. r\<lparr>ss_schema_version := PERSISTED_SCHEMA_VERSION\<rparr>)
                   (table_rows (df_snapshots d)))\<rparr>) d)"

definition journal_of :: "'b db_file \<Rightarrow> 'b sqlite_journal" where
  "journal_of d = \<lparr>sj_tables = \<lparr>tb_events = table_rows (df_events d),
                                 tb_snapshots = table_rows (df_snapshots d)\<rparr>, sj_ops = 0\<rparr>"

definition open_journal ::
  "db_faults \<Rightarrow> string \<Rightarrow> 'b db_file \<Rightarrow> 'b db_file \<times> (engine_error + 'b sqlite_journal)"
where
  "open_journal f path d =
     and_then (statement f StOpen [PStr ''failed to open SQLite journal at '', PStr path, PStr '': ''] id d) (\<lambda>_ d.
     and_then (statement f StPragma (lit ''failed to set WAL mode: '') id d) (\<lambda>_ d.
     and_then (create_tables f d) (\<lambda>_ d.
     and_then (ensure_events_schema f d) (\<lambda>_ d.
     and_then (ensure_schema_version_column f d) (\<lambda>_ d.
     (d, Inr (journal_of d)))))))"

subsection \<open>Specification\<close>

text \<open>The file of a journal in use.\<close>

definition file_of :: "'b sqlite_journal \<Rightarrow> 'b db_file" where
  "file_of j = \<lparr>df_events = Some (event_columns, tb_events (sj_tables j)), df_events_v2 = None,
     df_snapshots = Some (snapshot_columns, tb_snapshots (sj_tables j))\<rparr>"

text \<open>
  The rows of the events table are those of a list of events, in order of their keys, and the
  snapshots table holds at most one snapshot: the tables represent an in-memory journal.
\<close>

definition row_of :: "'b codec \<Rightarrow> 'b event_row \<Rightarrow> engine_event sequenced_event \<Rightarrow> bool" where
  "row_of C r ev \<longleftrightarrow> er_schema_version r = PERSISTED_SCHEMA_VERSION \<and>
     cd_decode_event C (er_payload r) = Inr ev \<and>
     er_sequence_id r = uint (se_sequence_id ev) \<and> uint (se_sequence_id ev) < 2 ^ 63"

definition represents :: "'b codec \<Rightarrow> 'b tables \<Rightarrow> recording_journal \<Rightarrow> bool" where
  "represents C db rj \<longleftrightarrow>
     list_all2 (row_of C) (tb_events db) (jr_events rj) \<and>
     sorted_wrt (<) (map row_key (tb_events db)) \<and>
     (case jr_snapshot rj of
        None \<Rightarrow> tb_snapshots db = []
      | Some (i, sn) \<Rightarrow> uint i < 2 ^ 63 \<and> sn_sequence_id sn = i \<and>
          (\<exists>r. tb_snapshots db = [r] \<and> ss_schema_version r = PERSISTED_SCHEMA_VERSION \<and>
             cd_decode_snapshot C (ss_payload r) = Inr sn \<and> ss_sequence_id r = uint i))"

definition reads_succeed :: "db_env \<Rightarrow> bool" where
  "reads_succeed F \<longleftrightarrow> (\<forall>n st. de_read F n st = None)"

text \<open>What is decoded is what was encoded.\<close>

definition codec_ok :: "'b codec \<Rightarrow> bool" where
  "codec_ok C \<longleftrightarrow>
     (\<forall>ev b. cd_encode_event C ev = Inr b \<longrightarrow> cd_decode_event C b = Inr ev) \<and>
     (\<forall>sn b. cd_encode_snapshot C sn = Inr b \<longrightarrow> cd_decode_snapshot C b = Inr sn)"

text \<open>A codec that keeps the values, and a database on which every third write fails to commit.\<close>

datatype sample_payload = EventPayload "engine_event sequenced_event" | SnapshotPayload engine_state_snapshot

definition sample_codec :: "sample_payload codec" where
  "sample_codec = \<lparr>
     cd_encode_event = (\<lambda>ev. Inr (EventPayload ev)),
     cd_decode_event = (\<lambda>p. case p of EventPayload ev \<Rightarrow> Inr ev | SnapshotPayload _ \<Rightarrow> Inl []),
     cd_encode_snapshot = (\<lambda>sn. Inr (SnapshotPayload sn)),
     cd_decode_snapshot = (\<lambda>p. case p of SnapshotPayload sn \<Rightarrow> Inr sn | EventPayload _ \<Rightarrow> Inl []),
     cd_rfc3339 = (\<lambda>_. [])\<rparr>"

definition sample_env :: db_env where
  "sample_env = \<lparr>
     de_write = (\<lambda>n st. if st = StCommit \<and> n mod 3 = 2 then Some (lit ''disk I/O error'') else None),
     de_read = (\<lambda>_ _. None)\<rparr>"

text \<open>The sequencer of the examples on a SQLite journal that holds its initial snapshot.\<close>

definition sqlite_example :: "(test_core, sample_payload sqlite_journal) sequencer" where
  "sqlite_example = \<lparr>
     sq_core = sq_core example_sequencer,
     sq_journal = \<lparr>sj_tables = \<lparr>tb_events = [], tb_snapshots =
         [\<lparr>ss_sequence_id = 0, ss_timestamp = [], ss_schema_version = PERSISTED_SCHEMA_VERSION,
           ss_payload = SnapshotPayload (sq_snapshot_cache example_sequencer)\<rparr>]\<rparr>, sj_ops = 0\<rparr>,
     sq_sequence_gen = 1, sq_snapshot_cache = sq_snapshot_cache example_sequencer,
     sq_high_priority = [], sq_commands = [], sq_generators = Map.empty, sq_restart_epoch = 0,
     sq_venue_submit = None\<rparr>"

text \<open>A file written before the columns \<open>event_index\<close> and \<open>schema_version\<close> were introduced.\<close>

definition legacy_event :: "engine_event sequenced_event" where
  "legacy_event = \<lparr>se_sequence_id = 7, se_timestamp = 5, se_event = EvAgentResumed (AgentId ''a'')\<rparr>"

definition legacy_file :: "sample_payload db_file" where
  "legacy_file = \<lparr>
     df_events = Some ([''sequence_id'', ''timestamp'', ''event_kind'', ''payload''],
       [\<lparr>er_sequence_id = 7, er_event_index = 0, er_timestamp = [], er_event_kind = ''AgentResumed'',
         er_schema_version = 0, er_payload = EventPayload legacy_event\<rparr>]),
     df_events_v2 = None,
     df_snapshots = Some ([''sequence_id'', ''timestamp'', ''state''], [])\<rparr>"

subsection \<open>Lists of results and rows\<close>

lemma collect_results_map_Inr [simp]: "collect_results (map Inr xs) = Inr xs"
  by (induction xs) auto

lemma collect_results_Inr: "collect_results rs = Inr xs \<longleftrightarrow> rs = map Inr xs"
proof
  show "collect_results rs = Inr xs \<Longrightarrow> rs = map Inr xs"
    by (induction rs arbitrary: xs rule: collect_results.induct) (auto split: sum.splits)
qed simp

lemma seq_as_i64_small: "uint q < 2 ^ 63 \<Longrightarrow> seq_as_i64 q = uint q"
  using signed_take_bit_int_eq_self [of 63 "uint q"] uint_nonnegative [of q]
  by (simp add: seq_as_i64_def sint_uint)

lemma list_all2_filter:
  assumes "list_all2 R xs ys" and "\<And>x y. R x y \<Longrightarrow> P x = Q y"
  shows "list_all2 R (filter P xs) (filter Q ys)"
  using assms(1) by (induction rule: list_all2_induct) (auto simp: assms(2))

lemma list_all2_map_Inr:
  "list_all2 R xs ys \<Longrightarrow> (\<And>x y. R x y \<Longrightarrow> g x = Inr y) \<Longrightarrow> map g xs = map Inr ys"
  by (induction rule: list_all2_induct) auto

lemma map_enumerate_snd: "map (\<lambda>(i, r). g r) (enumerate n xs) = map g xs"
  by (induction xs arbitrary: n) auto

lemma encode_event_row_Inr:
  assumes "encode_event_row C n ev = Inr r" and "codec_ok C" and "uint (se_sequence_id ev) < 2 ^ 63"
  shows "row_of C r ev \<and> row_key r = (uint (se_sequence_id ev), int n)"
  using assms
  by (auto simp: encode_event_row_def encode_event_def row_of_def row_key_def codec_ok_def
      seq_as_i64_small split: if_splits sum.splits)

lemma encode_rows:
  assumes "collect_results (map (\<lambda>(i, ev). encode_event_row C i ev) (enumerate n evs)) = Inr rows"
    and "codec_ok C" and "\<forall>e \<in> set evs. se_sequence_id e = g" and "uint g < 2 ^ 63"
  shows "list_all2 (row_of C) rows evs \<and>
    map row_key rows = map (\<lambda>i. (uint g, int i)) [n..<n + length evs]"
  using assms(1,3)
proof (induction evs arbitrary: n rows)
  case (Cons ev evs)
  then obtain r rs where r: "rows = r # rs" "encode_event_row C n ev = Inr r"
      "collect_results (map (\<lambda>(i, ev). encode_event_row C i ev) (enumerate (Suc n) evs)) = Inr rs"
    by (cases rows) (auto simp: collect_results_Inr)
  have g: "se_sequence_id ev = g" using Cons.prems(2) by simp
  have "[n..<n + length (ev # evs)] = n # [Suc n..<Suc n + length evs]"
    by (subst upt_conv_Cons) simp_all
  with Cons.IH [OF r(3)] Cons.prems(2) encode_event_row_Inr [OF r(2) assms(2)] g assms(4) r(1)
  show ?case by simp
qed (simp add: collect_results_Inr)

lemma insert_events_Inr:
  "insert_events f n rs tx = Inr tx' \<Longrightarrow> tx' = tx\<lparr>tb_events := fold insert_or_ignore rs (tb_events tx)\<rparr>"
  by (induction rs arbitrary: n tx) (fastforce split: option.splits)+

lemma fold_insert_fresh:
  "distinct (map row_key (old @ rows)) \<Longrightarrow> fold insert_or_ignore rows old = old @ rows"
proof (induction rows arbitrary: old)
  case (Cons r rows)
  then have "row_key r \<notin> row_key ` set old" by auto
  then have "insert_or_ignore r old = old @ [r]" by (simp add: insert_or_ignore_def)
  moreover have "distinct (map row_key ((old @ [r]) @ rows))" using Cons.prems by simp
  ultimately show ?case using Cons.IH [of "old @ [r]"] by simp
qed simp

lemma fold_insert_known:
  "row_key ` set rows \<subseteq> row_key ` set old \<Longrightarrow> fold insert_or_ignore rows old = old"
  by (induction rows arbitrary: old) (auto simp: insert_or_ignore_def)

lemma fold_insert_keys:
  "row_key ` set rows \<subseteq> row_key ` set (fold insert_or_ignore rows old)"
proof (induction rows arbitrary: old)
  case (Cons r rows)
  have keep: "row_key ` set old \<subseteq> row_key ` set (fold insert_or_ignore rows old)" for old :: "'a event_row list"
    by (induction rows arbitrary: old) (fastforce simp: insert_or_ignore_def)+
  have "row_key r \<in> row_key ` set (insert_or_ignore r old)"
    by (auto simp: insert_or_ignore_def)
  with keep [of "insert_or_ignore r old"] Cons.IH [of "insert_or_ignore r old"] show ?case by auto
qed simp

subsection \<open>Commits\<close>

text \<open>A failed commit leaves both tables as they were.\<close>

lemma persist_rows_error: "persist_rows f db events snapshot = (db', Inl e) \<Longrightarrow> db' = db"
  by (auto simp: persist_rows_def split: if_splits option.splits sum.splits)

lemma persist_commit_error:
  "persist_commit C F j events snapshot = (j', Inl e) \<Longrightarrow> sj_tables j' = sj_tables j"
  by (auto simp: persist_commit_def Let_def split: sum.splits prod.splits dest: persist_rows_error)

lemma persist_rows_Inr:
  assumes "persist_rows f db events snapshot = (db', Inr ())"
  shows "db' = \<lparr>tb_events = fold insert_or_ignore events (tb_events db),
    tb_snapshots = (case snapshot of None \<Rightarrow> tb_snapshots db
      | Some r \<Rightarrow> delete_older (ss_sequence_id r) (insert_or_replace r (tb_snapshots db)))\<rparr>"
  using assms
  by (auto simp: persist_rows_def store_snapshot_def dest!: insert_events_Inr
      split: if_splits option.splits sum.splits)

lemma persist_commit_Inr:
  assumes "persist_commit C F j events snapshot = (j', Inr ())"
  obtains rows srow where
    "collect_results (map (\<lambda>(i, ev). encode_event_row C i ev) (enumerate 0 events)) = Inr rows"
    "(case snapshot of None \<Rightarrow> srow = None
      | Some sn \<Rightarrow> \<exists>r. encode_snapshot_row C sn = Inr r \<and> srow = Some r)"
    "tb_events (sj_tables j') = fold insert_or_ignore rows (tb_events (sj_tables j))"
    "tb_snapshots (sj_tables j') = (case srow of None \<Rightarrow> tb_snapshots (sj_tables j)
      | Some r \<Rightarrow> delete_older (ss_sequence_id r) (insert_or_replace r (tb_snapshots (sj_tables j))))"
proof -
  let ?rows = "collect_results (map (\<lambda>(i, ev). encode_event_row C i ev) (enumerate 0 events))"
  let ?snap = "case snapshot of None \<Rightarrow> Inr None | Some sn \<Rightarrow> map_sum id Some (encode_snapshot_row C sn)"
  from assms obtain rows srow where h: "?rows = Inr rows" "?snap = Inr srow"
      "persist_rows (de_write F (sj_ops j)) (sj_tables j) rows srow = (sj_tables j', Inr ())"
    by (auto simp: persist_commit_def Let_def split: sum.splits prod.splits)
  from h(2) have "case snapshot of None \<Rightarrow> srow = None
      | Some sn \<Rightarrow> \<exists>r. encode_snapshot_row C sn = Inr r \<and> srow = Some r"
    by (cases snapshot; cases "encode_snapshot_row C (the snapshot)") auto
  with h(1) persist_rows_Inr [OF h(3)] show ?thesis by (intro that) simp_all
qed

lemma represents_rows:
  assumes "represents C db rj" and "r \<in> set (tb_events db)"
  shows "\<exists>e \<in> set (jr_events rj). er_sequence_id r = uint (se_sequence_id e)"
proof -
  obtain i where i: "i < length (tb_events db)" "r = tb_events db ! i"
    using assms(2) by (auto simp: in_set_conv_nth)
  with assms(1) have "row_of C r (jr_events rj ! i)" "i < length (jr_events rj)"
    by (simp_all add: represents_def list_all2_conv_all_nth)
  then show ?thesis by (auto simp: row_of_def)
qed

lemma represents_events_commit:
  assumes "represents C db rj" and "list_all2 (row_of C) rows evs"
    and "map row_key rows = map (\<lambda>i. (uint g, int i)) [0..<length evs]"
    and "\<forall>e \<in> set (jr_events rj). se_sequence_id e < g"
  shows "fold insert_or_ignore rows (tb_events db) = tb_events db @ rows \<and>
    sorted_wrt (<) (map row_key (tb_events db @ rows))"
proof -
  have new: "sorted_wrt (<) (map row_key rows)"
    unfolding assms(3) by (simp add: sorted_wrt_map sorted_wrt_upt less_prod_def)
  have old: "sorted_wrt (<) (map row_key (tb_events db))"
    using assms(1) by (simp add: represents_def)
  have "row_key a < row_key b" if "a \<in> set (tb_events db)" "b \<in> set rows" for a b
  proof -
    note ab = that
    obtain e where e: "e \<in> set (jr_events rj)" "er_sequence_id a = uint (se_sequence_id e)"
      using represents_rows [OF assms(1) ab(1)] by blast
    have "row_key b \<in> set (map row_key rows)" using ab(2) by simp
    then have "fst (row_key b) = uint g" unfolding assms(3) by auto
    with e assms(4) show ?thesis by (auto simp: row_key_def less_prod_def word_less_def)
  qed
  with new old have s: "sorted_wrt (<) (map row_key (tb_events db @ rows))"
    by (auto simp: sorted_wrt_append)
  then have "distinct (map row_key (tb_events db @ rows))"
    by (simp add: strict_sorted_iff)
  with s fold_insert_fresh show ?thesis by blast
qed

lemma represents_snapshot_commit:
  assumes "represents C db rj" and "encode_snapshot_row C sn = Inr r" and "codec_ok C"
    and "uint (sn_sequence_id sn) < 2 ^ 63"
    and "\<forall>i old. jr_snapshot rj = Some (i, old) \<longrightarrow> i < sn_sequence_id sn"
  shows "delete_older (ss_sequence_id r) (insert_or_replace r (tb_snapshots db)) = [r] \<and>
    ss_schema_version r = PERSISTED_SCHEMA_VERSION \<and> cd_decode_snapshot C (ss_payload r) = Inr sn \<and>
    ss_sequence_id r = uint (sn_sequence_id sn)"
proof -
  have r: "ss_sequence_id r = uint (sn_sequence_id sn)" "ss_schema_version r = PERSISTED_SCHEMA_VERSION"
      "cd_decode_snapshot C (ss_payload r) = Inr sn"
    using assms(2-4) by (auto simp: encode_snapshot_row_def encode_snapshot_def codec_ok_def
        seq_as_i64_small split: sum.splits)
  have "\<forall>r' \<in> set (tb_snapshots db). ss_sequence_id r' < ss_sequence_id r"
    using assms(1,5) r(1) by (auto simp: represents_def word_less_def split: option.splits)
  then show ?thesis using r by (auto simp: delete_older_def insert_or_replace_def filter_empty_conv)
qed

lemma represents_commit:
  assumes "represents C (sj_tables j) rj" and "codec_ok C"
    and "\<forall>e \<in> set evs. se_sequence_id e = sn_sequence_id sn" and "uint (sn_sequence_id sn) < 2 ^ 63"
    and "\<forall>e \<in> set (jr_events rj). se_sequence_id e < sn_sequence_id sn"
    and "\<forall>i old. jr_snapshot rj = Some (i, old) \<longrightarrow> i < sn_sequence_id sn"
    and "persist_commit C F j evs (Some sn) = (j', Inr ())"
  shows "represents C (sj_tables j') \<lparr>jr_events = jr_events rj @ evs, jr_snapshot = Some (sn_sequence_id sn, sn)\<rparr>"
proof -
  obtain rows srow where h:
      "collect_results (map (\<lambda>(i, ev). encode_event_row C i ev) (enumerate 0 evs)) = Inr rows"
      "\<exists>r. encode_snapshot_row C sn = Inr r \<and> srow = Some r"
      "tb_events (sj_tables j') = fold insert_or_ignore rows (tb_events (sj_tables j))"
      "tb_snapshots (sj_tables j') = (case srow of None \<Rightarrow> tb_snapshots (sj_tables j)
        | Some r \<Rightarrow> delete_older (ss_sequence_id r) (insert_or_replace r (tb_snapshots (sj_tables j))))"
    by (rule persist_commit_Inr [OF assms(7)]) simp
  then obtain r where r: "encode_snapshot_row C sn = Inr r" "srow = Some r" by blast
  note e = encode_rows [OF h(1) assms(2,3,4)]
  note k = represents_events_commit [OF assms(1) conjunct1 [OF e] _ assms(5)]
  note s = represents_snapshot_commit [OF assms(1) r(1) assms(2,4,6)]
  have "tb_events (sj_tables j') = tb_events (sj_tables j) @ rows"
      "sorted_wrt (<) (map row_key (tb_events (sj_tables j')))"
    using e k h(3) by simp_all
  moreover have "list_all2 (row_of C) (tb_events (sj_tables j) @ rows) (jr_events rj @ evs)"
    using e assms(1) by (auto simp: represents_def intro: list_all2_appendI)
  moreover have "tb_snapshots (sj_tables j') = [r]"
    unfolding h(4) r(2) option.case using s by (rule conjunct1)
  ultimately show ?thesis using s assms(4) by (simp add: represents_def)
qed

subsection \<open>Reads\<close>

lemma represents_replay:
  assumes "represents C db rj" and "\<And>st. f st = None"
    and "\<And>r e. row_of C r e \<Longrightarrow> P r = Q e"
  shows "replay what C f P db = Inr (filter Q (jr_events rj))"
proof -
  have "sorted_wrt (<) (map row_key (filter P (tb_events db)))"
    using assms(1) by (auto simp: represents_def sorted_wrt_map intro: sorted_wrt_filter)
  then have sel: "select_events P (tb_events db) = filter P (tb_events db)"
    unfolding select_events_def by (intro sort_key_id_if_sorted) (simp add: strict_sorted_iff)
  have "list_all2 (row_of C) (filter P (tb_events db)) (filter Q (jr_events rj))"
    using assms(1,3) by (intro list_all2_filter) (auto simp: represents_def)
  then have "map (decode_event_row C) (filter P (tb_events db)) = map Inr (filter Q (jr_events rj))"
    by (rule list_all2_map_Inr)
      (simp add: row_of_def decode_event_row_def ensure_supported_schema_version_def decode_event_def)
  then show ?thesis by (simp add: replay_def assms(2) sel map_enumerate_snd)
qed

lemma blocking_None [simp]: "f StJoin = None \<Longrightarrow> f StLock = None \<Longrightarrow> blocking f r = r"
  by (simp add: blocking_def)

lemma reads_succeedD [simp]: "reads_succeed F \<Longrightarrow> de_read F n st = None"
  by (simp add: reads_succeed_def)

lemma represents_replay_from:
  assumes "represents C (sj_tables j) rj" and "reads_succeed F" and "uint from < 2 ^ 63"
  shows "replay_from C F j from = ej_replay_from recording_event_journal rj from"
  using represents_replay [OF assms(1), where f = "de_read F (sj_ops j)"
      and P = "\<lambda>r. seq_as_i64 from \<le> er_sequence_id r" and Q = "\<lambda>e. from \<le> se_sequence_id e"] assms(2,3)
  by (simp add: replay_from_def Let_def recording_event_journal_def row_of_def seq_as_i64_small
      word_le_def)

lemma represents_replay_range:
  assumes "represents C (sj_tables j) rj" and "reads_succeed F"
    and "uint from < 2 ^ 63" and "uint to < 2 ^ 63"
  shows "replay_range C F j from to = ej_replay_range recording_event_journal rj from to"
  using represents_replay [OF assms(1), where f = "de_read F (sj_ops j)"
      and P = "\<lambda>r. seq_as_i64 from \<le> er_sequence_id r \<and> er_sequence_id r \<le> seq_as_i64 to"
      and Q = "\<lambda>e. from \<le> se_sequence_id e \<and> se_sequence_id e \<le> to"] assms(2,3,4)
  by (simp add: replay_range_def Let_def recording_event_journal_def row_of_def seq_as_i64_small
      word_le_def)

lemma represents_load:
  assumes "represents C (sj_tables j) rj" and "reads_succeed F"
  shows "load_latest_snapshot C F j = ej_load_latest_snapshot recording_event_journal rj"
  using assms
  by (auto simp: load_latest_snapshot_def Let_def recording_event_journal_def represents_def
      ensure_supported_schema_version_def decode_snapshot_def split: option.splits)

lemma row_ids: "list_all2 (row_of C) rows evs \<Longrightarrow>
    map er_sequence_id rows = map (uint \<circ> se_sequence_id) evs"
  by (induction rule: list_all2_induct) (auto simp: row_of_def)

lemma represents_sorted:
  assumes "represents C db rj"
  shows "sorted (map (uint \<circ> se_sequence_id) (jr_events rj)) \<and>
    map er_sequence_id (tb_events db) = map (uint \<circ> se_sequence_id) (jr_events rj)"
proof -
  have m: "map er_sequence_id (tb_events db) = map (uint \<circ> se_sequence_id) (jr_events rj)"
    using assms by (auto simp: represents_def intro: row_ids)
  have "sorted (map er_sequence_id (tb_events db))"
    using assms unfolding represents_def sorted_wrt_map
    by (elim conjE sorted_wrt_mono_rel [rotated]) (auto simp: row_key_def less_prod_def)
  with m show ?thesis by simp
qed

lemma sorted_le_last: "sorted xs \<Longrightarrow> x \<in> set xs \<Longrightarrow> x \<le> last (xs :: int list)"
  by (induction xs) auto

lemma Max_last: "sorted xs \<Longrightarrow> xs \<noteq> [] \<Longrightarrow> Max (set xs) = last (xs :: int list)"
  by (rule Max_eqI) (auto simp: sorted_le_last)

lemma represents_latest:
  assumes "represents C (sj_tables j) rj" and "reads_succeed F"
  shows "latest_sequence_id F j = ej_latest_sequence_id recording_event_journal rj"
proof -
  note s = represents_sorted [OF assms(1)]
  then have e: "tb_events (sj_tables j) = [] \<longleftrightarrow> jr_events rj = []"
    by (metis map_is_Nil_conv)
  have "word_of_int (Max (er_sequence_id ` set (tb_events (sj_tables j)))) = se_sequence_id (last (jr_events rj))"
    if "jr_events rj \<noteq> []"
  proof -
    have "Max (set (map er_sequence_id (tb_events (sj_tables j)))) = uint (se_sequence_id (last (jr_events rj)))"
      using s Max_last [of "map (uint \<circ> se_sequence_id) (jr_events rj)"] that
      by (simp add: last_map)
    then show ?thesis by simp
  qed
  with e assms(2) show ?thesis
    by (auto simp: latest_sequence_id_def Let_def recording_event_journal_def)
qed

lemmas represents_reads = represents_replay_from represents_replay_range represents_load represents_latest

text \<open>Below the latest event id is below every event.\<close>

lemma latest_bounds_events:
  assumes "represents C db rj" and "ej_latest_sequence_id recording_event_journal rj = Inr m" and "m < g"
  shows "\<forall>e \<in> set (jr_events rj). se_sequence_id e < g"
proof
  fix e assume e: "e \<in> set (jr_events rj)"
  then have "m = se_sequence_id (last (jr_events rj))"
    using assms(2) by (auto simp: recording_event_journal_def split: if_splits)
  moreover have "sorted (map (uint \<circ> se_sequence_id) (jr_events rj))"
    using represents_sorted [OF assms(1)] by simp
  then have "uint (se_sequence_id e) \<le> uint (se_sequence_id (last (jr_events rj)))"
    using e sorted_le_last [of "map (uint \<circ> se_sequence_id) (jr_events rj)" "uint (se_sequence_id e)"]
    by (cases "jr_events rj = []") (auto simp: last_map)
  ultimately show "se_sequence_id e < g" using assms(3) by (simp add: word_less_def)
qed

subsection \<open>The contract\<close>

lemma sqlite_ops [simp]:
  "ej_append (sqlite_event_journal C F) = append_event C F"
  "ej_persist_commit (sqlite_event_journal C F) = persist_commit C F"
  "ej_replay_from (sqlite_event_journal C F) = replay_from C F"
  "ej_replay_range (sqlite_event_journal C F) = replay_range C F"
  "ej_load_latest_snapshot (sqlite_event_journal C F) = load_latest_snapshot C F"
  "ej_latest_sequence_id (sqlite_event_journal C F) = latest_sequence_id F"
  by (simp_all add: sqlite_event_journal_def)

locale sqlite_store =
  fixes C :: "'b codec" and F :: db_env
  assumes codec: "codec_ok C" and reads: "reads_succeed F"
begin

lemmas to_recording = represents_reads [OF _ reads]

lemma commit_represents:
  assumes "represents C (sj_tables j) rj" and "persist_commit C F j evs (Some sn) = (j', Inr ())"
    and "\<forall>e \<in> set evs. se_sequence_id e = sn_sequence_id sn" and "uint (sn_sequence_id sn) < 2 ^ 63"
    and "latest_sequence_id F j = Inr m" and "m < sn_sequence_id sn"
    and "\<forall>i old. jr_snapshot rj = Some (i, old) \<longrightarrow> i < sn_sequence_id sn"
  shows "represents C (sj_tables j')
    \<lparr>jr_events = jr_events rj @ evs, jr_snapshot = Some (sn_sequence_id sn, sn)\<rparr>"
proof -
  have "ej_latest_sequence_id recording_event_journal rj = Inr m"
    using to_recording(4) [OF assms(1)] assms(5) by simp
  note b = latest_bounds_events [OF assms(1) this assms(6)]
  show ?thesis by (rule represents_commit [OF assms(1) codec assms(3,4) b assms(7,2)])
qed

end

sublocale sqlite_store \<subseteq> journal_contract "sqlite_event_journal C F"
  "\<lambda>j. \<exists>rj. represents C (sj_tables j) rj" "\<lambda>g. uint g < 2 ^ 63"
proof (unfold_locales, goal_cases)
  case (1 j evs sn j' m)
  then obtain rj where rj: "represents C (sj_tables j) rj" by blast
  note h = 1(2-7) [unfolded sqlite_ops]
  have "\<forall>i old. jr_snapshot rj = Some (i, old) \<longrightarrow> i < sn_sequence_id sn"
    using h(6) to_recording(3) [OF rj] by (simp add: recording_event_journal_def)
  note rj' = commit_represents [OF rj h(1-5) this]
  note reads' = to_recording [OF rj'] and reads = to_recording [OF rj]
  have "\<exists>n. latest_sequence_id F j' = Inr n \<and> n \<le> sn_sequence_id sn"
    using reads'(4) reads(4) h(2,4,5)
    by (auto simp: recording_event_journal_def last_append seq_zero_def split: if_splits)
  with rj' reads'(1,3) reads(1) show ?case
    by (auto simp: sqlite_event_journal_def recording_event_journal_def)
next
  case (2 j evs snap j' e)
  then obtain rj where rj: "represents C (sj_tables j) rj" by blast
  have "persist_commit C F j evs snap = (j', Inl e)" using 2 by (simp add: sqlite_event_journal_def)
  then have t: "sj_tables j' = sj_tables j" by (rule persist_commit_error)
  then show ?case using rj reads
    by (auto simp: sqlite_event_journal_def load_latest_snapshot_def latest_sequence_id_def
        replay_from_def replay_def Let_def fun_eq_iff)
qed

context sqlite_store
begin

lemma contract: "journal_contract (sqlite_event_journal C F)
    (\<lambda>j. \<exists>rj. represents C (sj_tables j) rj) (\<lambda>g. uint g < 2 ^ 63)"
  by (rule journal_contract_axioms)

end

lemma sample_codec_ok: "codec_ok sample_codec"
  by (simp add: codec_ok_def sample_codec_def)

lemma sample_env_reads: "reads_succeed sample_env"
  by (simp add: reads_succeed_def sample_env_def)

interpretation sample: sqlite_store sample_codec sample_env
  by unfold_locales (rule sample_codec_ok sample_env_reads)+

lemma persist_commit_succeeds:
  assumes "\<And>st. de_write F (sj_ops j) st = None"
    and "\<And>ev. ev \<in> set evs \<Longrightarrow> \<exists>b. cd_encode_event C ev = Inr b"
    and "\<exists>b. cd_encode_snapshot C sn = Inr b" and "int (length evs) \<le> 2 ^ 63"
  shows "snd (persist_commit C F j evs (Some sn)) = Inr ()"
proof -
  have "\<exists>rows. collect_results (map (\<lambda>(i, ev). encode_event_row C i ev) (enumerate n evs)) = Inr rows"
    if "int n + int (length evs) \<le> 2 ^ 63" "\<And>ev. ev \<in> set evs \<Longrightarrow> \<exists>b. cd_encode_event C ev = Inr b"
    for n evs
    using that
  proof (induction evs arbitrary: n)
    case (Cons ev evs)
    from Cons.prems(2) [of ev] obtain r where "encode_event_row C n ev = Inr r"
      using Cons.prems(1) by (auto simp: encode_event_row_def encode_event_def)
    moreover obtain rows where
      "collect_results (map (\<lambda>(i, ev). encode_event_row C i ev) (enumerate (Suc n) evs)) = Inr rows"
      using Cons.IH [of "Suc n"] Cons.prems by fastforce
    ultimately show ?case by simp
  qed simp
  from this [of 0 evs] assms(2,4) obtain rows where rows:
    "collect_results (map (\<lambda>(i, ev). encode_event_row C i ev) (enumerate 0 evs)) = Inr rows" by auto
  have ins: "\<exists>tx'. insert_events f n rs tx = Inr tx'" if "\<And>st. f st = None" for f n rs tx
    using that by (induction rs arbitrary: n tx) auto
  from assms(3) obtain r where "encode_snapshot_row C sn = Inr r"
    by (auto simp: encode_snapshot_row_def encode_snapshot_def)
  with rows ins [of "de_write F (sj_ops j)" 0 rows "sj_tables j"] assms(1) show ?thesis
    by (auto simp: persist_commit_def Let_def persist_rows_def store_snapshot_def)
qed

lemma uint_add_nat:
  fixes g :: u64
  assumes "uint g + int k < 2 ^ 64"
  shows "uint (g + of_nat k) = uint g + int k"
proof -
  have "int k < 2 ^ 64" using assms uint_nonnegative [of g] by linarith
  then have "k < 2 ^ 64" by simp
  then have "uint (of_nat k :: u64) = int k" by (simp add: unsigned_of_nat take_bit_nat_eq_self)
  with assms uint_nonnegative [of g] show ?thesis by (simp add: uint_word_ariths)
qed

subsection \<open>Opening\<close>

lemmas open_defs = open_journal_def and_then_def statement_def create_tables_def
  ensure_events_schema_def ensure_schema_version_column_def load_table_columns_def
  table_columns_def table_rows_def copy_events_def journal_of_def

lemma open_current: "open_journal (\<lambda>_. None) path (file_of j) = (file_of j, Inr (j\<lparr>sj_ops := 0\<rparr>))"
  by (simp add: open_defs file_of_def event_columns_def snapshot_columns_def)

lemma migrated_rows_distinct:
  assumes "distinct (map er_sequence_id rows)"
  shows "sorted_wrt (<) (map row_key (migrated_rows v rows)) \<and> distinct (map row_key (migrated_rows v rows))"
proof -
  have "distinct (map er_sequence_id (sort_key er_sequence_id rows))"
    using assms by (metis distinct_map distinct_sort set_sort)
  then have "sorted_wrt (<) (map er_sequence_id (sort_key er_sequence_id rows))"
    by (simp add: strict_sorted_iff)
  then have "sorted_wrt (<) (map row_key (migrated_rows v rows))"
    by (auto simp: migrated_rows_def sorted_wrt_map row_key_def less_prod_def
        elim: sorted_wrt_mono_rel [rotated])
  then show ?thesis by (simp add: strict_sorted_iff)
qed

text \<open>A migration, without faults and with one in its last two statements.\<close>

lemma ensure_events_schema_legacy:
  assumes "df_events d = Some (cols, rows)" and "df_events_v2 d = None"
    and "\<not> {''event_index'', ''schema_version''} \<subseteq> set cols"
    and "distinct (map er_sequence_id rows)" and "\<And>st. st \<notin> {StDrop, StRename} \<Longrightarrow> f st = None"
  shows "ensure_events_schema f d =
    (let new = migrated_rows (''schema_version'' \<in> set cols) rows in
     case f StDrop of
       Some e \<Rightarrow> (d\<lparr>df_events_v2 := Some new\<rparr>, jerr (PStr ''replace events table: '' # e))
     | None \<Rightarrow> (case f StRename of
         None \<Rightarrow> (d\<lparr>df_events := Some (event_columns, new)\<rparr>, Inr ())
       | Some e \<Rightarrow> (d\<lparr>df_events := None, df_events_v2 := Some new\<rparr>,
           jerr (PStr ''replace events table: '' # e))))"
  using assms migrated_rows_distinct [OF assms(4)]
  by (auto simp: open_defs Let_def split: option.split)

lemma and_then_fails:
  "(\<And>x. snd r = Inr x \<Longrightarrow> \<exists>e. snd (k x (fst r)) = Inl e) \<Longrightarrow> \<exists>e. snd (and_then r k) = Inl e"
  by (auto simp: and_then_def split: sum.splits)

lemma statement_id: "fst (statement f st what id d) = d"
  by (simp add: statement_def split: option.split)

lemma create_tables_keep:
  "df_events d \<noteq> None \<Longrightarrow> df_snapshots d \<noteq> None \<Longrightarrow> fst (create_tables f d) = d"
  by (auto simp: create_tables_def and_then_def statement_def split: option.split)

text \<open>A file with an unfinished migration cannot be opened.\<close>

lemma open_half_migrated:
  assumes "df_events d = Some (cols, rows)" and "df_events_v2 d = Some new"
    and "\<not> {''event_index'', ''schema_version''} \<subseteq> set cols" and "df_snapshots d \<noteq> None"
  shows "\<exists>err. snd (open_journal f path d) = Inl err"
proof -
  have "\<exists>err. snd (ensure_events_schema f d) = Inl err"
    using assms(1-3) unfolding ensure_events_schema_def
    by (intro and_then_fails) (auto simp: load_table_columns_def table_columns_def split: option.splits)
  moreover have "fst (create_tables f d) = d" using assms by (simp add: create_tables_keep)
  ultimately show ?thesis
    unfolding open_journal_def by (intro and_then_fails) (auto simp: statement_id)
qed

subsection \<open>Properties\<close>

text \<open>
  C9: The SQLite journal implements the in-memory journal. When its tables represent an in-memory
  journal and the sequencer commits a snapshot and events under a new id, a failed commit changes
  neither table, whatever statement failed, and a successful one represents the in-memory journal
  after the same commit; every read then answers as the in-memory journal does. A commit whose
  values can be encoded succeeds when the database reports no error.
\<close>

theorem sqlite_refines_recording:
  fixes j :: "'b sqlite_journal" and rj :: recording_journal
  assumes "represents C (sj_tables j) rj" and "codec_ok C" and "reads_succeed F"
    and "\<forall>e \<in> set evs. se_sequence_id e = sn_sequence_id sn" and "uint (sn_sequence_id sn) < 2 ^ 63"
    and "\<forall>e \<in> set (jr_events rj). se_sequence_id e < sn_sequence_id sn"
    and "\<forall>i old. jr_snapshot rj = Some (i, old) \<longrightarrow> i < sn_sequence_id sn"
    and "persist_commit C F j evs (Some sn) = (j', r)"
    and "uint from < 2 ^ 63" and "uint to < 2 ^ 63"
  shows "(case r of
       Inl _ \<Rightarrow> sj_tables j' = sj_tables j
     | Inr _ \<Rightarrow>
         (let rj' = fst (ej_persist_commit recording_event_journal rj evs (Some sn)) in
          represents C (sj_tables j') rj' \<and>
          replay_from C F j' from = ej_replay_from recording_event_journal rj' from \<and>
          replay_range C F j' from to = ej_replay_range recording_event_journal rj' from to \<and>
          load_latest_snapshot C F j' = ej_load_latest_snapshot recording_event_journal rj' \<and>
          latest_sequence_id F j' = ej_latest_sequence_id recording_event_journal rj')) \<and>
    ((\<forall>st. de_write F (sj_ops j) st = None) \<longrightarrow> int (length evs) \<le> 2 ^ 63 \<longrightarrow>
     (\<forall>ev \<in> set evs. \<exists>b. cd_encode_event C ev = Inr b) \<longrightarrow>
     (\<exists>b. cd_encode_snapshot C sn = Inr b) \<longrightarrow> r = Inr ())"
proof (intro conjI impI)
  let ?rj = "\<lparr>jr_events = jr_events rj @ evs, jr_snapshot = Some (sn_sequence_id sn, sn)\<rparr>"
  have rec: "fst (ej_persist_commit recording_event_journal rj evs (Some sn)) = ?rj"
    by (cases rj) (simp add: recording_event_journal_def Let_def)
  show "case r of Inl _ \<Rightarrow> sj_tables j' = sj_tables j
     | Inr _ \<Rightarrow>
         (let rj' = fst (ej_persist_commit recording_event_journal rj evs (Some sn)) in
          represents C (sj_tables j') rj' \<and>
          replay_from C F j' from = ej_replay_from recording_event_journal rj' from \<and>
          replay_range C F j' from to = ej_replay_range recording_event_journal rj' from to \<and>
          load_latest_snapshot C F j' = ej_load_latest_snapshot recording_event_journal rj' \<and>
          latest_sequence_id F j' = ej_latest_sequence_id recording_event_journal rj')"
  proof (cases r)
    case (Inl e)
    with assms(8) persist_commit_error show ?thesis by fastforce
  next
    case (Inr u)
    then have "represents C (sj_tables j') ?rj"
      using represents_commit [OF assms(1,2,4-7)] assms(8) by simp
    with Inr rec represents_reads [OF this assms(3)] assms(9,10) show ?thesis by simp
  qed
next
  assume "\<forall>st. de_write F (sj_ops j) st = None" "int (length evs) \<le> 2 ^ 63"
    "\<forall>ev \<in> set evs. \<exists>b. cd_encode_event C ev = Inr b" "\<exists>b. cd_encode_snapshot C sn = Inr b"
  then show "r = Inr ()" using persist_commit_succeeds [of F j evs C sn] assms(8) by simp
qed

lemma empty_represents: "represents C \<lparr>tb_events = [], tb_snapshots = []\<rparr> \<lparr>jr_events = [], jr_snapshot = None\<rparr>"
  by (simp add: represents_def)

theorem sqlite_refines_recording_witness:
  "\<exists>j'. persist_commit sample_codec sample_env
       \<lparr>sj_tables = \<lparr>tb_events = [], tb_snapshots = []\<rparr>, sj_ops = 0\<rparr>
       [\<lparr>se_sequence_id = 1, se_timestamp = 5, se_event = EvAgentResumed (AgentId ''a'')\<rparr>]
       (Some \<lparr>sn_state = example_state, sn_sequence_id = 1, sn_snapshot_at = 5\<rparr>) = (j', Inr ()) \<and>
     replay_from sample_codec sample_env j' 0 =
       Inr [\<lparr>se_sequence_id = 1, se_timestamp = 5, se_event = EvAgentResumed (AgentId ''a'')\<rparr>]"
proof -
  let ?j = "\<lparr>sj_tables = \<lparr>tb_events = [], tb_snapshots = []\<rparr>, sj_ops = 0\<rparr> :: sample_payload sqlite_journal"
  let ?rj = "\<lparr>jr_events = [], jr_snapshot = None\<rparr>"
  let ?ev = "\<lparr>se_sequence_id = 1, se_timestamp = 5, se_event = EvAgentResumed (AgentId ''a'')\<rparr>"
  let ?sn = "\<lparr>sn_state = example_state, sn_sequence_id = 1, sn_snapshot_at = 5\<rparr>"
  obtain j' r where p: "persist_commit sample_codec sample_env ?j [?ev] (Some ?sn) = (j', r)" by fastforce
  have "represents sample_codec (sj_tables ?j) ?rj" by (simp add: empty_represents)
  from sqlite_refines_recording [OF this sample_codec_ok sample_env_reads _ _ _ _ p, of 0 0]
  have h: "(case r of Inl _ \<Rightarrow> True | Inr _ \<Rightarrow> replay_from sample_codec sample_env j' 0 =
      ej_replay_from recording_event_journal
        (fst (ej_persist_commit recording_event_journal ?rj [?ev] (Some ?sn))) 0)" and r: "r = Inr ()"
    by (auto simp: Let_def sample_env_def sample_codec_def split: sum.splits)
  with p show ?thesis by (simp add: recording_event_journal_def Let_def)
qed

text \<open>
  C4: Recovery from the file. The sequencer runs on a SQLite journal in which any write may fail at
  any statement; the process then ends and the file is opened again. Opening succeeds, and the
  sequencer started on it has the state and snapshot of the last successful commit (the engine
  state, if the loop ended normally) and continues the numbering, as long as the ids stay in the
  range of SQLite's signed integers.
\<close>

theorem sqlite_restart_recovers:
  fixes s :: "('c, 'b sqlite_journal) sequencer"
  assumes "engine_core_contract E" and "codec_ok C" and "reads_succeed F"
    and "represents C (sj_tables (sq_journal s)) rj" and "durable E (sqlite_event_journal C F) s"
    and "uint (sq_sequence_gen s) + int (pending s) \<le> 2 ^ 63" and "run X E (sqlite_event_journal C F) env s = (s', r)"
  shows "\<exists>d j. open_journal (\<lambda>_. None) path (file_of (sq_journal s')) = (d, Inr j) \<and>
    (case sequencer_new E (sqlite_event_journal C F) order c0 j epoch of
       Inl e \<Rightarrow> restore_client_order_generators
         (cache_values (order (sn_state (sq_snapshot_cache s'))) (sn_state (sq_snapshot_cache s')))
         epoch = Inl e
     | Inr t \<Rightarrow> seq_state E t = sn_state (sq_snapshot_cache s') \<and>
         sq_snapshot_cache t = sq_snapshot_cache s' \<and>
         sq_sequence_gen t = sn_sequence_id (sq_snapshot_cache s') + 1) \<and>
    (case r of Inl _ \<Rightarrow> True | Inr _ \<Rightarrow> sn_state (sq_snapshot_cache s') = seq_state E s')"
proof -
  let ?J = "sqlite_event_journal C F"
  have J: "journal_contract ?J (\<lambda>j. \<exists>rj. represents C (sj_tables j) rj) (\<lambda>g. uint g < 2 ^ 63)"
    by (rule sqlite_store.contract) (simp add: sqlite_store_def assms(2,3))
  have "numbers_left (\<lambda>g. uint g < 2 ^ 63) (pending s) s"
    using assms(6) by (auto simp: numbers_left_def uint_add_nat)
  from engine_core_contract.run_held [OF assms(1) J _ assms(5) this assms(7)]
  have d: "held ?J s'" "r \<in> range Inr \<longrightarrow> durable E ?J s'" using assms(4) by blast+
  let ?j = "(sq_journal s')\<lparr>sj_ops := 0\<rparr>" and ?t = "s'\<lparr>sq_journal := (sq_journal s')\<lparr>sj_ops := 0\<rparr>\<rparr>"
  have "held ?J ?t"
    using d(1) assms(3) by (simp add: held_def load_latest_snapshot_def latest_sequence_id_def Let_def)
  from engine_core_contract.restart_state [OF assms(1) this] d(2) engine_core_contract.state_put [OF assms(1)]
  show ?thesis
    by (auto simp: open_current seq_state_def Let_def durable_def split: sum.split)
qed

theorem sqlite_restart_recovers_witness:
  "\<exists>s' r d j. run ideal_ext (test_engine_core ideal_ext) (sqlite_event_journal sample_codec sample_env)
       example_env (enqueue sqlite_example (CmdPauseAgent (AgentId ''satoshi'') [])) = (s', r) \<and>
     open_journal (\<lambda>_. None) ''journal.db'' (file_of (sq_journal s')) = (d, Inr j) \<and>
     (case sequencer_new (test_engine_core ideal_ext) (sqlite_event_journal sample_codec sample_env)
         (\<lambda>_. []) (sq_core example_sequencer) j 0 of
        Inl e \<Rightarrow> False
      | Inr t \<Rightarrow> seq_state (test_engine_core ideal_ext) t = sn_state (sq_snapshot_cache s'))"
proof -
  let ?E = "test_engine_core ideal_ext" and ?J = "sqlite_event_journal sample_codec sample_env"
  let ?s = "enqueue sqlite_example (CmdPauseAgent (AgentId ''satoshi'') [])"
  obtain s' r where p: "run ideal_ext ?E ?J example_env ?s = (s', r)" by fastforce
  have rep: "represents sample_codec (sj_tables (sq_journal sqlite_example))
      \<lparr>jr_events = [], jr_snapshot = Some (0, sq_snapshot_cache example_sequencer)\<rparr>"
    by (simp add: represents_def sqlite_example_def example_sequencer_def sample_codec_def)
  then have "durable ?E ?J sqlite_example"
    using represents_reads(3,4) [OF rep sample_env_reads]
    by (simp add: durable_def held_def sqlite_example_def example_sequencer_def seq_state_def
        test_engine_core_def recording_event_journal_def seq_zero_def word_less_def)
  then have "durable ?E ?J ?s" by (simp add: durable_enqueue)
  moreover have "uint (sq_sequence_gen ?s) + int (pending ?s) \<le> 2 ^ 63" "sq_journal ?s = sq_journal sqlite_example"
    by (simp_all add: pending_def enqueue_def sqlite_example_def example_sequencer_def)
  ultimately show ?thesis
    using sqlite_restart_recovers [OF test_core_contract sample_codec_ok sample_env_reads _ _ _ p,
        where order = "\<lambda>_. []" and ?c0.0 = "sq_core example_sequencer" and epoch = 0
          and path = "''journal.db''"] p rep
    by (fastforce simp: restore_client_order_generators_def cache_values_def split: sum.splits)
qed

text \<open>
  Committing again is idempotent. After a successful commit, the same commit repeated (a
  retry whose first answer was lost) succeeds or fails without changing the tables.
\<close>

theorem recommit_idempotent:
  assumes "persist_commit C F j evs snap = (j', Inr ())" and "persist_commit C F j' evs snap = (j'', r)"
  shows "sj_tables j'' = sj_tables j'"
proof (cases r)
  case (Inl e)
  with assms(2) persist_commit_error show ?thesis by fastforce
next
  case (Inr u)
  then have p2: "persist_commit C F j' evs snap = (j'', Inr ())" using assms(2) by simp
  obtain rows srow where 1:
      "collect_results (map (\<lambda>(i, ev). encode_event_row C i ev) (enumerate 0 evs)) = Inr rows"
      "(case snap of None \<Rightarrow> srow = None | Some sn \<Rightarrow> \<exists>r. encode_snapshot_row C sn = Inr r \<and> srow = Some r)"
      "tb_events (sj_tables j') = fold insert_or_ignore rows (tb_events (sj_tables j))"
      "tb_snapshots (sj_tables j') = (case srow of None \<Rightarrow> tb_snapshots (sj_tables j)
        | Some r \<Rightarrow> delete_older (ss_sequence_id r) (insert_or_replace r (tb_snapshots (sj_tables j))))"
    by (rule persist_commit_Inr [OF assms(1)])
  obtain rows' srow' where 2:
      "collect_results (map (\<lambda>(i, ev). encode_event_row C i ev) (enumerate 0 evs)) = Inr rows'"
      "(case snap of None \<Rightarrow> srow' = None | Some sn \<Rightarrow> \<exists>r. encode_snapshot_row C sn = Inr r \<and> srow' = Some r)"
      "tb_events (sj_tables j'') = fold insert_or_ignore rows' (tb_events (sj_tables j'))"
      "tb_snapshots (sj_tables j'') = (case srow' of None \<Rightarrow> tb_snapshots (sj_tables j')
        | Some r \<Rightarrow> delete_older (ss_sequence_id r) (insert_or_replace r (tb_snapshots (sj_tables j'))))"
    by (rule persist_commit_Inr [OF p2])
  have same: "rows' = rows" "srow' = srow" using 1(1,2) 2(1,2) by (auto split: option.splits)
  have "fold insert_or_ignore rows (tb_events (sj_tables j')) = tb_events (sj_tables j')"
    unfolding 1(3) by (rule fold_insert_known) (rule fold_insert_keys)
  moreover have "tb_snapshots (sj_tables j'') = tb_snapshots (sj_tables j')"
    unfolding 2(4) 1(4) same
    by (auto simp: delete_older_def insert_or_replace_def split: option.split
        intro!: filter_cong)
  ultimately show ?thesis using 2(3) same by simp
qed

theorem recommit_idempotent_witness:
  "\<exists>j' j''. persist_commit sample_codec sample_env
       \<lparr>sj_tables = \<lparr>tb_events = [], tb_snapshots = []\<rparr>, sj_ops = 0\<rparr>
       [\<lparr>se_sequence_id = 1, se_timestamp = 5, se_event = EvAgentResumed (AgentId ''a'')\<rparr>] None = (j', Inr ()) \<and>
     persist_commit sample_codec sample_env j'
       [\<lparr>se_sequence_id = 1, se_timestamp = 5, se_event = EvAgentResumed (AgentId ''a'')\<rparr>] None = (j'', Inr ()) \<and>
     sj_tables j'' = sj_tables j'"
proof -
  let ?j = "\<lparr>sj_tables = \<lparr>tb_events = [], tb_snapshots = []\<rparr>, sj_ops = 0\<rparr> :: sample_payload sqlite_journal"
  let ?ev = "\<lparr>se_sequence_id = 1, se_timestamp = 5, se_event = EvAgentResumed (AgentId ''a'')\<rparr>"
  note defs = persist_commit_def encode_event_row_def encode_event_def sample_codec_def sample_env_def
    persist_rows_def blocking_def Let_def
  obtain j' where 1: "persist_commit sample_codec sample_env ?j [?ev] None = (j', Inr ())" "sj_ops j' = 1"
    by (simp add: defs)
  obtain j'' where 2: "persist_commit sample_codec sample_env j' [?ev] None = (j'', Inr ())"
    using 1(2) by (simp add: defs)
  from recommit_idempotent [OF 1(1) 2] 1(1) 2 show ?thesis by blast
qed

text \<open>
  A second event appended under the id of an earlier one is dropped without an error: every append
  writes event index 0, and a row whose key exists is ignored.
\<close>

theorem append_known_id_dropped:
  assumes "\<exists>r \<in> set (tb_events (sj_tables j)). row_key r = (seq_as_i64 (se_sequence_id ev), 0)"
    and "append_event C F j ev = (j', Inr ())"
  shows "sj_tables j' = sj_tables j"
proof -
  have p: "persist_commit C F j [ev] None = (j', Inr ())" using assms(2) by (simp add: append_event_def)
  obtain rows srow where h:
      "collect_results (map (\<lambda>(i, ev). encode_event_row C i ev) (enumerate 0 [ev])) = Inr rows"
      "srow = None"
      "tb_events (sj_tables j') = fold insert_or_ignore rows (tb_events (sj_tables j))"
      "tb_snapshots (sj_tables j') = (case srow of None \<Rightarrow> tb_snapshots (sj_tables j)
        | Some r \<Rightarrow> delete_older (ss_sequence_id r) (insert_or_replace r (tb_snapshots (sj_tables j))))"
    by (rule persist_commit_Inr [OF p]) simp
  obtain r where r: "rows = [r]" "encode_event_row C 0 ev = Inr r"
    using h(1) by (cases rows) (auto simp: collect_results_Inr)
  then have "row_key r = (seq_as_i64 (se_sequence_id ev), 0)"
    by (auto simp: encode_event_row_def row_key_def split: if_splits sum.splits)
  then have "row_key r \<in> row_key ` set (tb_events (sj_tables j))" using assms(1) by force
  with h(2-4) r(1) show ?thesis by (simp add: insert_or_ignore_def)
qed

text \<open>
  C31: Opening a file of an older schema migrates it: when the database reports no error and no two
  legacy rows share a sequence id, the migrated table represents the same events in the order of
  their ids, replay answers exactly these, and the snapshots are kept with the current version.
  Opening the migrated file again changes nothing and gives the same journal.
\<close>

theorem open_migrates_legacy:
  assumes "df_events d = Some (cols, rows)" and "df_events_v2 d = None"
    and "\<not> {''event_index'', ''schema_version''} \<subseteq> set cols"
    and "distinct (map er_sequence_id rows)"
    and "list_all2 (\<lambda>r e. cd_decode_event C (er_payload r) = Inr e \<and>
        er_sequence_id r = uint (se_sequence_id e) \<and> uint (se_sequence_id e) < 2 ^ 63 \<and>
        (''schema_version'' \<in> set cols \<longrightarrow> er_schema_version r = PERSISTED_SCHEMA_VERSION))
      (sort_key er_sequence_id rows) evs"
    and "df_snapshots d = Some (scols, srows)" and "''schema_version'' \<notin> set scols"
    and "reads_succeed F"
  shows "\<exists>d' j. open_journal (\<lambda>_. None) path d = (d', Inr j) \<and>
    df_events d' = Some (event_columns, tb_events (sj_tables j)) \<and> df_events_v2 d' = None \<and>
    replay_from C F j 0 = Inr evs \<and>
    tb_snapshots (sj_tables j) = map (\<lambda>r. r\<lparr>ss_schema_version := PERSISTED_SCHEMA_VERSION\<rparr>) srows \<and>
    open_journal (\<lambda>_. None) path' d' = (d', Inr j)"
proof -
  let ?v = "''schema_version'' \<in> set cols"
  let ?new = "migrated_rows ?v rows"
  let ?s = "map (\<lambda>r. r\<lparr>ss_schema_version := PERSISTED_SCHEMA_VERSION\<rparr>) srows"
  let ?j = "\<lparr>sj_tables = \<lparr>tb_events = ?new, tb_snapshots = ?s\<rparr>, sj_ops = 0\<rparr>"
  let ?d = "d\<lparr>df_events := Some (event_columns, ?new), df_snapshots := Some (scols @ [''schema_version''], ?s)\<rparr>"
  have o: "open_journal (\<lambda>_. None) path d = (?d, Inr ?j)"
    using ensure_events_schema_legacy [OF assms(1-4), of "\<lambda>_. None"] assms(1,6,7)
    by (simp add: open_journal_def and_then_def statement_def create_tables_def Let_def
        ensure_schema_version_column_def load_table_columns_def table_columns_def table_rows_def
        journal_of_def)
  have "list_all2 (row_of C) ?new evs"
    unfolding migrated_rows_def list_all2_map1
    using assms(5) by (rule list_all2_mono) (auto simp: row_of_def PERSISTED_SCHEMA_VERSION_def)
  moreover have "sorted_wrt (<) (map row_key ?new)"
    using migrated_rows_distinct [OF assms(4)] by blast
  ultimately have "represents C \<lparr>tb_events = ?new, tb_snapshots = []\<rparr> \<lparr>jr_events = evs, jr_snapshot = None\<rparr>"
    by (simp add: represents_def)
  from represents_replay [OF this, of "de_read F 0" "\<lambda>r. 0 \<le> er_sequence_id r" "\<lambda>_. True" "''replay_from''"] assms(8)
  have "replay_from C F ?j 0 = Inr evs"
    by (simp add: replay_from_def Let_def row_of_def seq_as_i64_def replay_def)
  moreover have "open_journal (\<lambda>_. None) path' ?d = (?d, Inr ?j)"
    using assms(2) by (simp add: open_defs event_columns_def)
  ultimately show ?thesis using o assms(2) by simp
qed

theorem open_migrates_legacy_witness:
  "\<exists>d' j. open_journal (\<lambda>_. None) ''journal.db'' legacy_file = (d', Inr j) \<and>
     replay_from sample_codec sample_env j 0 = Inr [legacy_event] \<and>
     open_journal (\<lambda>_. None) ''journal.db'' d' = (d', Inr j)"
proof -
  let ?cols = "[''sequence_id'', ''timestamp'', ''event_kind'', ''payload'']"
  let ?scols = "[''sequence_id'', ''timestamp'', ''state'']"
  let ?r = "\<lparr>er_sequence_id = 7, er_event_index = 0, er_timestamp = [], er_event_kind = ''AgentResumed'',
         er_schema_version = 0, er_payload = EventPayload legacy_event\<rparr>"
  have "df_events legacy_file = Some (?cols, [?r])" "df_events_v2 legacy_file = None"
      "\<not> {''event_index'', ''schema_version''} \<subseteq> set ?cols"
      "distinct (map er_sequence_id [?r])"
      "list_all2 (\<lambda>r e. cd_decode_event sample_codec (er_payload r) = Inr e \<and>
        er_sequence_id r = uint (se_sequence_id e) \<and> uint (se_sequence_id e) < 2 ^ 63 \<and>
        (''schema_version'' \<in> set ?cols \<longrightarrow> er_schema_version r = PERSISTED_SCHEMA_VERSION))
      (sort_key er_sequence_id [?r]) [legacy_event]"
      "df_snapshots legacy_file = Some (?scols, [])" "''schema_version'' \<notin> set ?scols"
    by (simp_all add: legacy_file_def legacy_event_def sample_codec_def)
  from open_migrates_legacy [OF this sample_env_reads, of "''journal.db''" "''journal.db''"] show ?thesis by blast
qed

text \<open>
  C40: An interrupted migration is not repaired. If the process ends between the two statements that
  replace the events table, the next start succeeds with an empty journal and the old events stay
  in a table nothing reads; if it ends before them, every later start fails.
\<close>

theorem interrupted_migration_loses_events:
  assumes "df_events d = Some (cols, rows)" and "df_events_v2 d = None"
    and "\<not> {''event_index'', ''schema_version''} \<subseteq> set cols"
    and "distinct (map er_sequence_id rows)" and "df_snapshots d = Some (snapshot_columns, srows)"
    and "reads_succeed F"
  shows "(\<exists>d2 j.
      open_journal (\<lambda>_. None) path
        (fst (open_journal (\<lambda>st. if st = StRename then Some e else None) path d)) = (d2, Inr j) \<and>
      replay_from C F j 0 = Inr [] \<and>
      df_events_v2 d2 = Some (migrated_rows (''schema_version'' \<in> set cols) rows)) \<and>
    (\<exists>err. snd (open_journal f path
        (fst (open_journal (\<lambda>st. if st = StDrop then Some e else None) path d))) = Inl err)"
proof -
  let ?new = "migrated_rows (''schema_version'' \<in> set cols) rows"
  have 1: "fst (open_journal (\<lambda>st. if st = StRename then Some e else None) path d) =
      d\<lparr>df_events := None, df_events_v2 := Some ?new\<rparr>"
    using ensure_events_schema_legacy [OF assms(1-4), of "\<lambda>st. if st = StRename then Some e else None"]
      assms(1,5)
    by (simp add: open_journal_def and_then_def statement_def create_tables_def Let_def)
  have 2: "open_journal (\<lambda>_. None) path (d\<lparr>df_events := None, df_events_v2 := Some ?new\<rparr>) =
      (d\<lparr>df_events := Some (event_columns, []), df_events_v2 := Some ?new\<rparr>,
       Inr \<lparr>sj_tables = \<lparr>tb_events = [], tb_snapshots = srows\<rparr>, sj_ops = 0\<rparr>)"
    using assms(5) by (simp add: open_defs event_columns_def snapshot_columns_def)
  have 3: "fst (open_journal (\<lambda>st. if st = StDrop then Some e else None) path d) = d\<lparr>df_events_v2 := Some ?new\<rparr>"
    using ensure_events_schema_legacy [OF assms(1-4), of "\<lambda>st. if st = StDrop then Some e else None"]
      assms(1,5)
    by (simp add: open_journal_def and_then_def statement_def create_tables_def Let_def)
  have "\<exists>err. snd (open_journal f path (d\<lparr>df_events_v2 := Some ?new\<rparr>)) = Inl err"
    by (rule open_half_migrated) (use assms(1,3,5) in simp_all)
  moreover have "replay_from C F \<lparr>sj_tables = \<lparr>tb_events = [], tb_snapshots = srows\<rparr>, sj_ops = 0\<rparr> 0 = Inr []"
    using assms(6) by (simp add: replay_from_def replay_def select_events_def Let_def)
  ultimately show ?thesis unfolding 1 2 3 by simp
qed

theorem interrupted_migration_loses_events_witness:
  "\<exists>d2 j. open_journal (\<lambda>_. None) ''journal.db''
       (fst (open_journal (\<lambda>st. if st = StRename then Some [] else None) ''journal.db''
         (legacy_file\<lparr>df_snapshots := Some (snapshot_columns, [])\<rparr>))) = (d2, Inr j) \<and>
     replay_from sample_codec sample_env j 0 = Inr []"
  using interrupted_migration_loses_events [where d = "legacy_file\<lparr>df_snapshots := Some (snapshot_columns, [])\<rparr>"
      and cols = "[''sequence_id'', ''timestamp'', ''event_kind'', ''payload'']" and srows = "[]"
      and rows = "[\<lparr>er_sequence_id = 7, er_event_index = 0, er_timestamp = [], er_event_kind = ''AgentResumed'',
         er_schema_version = 0, er_payload = EventPayload legacy_event\<rparr>]"
      and e = "[]" and path = "''journal.db''" and C = sample_codec and F = sample_env and f = "\<lambda>_. None"]
    sample_env_reads
  by (simp add: legacy_file_def) blast

end
