(* ===== verification/Trading_System.thy ===== *)
theory Trading_System
  imports Venue_Submit Sequencer_Invariant Journal
begin

text \<open>
  The running engine: the sequencer (\<open>engine-core/src/sequencer.rs\<close>), the bounded venue channel and
  the submit task (\<open>gateway/src/lib.rs\<close>) as one transition system. The components take steps in any
  order: the task submits an order, has its reports received one by one, collects what the adapter
  queued behind the acknowledgement, and only then takes the next order; the sequencer takes one
  command at a time and never waits for the venue channel. Between any two steps clients and fill
  streams send commands, fills of any order at any time included, and other users act on the
  adapters.

  Shown here: no order is handed to the venue channel twice, no pending order is lost between the
  components, what the sequencer does with the answer of a venue, and that the engine comes to rest.
\<close>

subsection \<open>The system\<close>

text \<open>
  \<open>ts_taken\<close> counts the orders that the submit task has received from the channel; \<open>ts_waiting\<close> is the
  acknowledged order for which it has still to ask the adapter.
\<close>

record ('c, 'j, 'a) trading_system =
  ts_sequencer :: "('c, 'j) sequencer"
  ts_taken :: nat
  ts_task :: "'a venue_submit_task"
  ts_waiting :: "(routed pipeline_order \<times> venue_order_ack) option"

definition sent_orders :: "('c, 'j, 'a) trading_system \<Rightarrow> routed pipeline_order list" where
  "sent_orders sys = (case sq_venue_submit (ts_sequencer sys) of None \<Rightarrow> [] | Some sent \<Rightarrow> sent)"

definition untaken :: "('c, 'j, 'a) trading_system \<Rightarrow> routed pipeline_order list" where
  "untaken sys = drop (ts_taken sys) (sent_orders sys)"

text \<open>The reports of the task that the sequencer has not processed, in the order it will.\<close>

definition reports :: "('c, 'j, 'a) trading_system \<Rightarrow> sequencer_command list" where
  "reports sys = sq_high_priority (ts_sequencer sys) @ vt_sent (ts_task sys)"

definition channel_send :: "('c, 'j, 'a) trading_system \<Rightarrow> try_send_result" where
  "channel_send sys =
     (if length (untaken sys) < VENUE_SUBMIT_CHANNEL_CAPACITY then SendOk else SendFull)"

definition has_room :: "('c, 'j) sequencer \<Rightarrow> sequencer_command \<Rightarrow> bool" where
  "has_room s cmd \<longleftrightarrow>
     (if is_high_priority cmd then length (sq_high_priority s) < HIGH_PRIORITY_CHANNEL_CAPACITY
      else length (sq_commands s) < COMMAND_CHANNEL_CAPACITY)"

definition system_start ::
  "('c, 'j) sequencer \<Rightarrow> (venue_id \<rightharpoonup> 'a venue_adapter \<times> 'a) \<Rightarrow> ('c, 'j, 'a) trading_system"
where
  "system_start s adapters = \<lparr>ts_sequencer = with_venue_submit_tx s, ts_taken = 0,
     ts_task = venue_submit_task_new adapters, ts_waiting = None\<rparr>"

text \<open>The order that a report answers.\<close>

fun answered :: "sequencer_command \<Rightarrow> order_id option" where
  "answered (CmdOnVenueAck i _ _) = Some i"
| "answered (CmdOnVenueSubmitFailed i _) = Some i"
| "answered _ = None"

definition routed_ids :: "routed pipeline_order list \<Rightarrow> order_id list" where
  "routed_ids os = map (\<lambda>ord. oc_id (po_core ord)) os"

text \<open>
  The steps of the engine itself: the task submits the next order, a report of the task is received,
  the task collects the actions behind an acknowledgement that was received, the sequencer processes a
  command that does not end its loop. The counters of the client order ids must not wrap around.
\<close>

inductive internal_step ::
  "ext \<Rightarrow> 'c engine_core \<Rightarrow> 'j event_journal \<Rightarrow> ('c, 'j, 'a) trading_system \<Rightarrow>
   ('c, 'j, 'a) trading_system \<Rightarrow> bool"
  for X E J
where
  take_order: "ts_waiting sys = None \<Longrightarrow> vt_sent (ts_task sys) = [] \<Longrightarrow> untaken sys = ord # rest \<Longrightarrow>
    submit_first (\<lambda>_. True) now ord (ts_task sys) = Some (t, acc) \<Longrightarrow>
    internal_step X E J sys (sys\<lparr>ts_taken := Suc (ts_taken sys), ts_task := t,
      ts_waiting := map_option (Pair ord) acc\<rparr>)"
| deliver: "vt_sent (ts_task sys) = cmd # cmds \<Longrightarrow> has_room (ts_sequencer sys) cmd \<Longrightarrow>
    internal_step X E J sys (sys\<lparr>ts_sequencer := enqueue (ts_sequencer sys) cmd,
      ts_task := (ts_task sys)\<lparr>vt_sent := cmds\<rparr>\<rparr>)"
| collect: "ts_waiting sys = Some (ord, ack) \<Longrightarrow> vt_sent (ts_task sys) = [] \<Longrightarrow>
    internal_step X E J sys (sys\<lparr>ts_task := submit_second (\<lambda>_. True) now ord ack (ts_task sys),
      ts_waiting := None\<rparr>)"
| process: "try_next_pending_command (ts_sequencer sys) = Some (cmd, s1) \<Longrightarrow>
    en_try_send e = channel_send sys \<Longrightarrow> 0 \<le> timestamp_millis X (en_now e) \<Longrightarrow>
    counters_left 1 s1 \<Longrightarrow> process_command X E J (\<lambda>_. e) s1 cmd = (s2, rep, Inr False) \<Longrightarrow>
    internal_step X E J sys (sys\<lparr>ts_sequencer := s2\<rparr>)"

text \<open>
  The environment: clients and fill streams send any command but the answers of a venue, which only
  the submit task sends; other users of an adapter change its state within its invariant \<open>I\<close>, and
  what is collectable (\<open>C\<close>) stays so. Their calls may also change how the next submission goes, by
  acting between its critical sections: any behaviour \<open>A'\<close> that keeps the contract is possible.
\<close>

inductive reachable_system ::
  "ext \<Rightarrow> 'c engine_core \<Rightarrow> 'j event_journal \<Rightarrow> (venue_id \<Rightarrow> 'a \<Rightarrow> bool) \<Rightarrow>
   (venue_id \<Rightarrow> 'a \<Rightarrow> venue_order_id \<Rightarrow> bool) \<Rightarrow> ('c, 'j, 'a) trading_system \<Rightarrow> ('c, 'j, 'a) trading_system \<Rightarrow> bool"
  for X E J I C sys0
where
  started: "reachable_system X E J I C sys0 sys0"
| engine: "reachable_system X E J I C sys0 sys \<Longrightarrow> internal_step X E J sys sys' \<Longrightarrow>
    reachable_system X E J I C sys0 sys'"
| client: "reachable_system X E J I C sys0 sys \<Longrightarrow> answered cmd = None \<Longrightarrow> has_room (ts_sequencer sys) cmd \<Longrightarrow>
    reachable_system X E J I C sys0 (sys\<lparr>ts_sequencer := enqueue (ts_sequencer sys) cmd\<rparr>)"
| venue: "reachable_system X E J I C sys0 sys \<Longrightarrow> vt_adapters (ts_task sys) v = Some (A, a) \<Longrightarrow>
    venue_adapter_contract A' (I v) (C v) \<Longrightarrow> I v a' \<Longrightarrow> (\<And>w. C v a w \<Longrightarrow> C v a' w) \<Longrightarrow>
    reachable_system X E J I C sys0 (sys\<lparr>ts_task := put_adapter v A' a' (ts_task sys)\<rparr>)"

subsection \<open>Specification\<close>

text \<open>The places where an order waits for its answer: in the venue channel, or in the report on it.\<close>

definition answers :: "sequencer_command list \<Rightarrow> order_id list" where
  "answers cmds = List.map_filter answered cmds"

definition open_count :: "('c, 'j, 'a) trading_system \<Rightarrow> order_id \<Rightarrow> nat" where
  "open_count sys i = count_list (routed_ids (untaken sys)) i + count_list (answers (reports sys)) i"

text \<open>The invariant; \<open>W\<close> are the orders that were pending when the engine was started.\<close>

definition system_ok ::
  "(venue_id \<Rightarrow> 'a \<Rightarrow> bool) \<Rightarrow> (venue_id \<Rightarrow> 'a \<Rightarrow> venue_order_id \<Rightarrow> bool) \<Rightarrow> 'c engine_core \<Rightarrow> order_id set \<Rightarrow>
   ('c, 'j, 'a) trading_system \<Rightarrow> bool"
where
  "system_ok I C E W sys \<longleftrightarrow>
     (let s = ts_sequencer sys; st = seq_state E s; sent = sent_orders sys in
      ids_ok E s \<and> (\<forall>i. open_count sys i \<le> 1) \<and>
      (\<forall>i. pending_order st i \<and> i \<notin> W \<longrightarrow> open_count sys i = 1) \<and>
      (\<forall>i. open_count sys i \<noteq> 0 \<longrightarrow> i \<in> set (routed_ids sent)) \<and>
      (\<forall>i \<in> W. es_orders st i \<noteq> None \<and> i \<notin> set (routed_ids sent)) \<and>
      (\<forall>i \<in> set (routed_ids sent). es_orders st i \<noteq> None) \<and>
      (\<forall>c \<in> set (sq_commands s). \<not> is_high_priority c) \<and> (\<forall>c \<in> set (reports sys). is_high_priority c) \<and>
      sq_venue_submit s \<noteq> None \<and> ts_taken sys \<le> length sent \<and> distinct (routed_ids sent) \<and>
      adapters_ok I C (vt_adapters (ts_task sys)) \<and>
      (\<forall>ord ack. ts_waiting sys = Some (ord, ack) \<longrightarrow> ack_collectable C (ts_task sys) ord ack))"

lemmas system_defs = sent_orders_def untaken_def reports_def open_count_def

subsection \<open>Lists of reports\<close>

lemma answers_simps [simp]:
  "answers [] = []" "answers (xs @ ys) = answers xs @ answers ys"
  "answers (c # cs) = (case answered c of None \<Rightarrow> answers cs | Some i \<Rightarrow> i # answers cs)"
  by (simp_all add: answers_def map_filter_def split: option.split)

lemma fills_answers [simp]: "answers (map (CmdOnFill \<circ> f) qs) = []"
  by (induction qs) simp_all

lemma report_shape_answers: "report_shape i [cmd] \<Longrightarrow> answered cmd = Some i \<and> is_high_priority cmd"
  by (auto simp: report_shape_def Cons_eq_append_conv)

lemma post_ack_answers:
  "answers (post_ack_reports ct i (Inr actions)) = []"
  "c \<in> set (post_ack_reports ct i (Inr actions)) \<Longrightarrow> is_high_priority c"
  by (auto simp: post_ack_reports_def split: option.splits)

subsection \<open>What a command does to pending orders\<close>

context order_flow_contract
begin

lemma with_record_pending:
  assumes "with_record E s i f ev = Some (s', rep, Inr oc)" and "\<forall>r r'. f r = Inr r' \<longrightarrow> or_state r' \<noteq> Pending"
  shows "pending_order (seq_state E s') j \<longleftrightarrow> pending_order (seq_state E s) j \<and> j \<noteq> i"
  using assms(1)
proof (cases rule: with_record_cases)
  case (changed r r')
  with assms(2) show ?thesis by (auto simp: pending_order_def put_order_def)
qed simp

lemma core_op_pending:
  assumes "core_op s op evs = Some (s', rep, res)"
    and "\<And>c u. op = Some (c, u) \<Longrightarrow> adds_no_pending (ec_state E (sq_core s)) (ec_state E c)"
  shows "pending_order (seq_state E s') j \<Longrightarrow> pending_order (seq_state E s) j"
  using assms by (auto simp: core_op_def bind_Some_iff seq_state_def adds_no_pending_def)

lemma ack_pending:
  assumes "handle_venue_ack E s i v now = Some (s', rep, Inr oc)"
  shows "pending_order (seq_state E s') j \<longleftrightarrow> pending_order (seq_state E s) j \<and> j \<noteq> i"
  using assms unfolding handle_venue_ack_def by (rule with_record_pending) auto

lemma submit_failed_pending:
  assumes "handle_venue_submit_failed E s i m now = Some (s', rep, Inr oc)"
  shows "pending_order (seq_state E s') j \<longleftrightarrow> pending_order (seq_state E s) j \<and> j \<noteq> i"
  using assms unfolding handle_venue_submit_failed_def by (rule with_record_pending) auto

lemma cancelled_pending:
  assumes "handle_venue_cancelled E s i reason now = Some (s', rep, Inr oc)"
  shows "pending_order (seq_state E s') j = pending_order (seq_state E s) j"
  using assms unfolding handle_venue_cancelled_def
proof (cases rule: with_record_cases)
  case (changed r r')
  then show ?thesis by (auto simp: pending_order_def put_order_def split: if_splits)
qed simp

lemma handle_other_pending:
  assumes "handle_command X E env s cmd now = Some (s', rep, Inr oc)" and "\<nexists>ord. cmd = CmdSubmitOrder ord"
    and pend: "pending_order (seq_state E s') j"
  shows "pending_order (seq_state E s) j \<and> answered cmd \<noteq> Some j"
proof (cases cmd)
  case (CmdOnVenueAck i v t)
  with assms(1) have "handle_venue_ack E s i v t = Some (s', rep, Inr oc)" by (simp add: handle_command_def)
  from ack_pending [OF this, of j] pend CmdOnVenueAck show ?thesis by auto
next
  case (CmdOnVenueSubmitFailed i m)
  with assms(1) have "handle_venue_submit_failed E s i m now = Some (s', rep, Inr oc)"
    by (simp add: handle_command_def)
  from submit_failed_pending [OF this, of j] pend CmdOnVenueSubmitFailed show ?thesis by auto
next
  case (CmdOnVenueCancelled i m t)
  with assms(1) cancelled_pending [of s i m t s' rep oc j] pend show ?thesis by (simp add: handle_command_def)
next
  case (CmdOnFill f)
  then obtain c u where "ec_on_fill E (sq_core s) f now = Some (c, u)" "sq_core s' = c"
    using assms(1) by (auto simp: handle_command_def handle_fill_def bind_Some_iff Let_def option_case_iff sum_case_iff)
  with CmdOnFill pend fill_pending show ?thesis by (auto simp: seq_state_def adds_no_pending_def)
next
  case (CmdOnReconciliation rp)
  then obtain c u where "ec_on_reconciliation E (sq_core s) rp now = Some (c, u)" "sq_core s' = c"
    using assms(1) by (auto simp: handle_command_def handle_reconciliation_def bind_Some_iff Let_def sum_case_iff)
  with CmdOnReconciliation pend reconciliation_pending show ?thesis by (auto simp: seq_state_def adds_no_pending_def)
next
  case (CmdAdjustLimits a l)
  with assms(1) pend adjust_pending show ?thesis
    by (auto simp: handle_command_def bind_Some_iff seq_state_def adds_no_pending_def)
next
  case CmdMarkToMarket
  with assms(1) have "core_op s (ec_mark_to_market E (sq_core s) (en_prices env) now) [] = Some (s', rep, Inr oc)"
    by (simp add: handle_command_def)
  from core_op_pending [OF this mark_pending pend] CmdMarkToMarket show ?thesis by simp
next
  case (CmdPauseAgent a m)
  with assms(1) have "core_op s (ec_pause_agent E (sq_core s) a m now) [EvAgentPaused a m] = Some (s', rep, Inr oc)"
    by (simp add: handle_command_def)
  from core_op_pending [OF this pause_pending pend] CmdPauseAgent show ?thesis by simp
next
  case (CmdResumeAgent a)
  with assms(1) have "core_op s (ec_resume_agent E (sq_core s) a now) [EvAgentResumed a] = Some (s', rep, Inr oc)"
    by (simp add: handle_command_def)
  from core_op_pending [OF this resume_pending pend] CmdResumeAgent show ?thesis by simp
next
  case (CmdHaltAll m)
  with assms(1) have "core_op s (ec_halt_all E (sq_core s) m now) [EvEngineHalted m] = Some (s', rep, Inr oc)"
    by (simp add: handle_command_def)
  from core_op_pending [OF this halt_pending pend] CmdHaltAll show ?thesis by simp
next
  case (CmdResetCircuitBreaker b)
  with assms(1) have "core_op s (ec_reset_circuit_breaker E (sq_core s) now) [EvCircuitBreakerReset b] = Some (s', rep, Inr oc)"
    by (simp add: handle_command_def)
  from core_op_pending [OF this reset_pending pend] CmdResetCircuitBreaker show ?thesis by simp
qed (use assms in \<open>auto simp: handle_command_def\<close>)

lemma commit_orders:
  "commit E J s sid now oc = (s', res) \<Longrightarrow> es_orders (seq_state E s') = es_orders (seq_state E s)"
  by (auto simp: commit_def Let_def update_metadata_def seq_put_def seq_state_def state_put
      split: if_splits prod.splits sum.splits)

lemma other_venue_submit:
  assumes "handle_command X E env s cmd now = Some (s', rep, res)" and "\<nexists>ord. cmd = CmdSubmitOrder ord"
  shows "sq_venue_submit s' = sq_venue_submit s"
  using assms
  by (cases cmd)
    (auto simp: handle_command_def handler_defs bind_Some_iff Let_def option_case_iff sum_case_iff
      seq_put_def split: if_splits)

lemma process_other:
  assumes "process_command X E J env s cmd = (s', rep, Inr stop)" and "\<nexists>ord. cmd = CmdSubmitOrder ord"
  shows "pending_order (seq_state E s') j \<Longrightarrow> pending_order (seq_state E s) j \<and> answered cmd \<noteq> Some j"
    and "keeps_ids (seq_state E s) (seq_state E s')" and "sq_venue_submit s' = sq_venue_submit s"
proof -
  let ?s = "s\<lparr>sq_sequence_gen := sq_sequence_gen s + 1\<rparr>" and ?sid = "sq_sequence_gen s"
  obtain s1 oc where h: "handle_command X E (env ?sid) ?s cmd (en_now (env ?sid)) = Some (s1, rep, Inr oc)"
      and c: "commit E J s1 ?sid (en_now (env ?sid)) oc = (s', Inr stop)"
    using assms(1) by (cases rule: process_command_cases) auto
  have st: "seq_state E ?s = seq_state E s" by (simp add: seq_state_def)
  show "pending_order (seq_state E s) j \<and> answered cmd \<noteq> Some j" if p: "pending_order (seq_state E s') j"
    using handle_other_pending [OF h assms(2), of j] p commit_orders [OF c] st by (simp add: pending_order_def)
  show "keeps_ids (seq_state E s) (seq_state E s')"
    using handle_command_ids [OF h assms(2)] commit_ids [OF c] st keeps_ids_trans by metis
  show "sq_venue_submit s' = sq_venue_submit s"
    using other_venue_submit [OF h assms(2)] commit_frame(6) [OF c] by simp
qed

lemma process_submit:
  assumes "process_command X E J env s (CmdSubmitOrder ord) = (s', rep, Inr stop)"
  obtains (unchanged) "es_orders (seq_state E s') = es_orders (seq_state E s)"
      and "sq_venue_submit s' = sq_venue_submit s"
  | (accepted) r ro where "find_existing_ack E s (oc_id (po_core ord)) = None" and "or_state r = Pending"
      and "es_orders (seq_state E s') = (es_orders (seq_state E s))(oc_id (po_core ord) \<mapsto> r)"
      and "sq_venue_submit s' = map_option (\<lambda>sent. sent @ [ro]) (sq_venue_submit s)"
      and "oc_id (po_core ro) = oc_id (po_core ord)" and "or_client_order_id r = routed_client_order_id ro"
proof -
  let ?s = "s\<lparr>sq_sequence_gen := sq_sequence_gen s + 1\<rparr>" and ?sid = "sq_sequence_gen s"
  let ?now = "en_now (env ?sid)"
  obtain s1 oc where h: "handle_submit_order X E (en_try_send (env ?sid)) ?s ord ?now = Some (s1, rep, Inr oc)"
      and c: "commit E J s1 ?sid ?now oc = (s', Inr stop)"
    using assms by (cases rule: process_command_cases) (auto simp: handle_command_def)
  have st: "seq_state E ?s = seq_state E s" by (simp add: seq_state_def)
  then have fe: "find_existing_ack E ?s i = find_existing_ack E s i" for i by (simp add: find_existing_ack_def)
  note cc = commit_orders [OF c] commit_frame(6) [OF c]
  consider e where "rep = Some (OrderReply (Inl e))" | "s1 = ?s"
    | ack where "rep = Some (OrderReply (Inr ack))" "find_existing_ack E ?s (oc_id (po_core ord)) = None"
    using h by (cases rule: submit_order_cases) auto
  then show thesis
  proof cases
    case 1
    with h submit_error_state [of X _ ?s ord ?now s1] cc st show thesis by (intro unchanged) auto
  next
    case 2
    with cc st show thesis by (intro unchanged) simp_all
  next
    case (3 ack)
    obtain core rc where a: "oc_id core = oc_id (po_core ord)" "po_core rc = core"
      "seq_state E s1 = accepted_state (seq_state E ?s) (oc_id (po_core ord)) core (ak_client_order_id ack) ?now"
      "sq_venue_submit s1 = map_option (\<lambda>sent. sent @ [into_routed rc
        \<lparr>rt_venue_id = oc_venue_id (po_core ord), rt_client_order_id = ak_client_order_id ack,
         rt_routed_at = ?now\<rparr>]) (sq_venue_submit ?s)"
      using submit_accept_state [OF h [unfolded 3(1)] 3(2)] by blast
    let ?ro = "into_routed rc \<lparr>rt_venue_id = oc_venue_id (po_core ord),
      rt_client_order_id = ak_client_order_id ack, rt_routed_at = ?now\<rparr>"
    show thesis
      by (rule accepted [of "the (es_orders (seq_state E s') (oc_id (po_core ord)))" ?ro])
        (use 3(2) fe a cc st in \<open>simp_all add: accepted_state_def into_routed_def routed_client_order_id_def\<close>)
  qed
qed

end

subsection \<open>The invariant\<close>

lemma system_okD:
  assumes "system_ok I C E W sys"
  shows "ids_ok E (ts_sequencer sys)" and "open_count sys i \<le> 1"
    and "pending_order (seq_state E (ts_sequencer sys)) i \<Longrightarrow> i \<notin> W \<Longrightarrow> open_count sys i = 1"
    and "open_count sys i \<noteq> 0 \<Longrightarrow> i \<in> set (routed_ids (sent_orders sys))"
    and "i \<in> W \<Longrightarrow> es_orders (seq_state E (ts_sequencer sys)) i \<noteq> None"
    and "i \<in> W \<Longrightarrow> i \<notin> set (routed_ids (sent_orders sys))"
    and "i \<in> set (routed_ids (sent_orders sys)) \<Longrightarrow> es_orders (seq_state E (ts_sequencer sys)) i \<noteq> None"
    and "c \<in> set (sq_commands (ts_sequencer sys)) \<Longrightarrow> \<not> is_high_priority c"
    and "c \<in> set (reports sys) \<Longrightarrow> is_high_priority c"
    and "sq_venue_submit (ts_sequencer sys) \<noteq> None" and "ts_taken sys \<le> length (sent_orders sys)"
    and "distinct (routed_ids (sent_orders sys))" and "adapters_ok I C (vt_adapters (ts_task sys))"
    and "ts_waiting sys = Some (ord, ack) \<Longrightarrow> ack_collectable C (ts_task sys) ord ack"
  using assms unfolding system_ok_def Let_def by blast+

text \<open>The invariant after a step of the sequencer.\<close>

lemma system_okI:
  assumes "system_ok I C E W sys" and "ids_ok E s" and "\<And>i. open_count (sys\<lparr>ts_sequencer := s\<rparr>) i \<le> 1"
    and "\<And>i. pending_order (seq_state E s) i \<Longrightarrow> i \<notin> W \<Longrightarrow> open_count (sys\<lparr>ts_sequencer := s\<rparr>) i = 1"
    and "\<And>i. open_count (sys\<lparr>ts_sequencer := s\<rparr>) i \<noteq> 0 \<Longrightarrow> i \<in> set (routed_ids (sent_orders (sys\<lparr>ts_sequencer := s\<rparr>)))"
    and "\<And>i. i \<in> W \<Longrightarrow> i \<notin> set (routed_ids (sent_orders (sys\<lparr>ts_sequencer := s\<rparr>)))"
    and "\<And>i. i \<in> W \<or> i \<in> set (routed_ids (sent_orders (sys\<lparr>ts_sequencer := s\<rparr>))) \<Longrightarrow> es_orders (seq_state E s) i \<noteq> None"
    and "\<forall>c \<in> set (sq_commands s). \<not> is_high_priority c"
    and "\<forall>c \<in> set (reports (sys\<lparr>ts_sequencer := s\<rparr>)). is_high_priority c"
    and "sq_venue_submit s \<noteq> None" and "ts_taken sys \<le> length (sent_orders (sys\<lparr>ts_sequencer := s\<rparr>))"
    and "distinct (routed_ids (sent_orders (sys\<lparr>ts_sequencer := s\<rparr>)))"
  shows "system_ok I C E W (sys\<lparr>ts_sequencer := s\<rparr>)"
  using assms(2-) system_okD(13,14) [OF assms(1)] by (simp add: system_ok_def Let_def)

text \<open>The invariant after a step of the submit task that keeps the orders and their answers.\<close>

lemma system_ok_taskI:
  assumes "system_ok I C E W sys" and "ts_sequencer sys' = ts_sequencer sys" and "\<And>i. open_count sys' i = open_count sys i"
    and "\<forall>c \<in> set (reports sys'). is_high_priority c" and "ts_taken sys' \<le> length (sent_orders sys)"
    and "adapters_ok I C (vt_adapters (ts_task sys'))"
    and "\<And>ord ack. ts_waiting sys' = Some (ord, ack) \<Longrightarrow> ack_collectable C (ts_task sys') ord ack"
  shows "system_ok I C E W sys'"
proof -
  have "sent_orders sys' = sent_orders sys" using assms(2) by (simp add: sent_orders_def)
  with assms show ?thesis by (simp add: system_ok_def Let_def)
qed

lemma enqueue_simps:
  "is_high_priority cmd \<Longrightarrow> enqueue s cmd = s\<lparr>sq_high_priority := sq_high_priority s @ [cmd]\<rparr>"
  "\<not> is_high_priority cmd \<Longrightarrow> enqueue s cmd = s\<lparr>sq_commands := sq_commands s @ [cmd]\<rparr>"
  by (simp_all add: enqueue_def)

lemma queue_frame [simp]:
  "seq_state E (s\<lparr>sq_high_priority := h\<rparr>) = seq_state E s" "seq_state E (s\<lparr>sq_commands := c\<rparr>) = seq_state E s"
  "ids_ok E (s\<lparr>sq_high_priority := h\<rparr>) = ids_ok E s" "ids_ok E (s\<lparr>sq_commands := c\<rparr>) = ids_ok E s"
  by (simp_all add: seq_state_def ids_ok_def generators_ahead_def)

lemma drop_ConsD: "drop n xs = y # ys \<Longrightarrow> n < length xs \<and> xs ! n = y \<and> drop (Suc n) xs = ys"
  by (cases "n < length xs") (simp_all flip: Cons_nth_drop_Suc)

lemma take_order_ok:
  assumes "system_ok I C E W sys" and "vt_sent (ts_task sys) = []" and "untaken sys = ord # rest"
    and "submit_first (\<lambda>_. True) now ord (ts_task sys) = Some (t, acc)"
  shows "system_ok I C E W (sys\<lparr>ts_taken := Suc (ts_taken sys), ts_task := t, ts_waiting := map_option (Pair ord) acc\<rparr>)"
    (is "system_ok I C E W ?sys")
proof -
  let ?i = "oc_id (po_core ord)"
  note f = submit_first_reports [OF assms(4) _ system_okD(13) [OF assms(1)]]
  obtain cmd where cmd: "vt_sent t = [cmd]" "answered cmd = Some ?i" "is_high_priority cmd"
    using f(2) assms(2) report_shape_answers by (cases acc) auto
  have len: "ts_taken sys < length (sent_orders sys)" and ut: "untaken ?sys = rest"
    using drop_ConsD [OF assms(3) [unfolded untaken_def]] by (simp_all add: untaken_def sent_orders_def)
  have rep: "reports ?sys = reports sys @ [cmd]" using assms(2) cmd(1) by (simp add: reports_def)
  show ?thesis
  proof (rule system_ok_taskI [OF assms(1)])
    show "open_count ?sys i = open_count sys i" for i
      using ut assms(3) rep cmd(2) by (simp add: open_count_def routed_ids_def)
    show "\<forall>c \<in> set (reports ?sys). is_high_priority c" using system_okD(9) [OF assms(1)] cmd(3) unfolding rep by auto
  qed (use len f in auto)
qed

lemma collect_ok:
  assumes "system_ok I C E W sys" and "ts_waiting sys = Some (ord, ack)" and "vt_sent (ts_task sys) = []"
  shows "system_ok I C E W (sys\<lparr>ts_task := submit_second (\<lambda>_. True) now ord ack (ts_task sys), ts_waiting := None\<rparr>)"
    (is "system_ok I C E W ?sys")
proof -
  obtain actions where t: "vt_sent (ts_task ?sys) = post_ack_reports now (oc_id (po_core ord)) (Inr actions)"
      "adapters_ok I C (vt_adapters (ts_task ?sys))"
    using submit_second_reports [OF system_okD(13) [OF assms(1)] system_okD(14) [OF assms(1,2)], of "\<lambda>_. True" now] assms(3)
    by auto
  have rep: "reports ?sys = reports sys @ post_ack_reports now (oc_id (po_core ord)) (Inr actions)"
    using t(1) assms(3) by (simp add: reports_def)
  show ?thesis
  proof (rule system_ok_taskI [OF assms(1)])
    show "open_count ?sys i = open_count sys i" for i
      using rep post_ack_answers(1) by (simp add: open_count_def untaken_def sent_orders_def)
    show "\<forall>c \<in> set (reports ?sys). is_high_priority c"
      using system_okD(9) [OF assms(1)] post_ack_answers(2) unfolding rep by auto
  qed (use system_okD(11) [OF assms(1)] t(2) in simp_all)
qed

text \<open>A command that answers no order can be queued anywhere.\<close>

lemma enqueue_ok:
  assumes "system_ok I C E W sys" and "answered cmd = None"
  shows "system_ok I C E W (sys\<lparr>ts_sequencer := enqueue (ts_sequencer sys) cmd\<rparr>)"
proof (cases "is_high_priority cmd")
  case True
  let ?sys = "sys\<lparr>ts_sequencer := enqueue (ts_sequencer sys) cmd\<rparr>"
  have rep: "reports ?sys = sq_high_priority (ts_sequencer sys) @ cmd # vt_sent (ts_task sys)"
    using True by (simp add: reports_def enqueue_simps)
  have sent: "sent_orders ?sys = sent_orders sys" "untaken ?sys = untaken sys"
    using True by (simp_all add: system_defs enqueue_simps)
  have "open_count ?sys i = open_count sys i" for i
    using assms(2) rep sent(2) by (simp add: open_count_def reports_def)
  moreover have "\<forall>c \<in> set (reports ?sys). is_high_priority c"
    using system_okD(9) [OF assms(1)] True unfolding rep reports_def [of sys] by auto
  ultimately show ?thesis using assms(1) True sent by (simp add: system_ok_def enqueue_simps Let_def)
next
  case False
  with assms(1) show ?thesis by (simp add: system_ok_def system_defs enqueue_simps Let_def)
qed

lemma ack_collectable_sent [simp]: "ack_collectable C (t\<lparr>vt_sent := l\<rparr>) = ack_collectable C t"
  by (simp add: ack_collectable_def fun_eq_iff)

lemma deliver_ok:
  assumes "system_ok I C E W sys" and "vt_sent (ts_task sys) = cmd # cmds"
  shows "system_ok I C E W (sys\<lparr>ts_sequencer := enqueue (ts_sequencer sys) cmd, ts_task := (ts_task sys)\<lparr>vt_sent := cmds\<rparr>\<rparr>)"
proof -
  have "is_high_priority cmd" using assms by (simp add: system_ok_def reports_def Let_def)
  with assms show ?thesis by (simp add: system_ok_def system_defs enqueue_simps Let_def)
qed

lemma venue_ok:
  assumes "system_ok I C E W sys" and "vt_adapters (ts_task sys) v = Some (A, a)"
    and "venue_adapter_contract A' (I v) (C v)" and "I v a'" and "\<And>w. C v a w \<Longrightarrow> C v a' w"
  shows "system_ok I C E W (sys\<lparr>ts_task := put_adapter v A' a' (ts_task sys)\<rparr>)"
proof (rule system_ok_taskI [OF assms(1)])
  show "adapters_ok I C (vt_adapters (ts_task (sys\<lparr>ts_task := put_adapter v A' a' (ts_task sys)\<rparr>)))"
    using system_okD(13) [OF assms(1)] assms(3,4) by (simp add: adapters_ok_def)
  show "ack_collectable C (ts_task (sys\<lparr>ts_task := put_adapter v A' a' (ts_task sys)\<rparr>)) ord ack"
    if w: "ts_waiting (sys\<lparr>ts_task := put_adapter v A' a' (ts_task sys)\<rparr>) = Some (ord, ack)" for ord ack
    using system_okD(14) [OF assms(1)] w assms(2,5) by (auto simp: ack_collectable_def)
qed (use system_okD(9,11) [OF assms(1)] in \<open>simp_all add: system_defs\<close>)

lemma try_next_cases:
  assumes "try_next_pending_command s = Some (cmd, s1)"
  obtains (high) cs where "sq_high_priority s = cmd # cs" and "s1 = s\<lparr>sq_high_priority := cs\<rparr>"
  | (low) cs where "sq_high_priority s = []" and "sq_commands s = cmd # cs" and "s1 = s\<lparr>sq_commands := cs\<rparr>"
  using assms by (auto simp: try_next_pending_command_def split: list.splits)

lemma low_priority: "\<not> is_high_priority cmd \<Longrightarrow> answered cmd = None"
  by (cases cmd) simp_all

context order_flow_contract
begin

text \<open>A command other than a submission: the queues hold the same reports, less the one processed.\<close>

lemma process_other_ok:
  assumes ok: "system_ok I C E W sys" and nxt: "try_next_pending_command (ts_sequencer sys) = Some (cmd, s1)"
    and proc: "process_command X E J (\<lambda>_. e) s1 cmd = (s2, rep, Inr stop)"
    and ids: "ids_ok E s2" and no: "\<nexists>ord. cmd = CmdSubmitOrder ord"
  shows "system_ok I C E W (sys\<lparr>ts_sequencer := s2\<rparr>)"
proof -
  let ?s = "ts_sequencer sys" and ?sys = "sys\<lparr>ts_sequencer := s2\<rparr>"
  let ?st = "seq_state E ?s" and ?st2 = "seq_state E s2"
  note okd = system_okD [OF ok]
  note fr = try_next_frame(4) [OF nxt, of E] process_command_gen [OF proc]
  have q: "reports sys = (if is_high_priority cmd then cmd # reports ?sys else reports ?sys)"
      and low: "\<forall>c \<in> set (sq_commands s2). \<not> is_high_priority c" and tx: "sq_venue_submit s1 = sq_venue_submit ?s"
    using nxt okd(8,9) fr(2) by (cases rule: try_next_cases; auto simp: reports_def)+
  note po = process_other [OF proc no, unfolded fr(1)]
  have sent: "sent_orders ?sys = sent_orders sys" "untaken ?sys = untaken sys"
    using po(3) tx by (simp_all add: system_defs)
  have none: "answered cmd = None" if "\<not> is_high_priority cmd" using low_priority that by blast
  have cnt: "open_count sys i = open_count ?sys i + (if answered cmd = Some i then 1 else 0)" for i
    using q sent(2) none by (cases "answered cmd") (auto simp: open_count_def split: if_splits)
  have "set (reports ?sys) \<subseteq> set (reports sys)" unfolding q by (cases "is_high_priority cmd") auto
  then have high: "\<forall>c \<in> set (reports ?sys). is_high_priority c" using okd(9) by blast
  show ?thesis
  proof (rule system_okI [OF ok ids _ _ _ _ _ low high])
    show "open_count ?sys i \<le> 1" for i using okd(2) [of i] cnt [of i] by simp
    show "open_count ?sys i = 1" if p: "pending_order ?st2 i" "i \<notin> W" for i
      using po(1) [OF p(1)] okd(3) [of i] p(2) cnt [of i] by simp
    show "i \<in> set (routed_ids (sent_orders ?sys))" if o: "open_count ?sys i \<noteq> 0" for i
      using o okd(4) [of i] cnt [of i] sent(1) by simp
    show "es_orders ?st2 i \<noteq> None" if w: "i \<in> W \<or> i \<in> set (routed_ids (sent_orders ?sys))" for i
      using w okd(5,7) [of i] sent(1) keeps_ids_orders [OF po(2), of i] by auto
  qed (use okd(6,10-12) po(3) tx sent in simp_all)
qed

lemma process_submit_ok:
  assumes ok: "system_ok I C E W sys" and nxt: "try_next_pending_command (ts_sequencer sys) = Some (CmdSubmitOrder ord, s1)"
    and proc: "process_command X E J (\<lambda>_. e) s1 (CmdSubmitOrder ord) = (s2, rep, Inr stop)"
    and ids: "ids_ok E s2"
  shows "system_ok I C E W (sys\<lparr>ts_sequencer := s2\<rparr>)"
proof -
  let ?s = "ts_sequencer sys" and ?sys = "sys\<lparr>ts_sequencer := s2\<rparr>" and ?i = "oc_id (po_core ord)"
  let ?st = "seq_state E ?s" and ?st2 = "seq_state E s2"
  note okd = system_okD [OF ok]
  note fr = try_next_frame(4) [OF nxt, of E] process_command_gen [OF proc]
  have q: "reports ?sys = reports sys" and low: "\<forall>c \<in> set (sq_commands s2). \<not> is_high_priority c"
      and tx: "sq_venue_submit s1 = sq_venue_submit ?s"
    using nxt okd(8) okd(9) [of "CmdSubmitOrder ord"] fr(2) by (cases rule: try_next_cases; auto simp: reports_def)+
  have high: "\<forall>c \<in> set (reports ?sys). is_high_priority c" using okd(9) q by simp
  show ?thesis using proc
  proof (cases rule: process_submit)
    case unchanged
    have sent: "sent_orders ?sys = sent_orders sys" "untaken ?sys = untaken sys"
      using unchanged(2) tx by (simp_all add: system_defs)
    have c: "open_count ?sys i = open_count sys i" for i using sent q by (simp add: open_count_def)
    have e: "es_orders ?st2 = es_orders ?st" using unchanged(1) fr(1) by simp
    then have p: "pending_order ?st2 i = pending_order ?st i" for i by (simp add: pending_order_def)
    show ?thesis
      by (rule system_okI [OF ok ids _ _ _ _ _ low high])
        (use okd(2-7,10-12) c e p sent unchanged(2) tx in auto)
  next
    case (accepted r ro)
    have m: "orders_match_cache (seq_state E s1)" using okd(1) fr(1) by (simp add: ids_ok_def)
    have new: "es_orders ?st ?i = None" using no_ack_no_order [OF m] accepted(1) fr(1) by simp
    have es: "es_orders ?st2 = (es_orders ?st)(?i \<mapsto> r)" using accepted(3) fr(1) by simp
    have sent: "sent_orders ?sys = sent_orders sys @ [ro]" using accepted(4) tx okd(10) by (auto simp: sent_orders_def)
    then have ut: "untaken ?sys = untaken sys @ [ro]" using okd(11) by (simp add: untaken_def)
    have ri: "routed_ids (sent_orders ?sys) = routed_ids (sent_orders sys) @ [?i]"
      using sent accepted(5) by (simp add: routed_ids_def)
    have notin: "?i \<notin> set (routed_ids (sent_orders sys))" "?i \<notin> W" using okd(5,7) new by blast+
    then have zero: "open_count sys ?i = 0" using okd(4) [of ?i] by blast
    have cnt: "open_count ?sys i = open_count sys i + (if i = ?i then 1 else 0)" for i
      using ut q accepted(5) by (simp add: open_count_def routed_ids_def)
    have pend: "pending_order ?st i" if p: "pending_order ?st2 i" "i \<noteq> ?i" for i
      using p es by (simp add: pending_order_def)
    show ?thesis
    proof (rule system_okI [OF ok ids _ _ _ _ _ low high])
      show "open_count ?sys i \<le> 1" for i using okd(2) [of i] cnt [of i] zero by (cases "i = ?i") simp_all
      show "open_count ?sys i = 1" if p: "pending_order ?st2 i" "i \<notin> W" for i
        using pend p okd(3) [of i] cnt [of i] zero by (cases "i = ?i") simp_all
    qed (use okd(4-7,10-12) cnt ri es sent notin accepted(4) tx in \<open>auto split: if_splits\<close>)
  qed
qed

lemma process_ok:
  assumes "system_ok I C E W sys" and "try_next_pending_command (ts_sequencer sys) = Some (cmd, s1)"
    and "0 \<le> timestamp_millis X (en_now e)" and "counters_left 1 s1"
    and "process_command X E J (\<lambda>_. e) s1 cmd = (s2, rep, Inr stop)"
  shows "system_ok I C E W (sys\<lparr>ts_sequencer := s2\<rparr>)"
proof -
  have "ids_ok E s1" using assms(2) system_okD(1) [OF assms(1)] by (cases rule: try_next_cases) simp_all
  then have "ids_ok E s2" using process_command_ids_ok [OF assms(5), of 0] assms(3,4) by simp
  with assms process_submit_ok process_other_ok show ?thesis by (cases "\<exists>ord. cmd = CmdSubmitOrder ord") blast+
qed

lemma internal_step_ok:
  "internal_step X E J sys sys' \<Longrightarrow> system_ok I C E W sys \<Longrightarrow> system_ok I C E W sys'"
  by (induction rule: internal_step.induct) (auto intro: take_order_ok collect_ok deliver_ok process_ok)

lemma reachable_system_ok:
  assumes "reachable_system X E J I C sys0 sys" and "system_ok I C E W sys0"
  shows "system_ok I C E W sys"
  using assms by (induction rule: reachable_system.induct) (auto intro: internal_step_ok enqueue_ok venue_ok)

end

lemma sequencer_new_queues:
  "sequencer_new E J order c0 j epoch = Inr s \<Longrightarrow> sq_high_priority s = [] \<and> sq_commands s = []"
  by (auto simp: sequencer_new_def Let_def sum_case_iff split: bool.splits)

lemma system_start_ok:
  assumes "sequencer_new E J order c0 j epoch = Inr s" and "orders_match_cache (seq_state E s)"
    and "dom (es_idempotency_cache (seq_state E s)) \<subseteq> set (order (seq_state E s))"
    and "\<forall>v A a. adapters v = Some (A, a) \<longrightarrow> venue_adapter_contract A (I v) (C v) \<and> I v a"
  shows "system_ok I C E {i. pending_order (seq_state E s) i} (system_start s adapters)"
proof -
  have "ids_ok E s" by (rule restored_ids_ok [OF assms(1-3)])
  then have "ids_ok E (s\<lparr>sq_venue_submit := Some []\<rparr>)" "seq_state E (s\<lparr>sq_venue_submit := Some []\<rparr>) = seq_state E s"
    by (simp_all add: ids_ok_def generators_ahead_def seq_state_def)
  with assms(4) sequencer_new_queues [OF assms(1)] show ?thesis
    by (auto simp: system_ok_def system_start_def with_venue_submit_tx_def venue_submit_task_new_def system_defs
        routed_ids_def adapters_ok_def pending_order_def Let_def)
qed

subsection \<open>The engine comes to rest\<close>

text \<open>The work left, in the order in which a step may make more of it.\<close>

definition work :: "('c, 'j, 'a) trading_system \<Rightarrow> nat \<times> nat \<times> nat \<times> nat \<times> nat" where
  "work sys = (length (sq_commands (ts_sequencer sys)), length (untaken sys),
     (if ts_waiting sys = None then 0 else 1),
     length (vt_sent (ts_task sys)), length (sq_high_priority (ts_sequencer sys)))"

abbreviation less_work :: "((nat \<times> nat \<times> nat \<times> nat \<times> nat) \<times> (nat \<times> nat \<times> nat \<times> nat \<times> nat)) set" where
  "less_work \<equiv> less_than <*lex*> less_than <*lex*> less_than <*lex*> less_than <*lex*> less_than"

text \<open>What may stop a step: the next command ends the main loop, or the adapter panics.\<close>

definition stalled :: "ext \<Rightarrow> 'c engine_core \<Rightarrow> 'j event_journal \<Rightarrow> ('c, 'j, 'a) trading_system \<Rightarrow> bool" where
  "stalled X E J sys \<longleftrightarrow>
     (\<exists>cmd s1. try_next_pending_command (ts_sequencer sys) = Some (cmd, s1) \<and>
        (\<not> counters_left 1 s1 \<or> (\<forall>e. en_try_send e = channel_send sys \<and> 0 \<le> timestamp_millis X (en_now e) \<longrightarrow>
           snd (snd (process_command X E J (\<lambda>_. e) s1 cmd)) \<noteq> Inr False))) \<or>
     (\<exists>ord rest. untaken sys = ord # rest \<and>
        (\<forall>now. submit_first (\<lambda>_. True) now ord (ts_task sys) = None))"

context order_flow_contract
begin

lemma process_work:
  assumes "system_ok I C E W sys" and "try_next_pending_command (ts_sequencer sys) = Some (cmd, s1)"
    and "process_command X E J (\<lambda>_. e) s1 cmd = (s2, rep, Inr stop)"
  shows "(work (sys\<lparr>ts_sequencer := s2\<rparr>), work sys) \<in> less_work"
  using assms(2)
proof (cases rule: try_next_cases)
  case (high cs)
  then have "is_high_priority cmd" using system_okD(9) [OF assms(1)] by (simp add: reports_def)
  then have no: "\<nexists>ord. cmd = CmdSubmitOrder ord" by auto
  let ?s = "s1\<lparr>sq_sequence_gen := sq_sequence_gen s1 + 1\<rparr>"
  obtain s' oc where h: "handle_command X E e ?s cmd (en_now e) = Some (s', rep, Inr oc)"
      and c: "commit E J s' (sq_sequence_gen s1) (en_now e) oc = (s2, Inr stop)"
    using assms(3) by (cases rule: process_command_cases) auto
  have "sq_venue_submit s2 = sq_venue_submit (ts_sequencer sys)"
    using other_venue_submit [OF h no] commit_frame(6) [OF c] high(2) by simp
  with process_command_gen [OF assms(3)] high show ?thesis by (simp add: work_def untaken_def sent_orders_def)
next
  case (low cs)
  with process_command_gen [OF assms(3)] show ?thesis by (simp add: work_def)
qed

lemma internal_step_work:
  assumes "internal_step X E J sys sys'" and "system_ok I C E W sys"
  shows "(work sys', work sys) \<in> less_work"
  using assms(1)
proof cases
  case (take_order ord rest now t acc)
  then have "untaken sys' = rest"
    using drop_ConsD [OF take_order(4) [unfolded untaken_def]] by (simp add: untaken_def sent_orders_def)
  with take_order show ?thesis by (simp add: work_def)
next
  case (collect ord ack now)
  then show ?thesis by (simp add: work_def untaken_def sent_orders_def)
next
  case (deliver cmd cmds)
  then have "is_high_priority cmd" using system_okD(9) [OF assms(2)] by (simp add: reports_def)
  with deliver show ?thesis by (simp add: work_def enqueue_simps untaken_def sent_orders_def)
next
  case (process cmd s1 e s2 rep)
  with process_work [OF assms(2)] show ?thesis by blast
qed

lemma no_infinite_run:
  assumes "system_ok I C E W sys"
  shows "\<nexists>f. f 0 = sys \<and> (\<forall>n. internal_step X E J (f n) (f (Suc n)))"
proof
  assume "\<exists>f. f 0 = sys \<and> (\<forall>n. internal_step X E J (f n) (f (Suc n)))"
  then obtain f where f: "f 0 = sys" "\<And>n. internal_step X E J (f n) (f (Suc n))" by blast
  have ok: "system_ok I C E W (f n)" for n
  proof (induction n)
    case 0
    then show ?case using f(1) assms by simp
  next
    case (Suc n)
    show ?case by (rule internal_step_ok [OF f(2) Suc])
  qed
  have "(work (f (Suc n)), work (f n)) \<in> less_work" for n by (rule internal_step_work [OF f(2) ok])
  moreover have "wf less_work" by (intro wf_lex_prod wf_less_than)
  ultimately show False by (auto simp: wf_iff_no_infinite_down_chain dest: spec [of _ "\<lambda>n. work (f n)"])
qed

end

lemma rest_or_stalled:
  assumes "\<nexists>sys'. internal_step X E J sys sys'" and "system_ok I C E W sys" and "\<not> stalled X E J sys"
  shows "untaken sys = [] \<and> ts_waiting sys = None \<and> reports sys = [] \<and> sq_commands (ts_sequencer sys) = []"
proof -
  have "try_next_pending_command (ts_sequencer sys) = None"
  proof (rule ccontr)
    assume "try_next_pending_command (ts_sequencer sys) \<noteq> None"
    then obtain cmd s1 where n: "try_next_pending_command (ts_sequencer sys) = Some (cmd, s1)" by fastforce
    then obtain e where e: "counters_left 1 s1" "en_try_send e = channel_send sys"
        "0 \<le> timestamp_millis X (en_now e)" "snd (snd (process_command X E J (\<lambda>_. e) s1 cmd)) = Inr False"
      using assms(3) by (auto simp: stalled_def)
    obtain s2 rep res where p: "process_command X E J (\<lambda>_. e) s1 cmd = (s2, rep, res)" by (metis prod.exhaust)
    then have "res = Inr False" using e(4) by simp
    with internal_step.process [OF n e(2,3,1)] p assms(1) show False by blast
  qed
  then have q: "sq_high_priority (ts_sequencer sys) = []" "sq_commands (ts_sequencer sys) = []"
    by (simp_all add: try_next_pending_command_def split: list.splits)
  have v: "vt_sent (ts_task sys) = []"
  proof (rule ccontr)
    assume "vt_sent (ts_task sys) \<noteq> []"
    then obtain cmd cmds where c: "vt_sent (ts_task sys) = cmd # cmds" by (meson neq_Nil_conv)
    have "has_room (ts_sequencer sys) cmd"
      using q by (simp add: has_room_def HIGH_PRIORITY_CHANNEL_CAPACITY_def COMMAND_CHANNEL_CAPACITY_def)
    with internal_step.deliver [OF c] assms(1) show False by blast
  qed
  have w: "ts_waiting sys = None" using internal_step.collect [OF _ v] assms(1) by (metis not_None_eq old.prod.exhaust)
  have "untaken sys = []"
  proof (rule ccontr)
    assume "untaken sys \<noteq> []"
    then obtain ord rest where u: "untaken sys = ord # rest" by (meson neq_Nil_conv)
    then obtain now t acc where "submit_first (\<lambda>_. True) now ord (ts_task sys) = Some (t, acc)"
      using assms(3) by (auto simp: stalled_def)
    with internal_step.take_order [OF w v u] assms(1) show False by blast
  qed
  with q v w show ?thesis by (simp add: reports_def)
qed

context order_flow_contract
begin

text \<open>The answer to a pending order is accepted; only the journal may refuse it.\<close>

lemma answer_processed:
  assumes "process_command X E J env s cmd = (s', rep, res)" and "answered cmd = Some i"
    and "pending_order (seq_state E s) i"
  shows "settled (seq_state E s') i \<and> (res = Inr False \<or> (\<exists>m. res = Inl (ErrJournal m)))"
proof -
  let ?s = "s\<lparr>sq_sequence_gen := sq_sequence_gen s + 1\<rparr>" and ?sid = "sq_sequence_gen s"
  let ?now = "en_now (env ?sid)"
  obtain r where r: "es_orders (seq_state E ?s) i = Some r" "or_state r = Pending"
    using assms(3) by (auto simp: pending_order_def seq_state_def)
  obtain r' ev where h: "handle_command X E (env ?sid) ?s cmd ?now =
      Some (seq_put E ?s (put_order (seq_state E ?s) i r'), None, Inr (outcome_mutated [ev]))"
      and r': "or_state r' \<noteq> Pending"
  proof (cases cmd)
    case (CmdOnVenueAck j v t)
    with assms(2) r show thesis
      by (intro that [of "r\<lparr>or_state := OSubmitted, or_venue_order_id := Some v, or_last_updated := t\<rparr>"])
        (simp_all add: handle_command_def handle_venue_ack_def with_record_def)
  next
    case (CmdOnVenueSubmitFailed j m)
    with assms(2) r show thesis
      by (intro that [of "r\<lparr>or_state := ORejected, or_last_updated := ?now\<rparr>"])
        (simp_all add: handle_command_def handle_venue_submit_failed_def with_record_def)
  qed (use assms(2) in simp_all)
  let ?t = "seq_put E ?s (put_order (seq_state E ?s) i r')"
  have c: "commit E J ?t ?sid ?now (outcome_mutated [ev]) = (s', res)"
    using assms(1) h by (simp add: process_command_def next_id_def Let_def split: prod.splits)
  have "settled (seq_state E ?t) i" using r' by (simp add: settled_def put_order_def seq_put_def seq_state_def state_put)
  then have "settled (seq_state E s') i" using commit_orders [OF c] by (simp add: settled_def)
  moreover have "res = Inr False \<or> (\<exists>m. res = Inl (ErrJournal m))"
    using c by (auto simp: commit_def outcome_mutated_def Let_def split: prod.splits sum.splits)
  ultimately show ?thesis ..
qed

text \<open>The answer to an order that is no longer pending is refused and ends the main loop.\<close>

lemma answer_refused:
  assumes "process_command X E J env s cmd = (s', rep, res)" and "answered cmd = Some i"
    and "settled (seq_state E s) i"
  shows "\<exists>m. res = Inl (ErrInvalidTransition m)"
proof -
  obtain r where r: "es_orders (seq_state E s) i = Some r" "or_state r \<noteq> Pending"
    using assms(3) by (auto simp: settled_def)
  show ?thesis
    using assms(1,2) r
    by (cases cmd) (auto simp: process_command_def next_id_def handle_command_def handle_venue_ack_def
        handle_venue_submit_failed_def with_record_def seq_state_def)
qed

lemma next_answer_known:
  assumes "system_ok I C E W sys" and "try_next_pending_command (ts_sequencer sys) = Some (cmd, s1)"
    and "answered cmd = Some i"
  shows "pending_order (seq_state E s1) i \<or> settled (seq_state E s1) i"
  using assms(2)
proof (cases rule: try_next_cases)
  case (high cs)
  then have "open_count sys i \<noteq> 0" using assms(3) by (simp add: open_count_def reports_def)
  then have "es_orders (seq_state E (ts_sequencer sys)) i \<noteq> None" using system_okD(4,7) [OF assms(1)] by blast
  with high show ?thesis by (auto simp: settled_iff)
next
  case (low cs)
  then have "\<not> is_high_priority cmd" using system_okD(8) [OF assms(1)] by simp
  with assms(3) show ?thesis by (cases cmd) simp_all
qed

end

subsection \<open>Examples\<close>

text \<open>
  A paper venue; an engine that is started for the first time, and one that is restarted with an
  order that was accepted but not answered before.
\<close>

abbreviation example_core_ops :: "test_core engine_core" where
  "example_core_ops \<equiv> test_engine_core ideal_ext"

definition example_adapters :: "venue_id \<rightharpoonup> paper_adapter venue_adapter \<times> paper_adapter" where
  "example_adapters = [VenueId ''paper'' \<mapsto> (paper_venue_adapter, ready_adapter)]"




lemma example_adapters_ok:
  "\<forall>v A a. example_adapters v = Some (A, a) \<longrightarrow> venue_adapter_contract A acks_known acknowledged \<and> acks_known a"
proof -
  have "acks_known ready_adapter" by (simp add: acks_known_def ready_adapter_simps)
  then show ?thesis using paper.venue_adapter_contract_axioms by (simp add: example_adapters_def)
qed

lemma example_started:
  "sequencer_new example_core_ops recording_event_journal (\<lambda>_. []) (sq_core example_sequencer)
     (sq_journal example_sequencer) 0 = Inr (example_sequencer\<lparr>sq_venue_submit := None\<rparr>)"
  by (simp add: sequencer_new_def recording_event_journal_def example_sequencer_def example_state_def
      test_engine_core_def cache_values_def restore_client_order_generators_def core_snapshot_def
      sequence_generator_new_def seq_next_def Let_def)




abbreviation example_start :: "(test_core, recording_journal, paper_adapter) trading_system" where
  "example_start \<equiv> system_start (example_sequencer\<lparr>sq_venue_submit := None\<rparr>) example_adapters"

abbreviation example_reachable :: "(test_core, recording_journal, paper_adapter) trading_system \<Rightarrow> bool" where
  "example_reachable \<equiv> reachable_system ideal_ext example_core_ops recording_event_journal
    (\<lambda>_. acks_known) (\<lambda>_. acknowledged) example_start"

lemma example_state_ok:
  "orders_match_cache (seq_state example_core_ops (example_sequencer\<lparr>sq_venue_submit := None\<rparr>))"
  "dom (es_idempotency_cache (seq_state example_core_ops (example_sequencer\<lparr>sq_venue_submit := None\<rparr>))) \<subseteq> set []"
  "\<not> pending_order (seq_state example_core_ops (example_sequencer\<lparr>sq_venue_submit := None\<rparr>)) i"
  by (simp_all add: seq_state_def example_sequencer_def test_engine_core_def orders_match_cache_def
      example_state_def pending_order_def)

text \<open>The engine has accepted the order of a client.\<close>

lemma example_order_accepted:
  "\<exists>sys. example_reachable sys \<and>
     pending_order (seq_state example_core_ops (ts_sequencer sys)) (oc_id (po_core example_validated))"
proof -
  let ?sub = "CmdSubmitOrder example_validated"
  let ?s1 = "with_venue_submit_tx (example_sequencer\<lparr>sq_venue_submit := None\<rparr>)"
  let ?sys = "example_start\<lparr>ts_sequencer := enqueue ?s1 ?sub\<rparr>"
  have seq: "ts_sequencer example_start = ?s1" by (simp add: system_start_def)
  have "example_reachable (example_start\<lparr>ts_sequencer := enqueue (ts_sequencer example_start) ?sub\<rparr>)"
    by (rule reachable_system.client [OF reachable_system.started])
      (simp_all add: has_room_def system_start_def with_venue_submit_tx_def example_sequencer_def COMMAND_CHANNEL_CAPACITY_def)
  then have r: "example_reachable ?sys" unfolding seq .
  have n: "try_next_pending_command (ts_sequencer ?sys) = Some (?sub, ?s1)"
    by (simp add: try_next_pending_command_def enqueue_def with_venue_submit_tx_def example_sequencer_def)
  have e: "en_try_send (example_env 1) = channel_send ?sys" "0 \<le> timestamp_millis ideal_ext (en_now (example_env 1))"
      "counters_left 1 ?s1"
    by (simp_all add: example_env_def channel_send_def untaken_def sent_orders_def enqueue_def with_venue_submit_tx_def
        VENUE_SUBMIT_CHANNEL_CAPACITY_def counters_left_def example_sequencer_def system_start_def)
  obtain s2 rep where p: "process_command ideal_ext example_core_ops recording_event_journal (\<lambda>_. example_env 1) ?s1 ?sub =
      (s2, rep, Inr False)" and o: "pending_order (seq_state example_core_ops s2) (oc_id (po_core example_validated))"
    by (simp add: process_command_def next_id_def handle_command_def handle_submit_order_def find_existing_ack_def
        seq_state_def test_engine_core_def with_venue_submit_tx_def example_sequencer_def example_state_def
        test_evaluate_order_def Let_def next_client_order_id_def generator_next_def example_env_def commit_def
        recording_event_journal_def outcome_mutated_def seq_put_def update_metadata_def pending_order_def)
  from reachable_system.engine [OF r internal_step.process [OF n e p]] o show ?thesis by auto
qed

text \<open>A SQLite journal whose next commit fails.\<close>

definition failing_example :: "(test_core, sample_payload sqlite_journal) sequencer" where
  "failing_example = sqlite_example\<lparr>sq_journal := (sq_journal sqlite_example)\<lparr>sj_ops := 2\<rparr>,
     sq_venue_submit := Some []\<rparr>"

lemma failing_submit:
  "\<exists>s' ack err. process_command ideal_ext example_core_ops (sqlite_event_journal sample_codec sample_env) example_env
     failing_example (CmdSubmitOrder example_validated) = (s', Some (OrderReply (Inr ack)), Inl err)"
  by (simp add: process_command_def next_id_def handle_command_def handle_submit_order_def find_existing_ack_def
      seq_state_def test_engine_core_def failing_example_def sqlite_example_def example_sequencer_def example_state_def
      test_evaluate_order_def Let_def next_client_order_id_def generator_next_def example_env_def commit_def
      outcome_mutated_def seq_put_def sqlite_event_journal_def persist_commit_def sample_env_def sample_codec_def
      encode_event_row_def encode_snapshot_row_def encode_event_def encode_snapshot_def blocking_def persist_rows_def
      store_snapshot_def snapshot_for_commit_def)

subsection \<open>Properties\<close>

text \<open>
  C2: No order is handed over twice, and none is lost. In every state that the running engine reaches,
  however the steps of the sequencer, the submit task, clients, fill streams and other users of the
  adapters interleave, all orders sent to the venue channel are different, and every order waits for its
  answer in at most one place, the venue channel or a report on it; an order that is pending, and was
  not so at the start, waits in exactly one. When the sequencer takes the answer to an order that is
  still pending, the order is settled and the main loop goes on, unless the journal fails; when a fill
  has been faster and the order is no longer pending, the answer is an invalid transition, which ends
  the main loop.
\<close>

theorem orders_handed_over_once:
  assumes "order_flow_contract E" and "sequencer_new E J order c0 j epoch = Inr s"
    and "orders_match_cache (seq_state E s)"
    and "dom (es_idempotency_cache (seq_state E s)) \<subseteq> set (order (seq_state E s))"
    and "\<forall>v A a. adapters v = Some (A, a) \<longrightarrow> venue_adapter_contract A (I v) (C v) \<and> I v a"
    and "reachable_system X E J I C (system_start s adapters) sys"
  shows "distinct (routed_ids (sent_orders sys)) \<and> (\<forall>i. open_count sys i \<le> 1) \<and>
    (\<forall>i. \<not> pending_order (seq_state E s) i \<and> pending_order (seq_state E (ts_sequencer sys)) i \<longrightarrow> open_count sys i = 1) \<and>
    (\<forall>cmd s1 i env s2 rep res. try_next_pending_command (ts_sequencer sys) = Some (cmd, s1) \<and>
       answered cmd = Some i \<and> process_command X E J env s1 cmd = (s2, rep, res) \<longrightarrow>
       (if pending_order (seq_state E s1) i
        then settled (seq_state E s2) i \<and> (res = Inr False \<or> (\<exists>m. res = Inl (ErrJournal m)))
        else \<exists>m. res = Inl (ErrInvalidTransition m)))"
proof -
  have ok: "system_ok I C E {i. pending_order (seq_state E s) i} sys"
    by (rule order_flow_contract.reachable_system_ok [OF assms(1,6) system_start_ok [OF assms(2-5)]])
  have "if pending_order (seq_state E s1) i
      then settled (seq_state E s2) i \<and> (res = Inr False \<or> (\<exists>m. res = Inl (ErrJournal m)))
      else \<exists>m. res = Inl (ErrInvalidTransition m)"
    if h: "try_next_pending_command (ts_sequencer sys) = Some (cmd, s1)" "answered cmd = Some i"
      "process_command X E J env s1 cmd = (s2, rep, res)" for cmd s1 i env s2 rep res
    using order_flow_contract.next_answer_known [OF assms(1) ok h(1,2)]
      order_flow_contract.answer_processed [OF assms(1) h(3,2)] order_flow_contract.answer_refused [OF assms(1) h(3,2)]
    by (cases "pending_order (seq_state E s1) i") simp_all
  moreover have "open_count sys i = 1"
    if "\<not> pending_order (seq_state E s) i" "pending_order (seq_state E (ts_sequencer sys)) i" for i
    using system_okD(3) [OF ok, of i] that by simp
  ultimately show ?thesis using system_okD(2,12) [OF ok] by blast
qed

text \<open>A client's order has been accepted.\<close>

theorem orders_handed_over_once_witness:
  "\<exists>sys. example_reachable sys \<and> distinct (routed_ids (sent_orders sys)) \<and>
     open_count sys (oc_id (po_core example_validated)) = 1"
proof -
  obtain sys where r: "example_reachable sys"
      and o: "pending_order (seq_state example_core_ops (ts_sequencer sys)) (oc_id (po_core example_validated))"
    using example_order_accepted by blast
  from orders_handed_over_once [OF test_flow.order_flow_contract_axioms example_started example_state_ok(1,2)
      example_adapters_ok r] o example_state_ok(3)
  have "distinct (routed_ids (sent_orders sys))" "open_count sys (oc_id (po_core example_validated)) = 1" by simp_all
  with r show ?thesis by blast
qed

text \<open>
  C5: The engine comes to rest. From every reachable state the engine takes only finitely many
  steps before it needs new input. When it can take no further step, either it is stalled (the next
  command ends the main loop, or an adapter panics), or the venue channel and all queues are empty
  and no order is left waiting for its venue, other than those that were pending at the start.
\<close>

theorem engine_comes_to_rest:
  assumes "order_flow_contract E" and "sequencer_new E J order c0 j epoch = Inr s"
    and "orders_match_cache (seq_state E s)"
    and "dom (es_idempotency_cache (seq_state E s)) \<subseteq> set (order (seq_state E s))"
    and "\<forall>v A a. adapters v = Some (A, a) \<longrightarrow> venue_adapter_contract A (I v) (C v) \<and> I v a"
    and "reachable_system X E J I C (system_start s adapters) sys"
  shows "(\<nexists>f. f 0 = sys \<and> (\<forall>n. internal_step X E J (f n) (f (Suc n)))) \<and>
    ((\<nexists>sys'. internal_step X E J sys sys') \<longrightarrow> stalled X E J sys \<or>
       untaken sys = [] \<and> ts_waiting sys = None \<and> reports sys = [] \<and> sq_commands (ts_sequencer sys) = [] \<and>
       (\<forall>i. pending_order (seq_state E (ts_sequencer sys)) i \<longrightarrow> pending_order (seq_state E s) i))"
proof -
  have ok: "system_ok I C E {i. pending_order (seq_state E s) i} sys"
    by (rule order_flow_contract.reachable_system_ok [OF assms(1,6) system_start_ok [OF assms(2-5)]])
  have "pending_order (seq_state E s) i"
    if "untaken sys = []" "reports sys = []" "pending_order (seq_state E (ts_sequencer sys)) i" for i
    using system_okD(3) [OF ok, of i] that by (auto simp: open_count_def routed_ids_def)
  with rest_or_stalled [OF _ ok] order_flow_contract.no_infinite_run [OF assms(1) ok] show ?thesis by blast
qed

theorem engine_comes_to_rest_witness:
  "\<exists>sys. example_reachable sys \<and>
     pending_order (seq_state example_core_ops (ts_sequencer sys)) (oc_id (po_core example_validated)) \<and>
     (\<nexists>f. f 0 = sys \<and> (\<forall>n. internal_step ideal_ext example_core_ops recording_event_journal (f n) (f (Suc n))))"
proof -
  obtain sys where r: "example_reachable sys"
      and o: "pending_order (seq_state example_core_ops (ts_sequencer sys)) (oc_id (po_core example_validated))"
    using example_order_accepted by blast
  from engine_comes_to_rest [OF test_flow.order_flow_contract_axioms example_started example_state_ok(1,2)
      example_adapters_ok r]
  have "\<nexists>f. f 0 = sys \<and> (\<forall>n. internal_step ideal_ext example_core_ops recording_event_journal (f n) (f (Suc n)))"
    by (rule conjunct1)
  with r o show ?thesis by blast
qed



text \<open>
  C16: The acknowledgement is given before the commit. When the journal fails on the commit of an
  accepted order, the agent has been told that the order is accepted and the order has been handed
  to the venue channel; but the engine restarted on this journal has the state from before the
  submission, without a record of the order, and the report of the venue on it ends the main loop.
\<close>

theorem failed_commit_forgets_order:
  assumes "engine_core_contract E" and "journal_contract J jinv orderable" and "jinv (sq_journal s)"
    and "durable E J s" and "sq_sequence_gen s \<noteq> - 1" and "orderable (sq_sequence_gen s)"
    and "es_orders (seq_state E s) (oc_id (po_core ord)) = None" and "sq_venue_submit s = Some sent"
    and "process_command X E J env s (CmdSubmitOrder ord) = (s', Some (OrderReply (Inr ack)), Inl err)"
    and "sequencer_new E J order c0 (sq_journal s') epoch = Inr t"
  shows "(\<exists>routed. sq_venue_submit s' = Some (sent @ [routed]) \<and>
      oc_id (po_core routed) = oc_id (po_core ord) \<and> routed_client_order_id routed = ak_client_order_id ack) \<and>
    seq_state E t = seq_state E s \<and>
    handle_venue_ack E t (oc_id (po_core ord)) v now =
      Some (t, None, Inl (OrderNotFound (order_id_str (oc_id (po_core ord)))))"
proof -
  let ?s = "s\<lparr>sq_sequence_gen := sq_sequence_gen s + 1\<rparr>" and ?sid = "sq_sequence_gen s"
  let ?now = "en_now (env ?sid)"
  have held: "held J s'" using engine_core_contract.process_held [OF assms(1-6,9)] by blast
  obtain s1 res where sub: "handle_submit_order X E (en_try_send (env ?sid)) ?s ord ?now =
      Some (s1, Some (OrderReply (Inr ack)), res)"
      and c: "res = Inl err \<and> s' = s1 \<or> (\<exists>oc. res = Inr oc \<and> commit E J s1 ?sid ?now oc = (s', Inl err))"
    using assms(9)
    by (auto simp: process_command_def handle_command_def next_id_def Let_def
        split: option.splits prod.splits sum.splits)
  have new: "find_existing_ack E ?s (oc_id (po_core ord)) = None"
    using assms(7) by (simp add: find_existing_ack_def seq_state_def)
  have "sq_snapshot_cache s1 = sq_snapshot_cache s"
    using submit_order_frame [OF sub] by (simp add: same_frame_def)
  then have cache: "sq_snapshot_cache s' = sq_snapshot_cache s" and tx: "sq_venue_submit s' = sq_venue_submit s1"
    using c by (auto simp: commit_def Let_def split: if_splits prod.splits sum.splits)
  have "sn_state (sq_snapshot_cache s) = seq_state E s" using assms(4) by (simp add: durable_def)
  then have st: "seq_state E t = seq_state E s"
    using engine_core_contract.restart_state [OF assms(1) held, of order c0 epoch] assms(10) cache
      engine_core_contract.state_put [OF assms(1)]
    by (simp add: Let_def seq_state_def split: sum.splits) 
  moreover have "handle_venue_ack E t (oc_id (po_core ord)) v now =
      Some (t, None, Inl (OrderNotFound (order_id_str (oc_id (po_core ord)))))"
    using st assms(7) by (simp add: handle_venue_ack_def with_record_def)
  ultimately show ?thesis
    using engine_core_contract.submit_accept_state [OF assms(1) sub new] tx assms(8)
    by (auto simp: into_routed_def routed_client_order_id_def)
qed

theorem failed_commit_forgets_order_witness:
  "\<exists>s' ack err t.
     process_command ideal_ext example_core_ops (sqlite_event_journal sample_codec sample_env) example_env
       failing_example (CmdSubmitOrder example_validated) = (s', Some (OrderReply (Inr ack)), Inl err) \<and>
     sequencer_new example_core_ops (sqlite_event_journal sample_codec sample_env) (\<lambda>_. [])
       (sq_core example_sequencer) (sq_journal s') 0 = Inr t \<and>
     (\<exists>routed. sq_venue_submit s' = Some [routed]) \<and>
     handle_venue_ack example_core_ops t (oc_id (po_core example_validated)) (VenueOrderId ''v'') 9 =
       Some (t, None, Inl (OrderNotFound (order_id_str (oc_id (po_core example_validated)))))"
proof -
  let ?J = "sqlite_event_journal sample_codec sample_env"
  let ?inv = "\<lambda>j :: sample_payload sqlite_journal. \<exists>rj. represents sample_codec (sj_tables j) rj"
  let ?ord = "\<lambda>g :: sequence_id. uint g < 2 ^ 63"
  have J: "journal_contract ?J ?inv ?ord" by (rule sample.contract)
  have rep: "represents sample_codec (sj_tables (sq_journal failing_example))
      \<lparr>jr_events = [], jr_snapshot = Some (0, sq_snapshot_cache example_sequencer)\<rparr>"
    by (simp add: represents_def failing_example_def sqlite_example_def example_sequencer_def sample_codec_def)
  have d: "durable example_core_ops ?J failing_example" "?inv (sq_journal failing_example)"
    using represents_reads(3,4) [OF rep sample_env_reads] rep
    by (auto simp: durable_def held_def failing_example_def sqlite_example_def example_sequencer_def seq_state_def
        test_engine_core_def recording_event_journal_def seq_zero_def word_less_def)
  obtain s' ack err where p: "process_command ideal_ext example_core_ops ?J example_env failing_example
      (CmdSubmitOrder example_validated) = (s', Some (OrderReply (Inr ack)), Inl err)"
    using failing_submit by blast
  have g: "sq_sequence_gen failing_example \<noteq> - 1" "?ord (sq_sequence_gen failing_example)"
      "es_orders (seq_state example_core_ops failing_example) (oc_id (po_core example_validated)) = None"
      "sq_venue_submit failing_example = Some []"
    by (simp_all add: failing_example_def sqlite_example_def example_sequencer_def example_state_def seq_state_def
        test_engine_core_def)
  have "held ?J s'" using engine_core_contract.process_held [OF test_core_contract J d(2,1) g(1,2) p] by blast
  from engine_core_contract.restart_state [OF test_core_contract this, of ideal_ext "\<lambda>_. []" "sq_core example_sequencer" 0]
  obtain t where t: "sequencer_new example_core_ops ?J (\<lambda>_. []) (sq_core example_sequencer) (sq_journal s') 0 = Inr t"
    by (simp add: cache_values_def restore_client_order_generators_def Let_def)
  from failed_commit_forgets_order [OF test_core_contract J d(2,1) g p t, of "VenueOrderId ''v''" 9] p t
  show ?thesis by auto
qed

end
