(* ===== verification/Bus.thy ===== *)
theory Bus
  imports Ids
begin

text \<open>
  The message bus (\<open>bus/src/lib.rs\<close> and \<open>bus/src/redis.rs\<close>): messages as entries of Redis streams.
  The Redis client (crate \<open>fred\<close>) and the server behind it are the record \<open>redis_client\<close> over a type
  of server states; an error of the client is its text, the only thing the code looks at.
  \<open>Utc::timestamp_millis_opt\<close> (crate \<open>chrono\<close>) is an argument. The background task of \<open>subscribe\<close>
  is modelled on the sequence of answers its reads get and on whether the receiver still exists at
  each send. Shown here: a published payload is read back unchanged, the paged lookup of pending
  messages ends and finds them all, and what an undecodable message does to its consumer group.
\<close>

subsection \<open>Errors and messages\<close>

datatype bus_error =
    ConnectionFailed msg
  | TopicNotFound string
  | PublishFailed string msg
  | GroupNotFound string string
  | SubscribeFailed string string string msg
  | AckFailed string string message_id msg
  | PendingFailed string string msg
  | ClaimFailed string string string msg
  | TopicInfoFailed string msg
  | HealthCheckFailed msg
  | InvalidMessage string message_id msg
  | MissingField string message_id string

fun bus_error_display :: "bus_error \<Rightarrow> msg" where
  "bus_error_display (ConnectionFailed e) = PStr ''bus connection failed: '' # e"
| "bus_error_display (TopicNotFound t) = [PStr ''topic not found: '', PStr t]"
| "bus_error_display (PublishFailed t r) = [PStr ''publish failed on topic '', PStr t, PStr '': ''] @ r"
| "bus_error_display (GroupNotFound t g) =
     [PStr ''consumer group '', PStr g, PStr '' not found on topic '', PStr t]"
| "bus_error_display (SubscribeFailed t g c r) =
     [PStr ''subscribe failed on topic '', PStr t, PStr '' group '', PStr g, PStr '' consumer '', PStr c,
      PStr '': ''] @ r"
| "bus_error_display (AckFailed t g i r) =
     [PStr ''ack failed on topic '', PStr t, PStr '' group '', PStr g, PStr '' message '',
      PStr (message_id_str i), PStr '': ''] @ r"
| "bus_error_display (PendingFailed t g r) =
     [PStr ''pending lookup failed on topic '', PStr t, PStr '' group '', PStr g, PStr '': ''] @ r"
| "bus_error_display (ClaimFailed t g c r) =
     [PStr ''claim failed on topic '', PStr t, PStr '' group '', PStr g, PStr '' consumer '', PStr c,
      PStr '': ''] @ r"
| "bus_error_display (TopicInfoFailed t r) =
     [PStr ''topic info lookup failed on topic '', PStr t, PStr '': ''] @ r"
| "bus_error_display (HealthCheckFailed e) = PStr ''health check failed: '' # e"
| "bus_error_display (InvalidMessage t i r) =
     [PStr ''invalid stream message '', PStr (message_id_str i), PStr '' on topic '', PStr t, PStr '': ''] @ r"
| "bus_error_display (MissingField t i f) =
     [PStr ''missing field '', PStr f, PStr '' in stream message '', PStr (message_id_str i),
      PStr '' on topic '', PStr t]"

type_synonym byte = "8 word"

record bus_message =
  bm_id :: message_id
  bm_topic :: string
  bm_payload :: "byte list"
  bm_published_at :: datetime

record consumer_group_info =
  cg_name :: string
  cg_consumers :: u32
  cg_pending :: u64
  cg_last_delivered :: "message_id option"

record topic_info =
  ti_length :: u64
  ti_consumer_groups :: "consumer_group_info list"
  ti_oldest_message :: "datetime option"
  ti_newest_message :: "datetime option"

definition SUBSCRIPTION_CHANNEL_CAPACITY :: nat where
  "SUBSCRIPTION_CHANNEL_CAPACITY = 1024"

definition STREAM_READ_COUNT :: nat where
  "STREAM_READ_COUNT = 128"

definition STREAM_BLOCK_MS :: nat where
  "STREAM_BLOCK_MS = 1000"

definition STREAM_GROUP_START_ID :: string where
  "STREAM_GROUP_START_ID = ''0-0''"

definition PENDING_PAGE_SIZE :: nat where
  "PENDING_PAGE_SIZE = 256"

definition PAYLOAD_FIELD :: string where
  "PAYLOAD_FIELD = ''payload_hex''"

definition PUBLISHED_AT_FIELD :: string where
  "PUBLISHED_AT_FIELD = ''published_at_ms''"

type_synonym stream_fields = "string \<rightharpoonup> string"
type_synonym stream_entry = "string \<times> stream_fields"
type_synonym pending_entry = "string \<times> string \<times> u64 \<times> u64"
type_synonym redis_error = string

text \<open>Values of a reply; a double is kept as the text it is rendered to.\<close>

datatype redis_value = RvString string | RvBytes string | RvInteger int | RvDouble string | RvBoolean bool | RvOther

subsection \<open>The client\<close>

record 'r redis_client =
  rc_exists :: "'r \<Rightarrow> string \<Rightarrow> redis_error + u64"
  rc_xgroup_create :: "'r \<Rightarrow> string \<Rightarrow> string \<Rightarrow> string \<Rightarrow> bool \<Rightarrow> 'r \<times> (redis_error + unit)"
  rc_xadd :: "'r \<Rightarrow> string \<Rightarrow> stream_fields \<Rightarrow> 'r \<times> (redis_error + string)"
  rc_xrange :: "'r \<Rightarrow> string \<Rightarrow> string \<Rightarrow> string \<Rightarrow> nat \<Rightarrow> redis_error + stream_entry list"
  rc_xrevrange :: "'r \<Rightarrow> string \<Rightarrow> string \<Rightarrow> string \<Rightarrow> nat \<Rightarrow> redis_error + stream_entry list"
  rc_xpending :: "'r \<Rightarrow> string \<Rightarrow> string \<Rightarrow> nat \<Rightarrow> string \<Rightarrow> string \<Rightarrow> nat \<Rightarrow> redis_error + pending_entry list"
  rc_xclaim :: "'r \<Rightarrow> string \<Rightarrow> string \<Rightarrow> string \<Rightarrow> nat \<Rightarrow> string list \<Rightarrow> 'r \<times> (redis_error + stream_entry list)"
  rc_xack :: "'r \<Rightarrow> string \<Rightarrow> string \<Rightarrow> string list \<Rightarrow> 'r \<times> (redis_error + u64)"
  rc_xlen :: "'r \<Rightarrow> string \<Rightarrow> redis_error + u64"
  rc_xinfo_groups :: "'r \<Rightarrow> string \<Rightarrow> redis_error + (string \<rightharpoonup> redis_value) list"

text \<open>\<open>str::contains\<close>.\<close>

fun str_contains :: "string \<Rightarrow> string \<Rightarrow> bool" where
  "str_contains p [] \<longleftrightarrow> p = []"
| "str_contains p (c # s) \<longleftrightarrow> take (length p) (c # s) = p \<or> str_contains p s"

definition is_busy_group_error :: "redis_error \<Rightarrow> bool" where
  "is_busy_group_error e = str_contains ''BUSYGROUP'' e"

definition is_no_group_error :: "redis_error \<Rightarrow> bool" where
  "is_no_group_error e = str_contains ''NOGROUP'' e"

definition is_no_such_key_error :: "redis_error \<Rightarrow> bool" where
  "is_no_such_key_error e = str_contains ''no such key'' e"

definition map_group_or_ack_error :: "string \<Rightarrow> string \<Rightarrow> message_id \<Rightarrow> redis_error \<Rightarrow> bus_error" where
  "map_group_or_ack_error topic grp i e =
     (if is_no_group_error e then GroupNotFound topic grp else AckFailed topic grp i (lit e))"

definition map_group_or_pending_error :: "string \<Rightarrow> string \<Rightarrow> redis_error \<Rightarrow> bus_error" where
  "map_group_or_pending_error topic grp e =
     (if is_no_group_error e then GroupNotFound topic grp else PendingFailed topic grp (lit e))"

definition map_topic_info_error :: "string \<Rightarrow> redis_error \<Rightarrow> bus_error" where
  "map_topic_info_error topic e =
     (if is_no_such_key_error e then TopicNotFound topic else TopicInfoFailed topic (lit e))"

subsection \<open>Hexadecimal payloads\<close>

definition hex_char :: "nat \<Rightarrow> char" where
  "hex_char n = (if n < 10 then char_of (48 + n) else char_of (87 + n))"

definition encode_hex :: "byte list \<Rightarrow> string" where
  "encode_hex payload = concat (map (\<lambda>b. [hex_char (unat b div 16), hex_char (unat b mod 16)]) payload)"

definition hex_val :: "char \<Rightarrow> nat option" where
  "hex_val c = (let n = (of_char c :: nat) in
     if 48 \<le> n \<and> n \<le> 57 then Some (n - 48)
     else if 97 \<le> n \<and> n \<le> 102 then Some (n - 87)
     else if 65 \<le> n \<and> n \<le> 70 then Some (n - 55)
     else None)"

text \<open>
  \<open>u8::from_str_radix(_, 16)\<close> on two characters: the first may be a plus sign.
\<close>

definition u8_from_hex_pair :: "char \<Rightarrow> char \<Rightarrow> byte option" where
  "u8_from_hex_pair a b =
     (if a = CHR ''+'' then map_option of_nat (hex_val b)
      else do { h \<leftarrow> hex_val a; l \<leftarrow> hex_val b; Some (of_nat (16 * h + l)) })"

text \<open>
  \<open>str::from_utf8\<close> on two bytes, with the text of its error: a second byte that starts a character
  or a first byte that starts a longer one is incomplete, everything else is invalid.
\<close>

definition utf8_error_pair :: "char \<Rightarrow> char \<Rightarrow> msg option" where
  "utf8_error_pair a b =
     (let x = (of_char a :: nat); y = (of_char b :: nat);
          invalid = (\<lambda>i. Some [PStr ''invalid utf-8 sequence of 1 bytes from index '', PInt i]);
          incomplete = (\<lambda>i. Some [PStr ''incomplete utf-8 byte sequence from index '', PInt i]) in
      if x < 0x80 then
        (if y < 0x80 then None else if 0xC2 \<le> y \<and> y \<le> 0xF4 then incomplete 1 else invalid 1)
      else if 0xC2 \<le> x \<and> x \<le> 0xDF then (if 0x80 \<le> y \<and> y \<le> 0xBF then None else invalid 0)
      else if 0xE0 \<le> x \<and> x \<le> 0xEF then
        (if (if x = 0xE0 then 0xA0 else 0x80) \<le> y \<and> y \<le> (if x = 0xED then 0x9F else 0xBF)
         then incomplete 0 else invalid 0)
      else if 0xF0 \<le> x \<and> x \<le> 0xF4 then
        (if (if x = 0xF0 then 0x90 else 0x80) \<le> y \<and> y \<le> (if x = 0xF4 then 0x8F else 0xBF)
         then incomplete 0 else invalid 0)
      else invalid 0)"

fun decode_hex_pairs :: "string \<Rightarrow> message_id \<Rightarrow> string \<Rightarrow> bus_error + byte list" where
  "decode_hex_pairs topic i (a # b # s) = (case utf8_error_pair a b of
       Some e \<Rightarrow> Inl (InvalidMessage topic i (PStr ''hex payload was not valid UTF-8: '' # e))
     | None \<Rightarrow> (case u8_from_hex_pair a b of
         None \<Rightarrow> Inl (InvalidMessage topic i [PStr ''hex payload contained invalid byte '', PStr [a, b],
                   PStr '': '', PStr ''invalid digit found in string''])
       | Some byte \<Rightarrow> (case decode_hex_pairs topic i s of
           Inl e \<Rightarrow> Inl e
         | Inr bytes \<Rightarrow> Inr (byte # bytes))))"
| "decode_hex_pairs topic i s = Inr []"

definition decode_hex :: "string \<Rightarrow> message_id \<Rightarrow> string \<Rightarrow> bus_error + byte list" where
  "decode_hex topic i encoded =
     (if odd (length encoded) then Inl (InvalidMessage topic i (lit ''hex payload had odd length''))
      else decode_hex_pairs topic i encoded)"

subsection \<open>Stream entries\<close>

definition required_field :: "string \<Rightarrow> message_id \<Rightarrow> stream_fields \<Rightarrow> string \<Rightarrow> bus_error + string" where
  "required_field topic i flds field = (case flds field of
       Some v \<Rightarrow> Inr v
     | None \<Rightarrow> Inl (MissingField topic i field))"

text \<open>\<open>str::parse::<i64>\<close> with the texts of its errors.\<close>

definition parse_i64 :: "string \<Rightarrow> string + int" where
  "parse_i64 s =
     (let neg = (case s of c # cs \<Rightarrow> c = CHR ''-'' \<and> cs \<noteq> [] | [] \<Rightarrow> False);
          ds = (case s of c # cs \<Rightarrow> if (c = CHR ''+'' \<or> c = CHR ''-'') \<and> cs \<noteq> [] then cs else s | [] \<Rightarrow> [])
      in if s = [] then Inl ''cannot parse integer from empty string''
         else if \<not> list_all is_digit_char ds then Inl ''invalid digit found in string''
         else let v = (if neg then - int (digits_val ds) else int (digits_val ds)) in
           if v < - (2 ^ 63) then Inl ''number too small to fit in target type''
           else if v \<ge> 2 ^ 63 then Inl ''number too large to fit in target type''
           else Inr v)"

definition published_at_from_fields ::
  "(int \<Rightarrow> datetime option) \<Rightarrow> string \<Rightarrow> message_id option \<Rightarrow> stream_fields \<Rightarrow> bus_error + datetime"
where
  "published_at_from_fields from_millis topic mid flds =
     (let field_id = (case mid of Some i \<Rightarrow> i | None \<Rightarrow> MessageId ''unknown'') in
      case required_field topic field_id flds PUBLISHED_AT_FIELD of
        Inl e \<Rightarrow> Inl e
      | Inr published_at_ms \<Rightarrow> (case parse_i64 published_at_ms of
          Inl e \<Rightarrow> Inl (InvalidMessage topic field_id [PStr ''invalid published_at_ms field: '', PStr e])
        | Inr millis \<Rightarrow> (case from_millis millis of
            Some t \<Rightarrow> Inr t
          | None \<Rightarrow> Inl (InvalidMessage topic field_id
              [PStr ''published_at_ms '', PInt millis, PStr '' is outside the valid UTC range'']))))"

definition stream_entry_to_message ::
  "(int \<Rightarrow> datetime option) \<Rightarrow> string \<Rightarrow> stream_entry \<Rightarrow> bus_error + bus_message"
where
  "stream_entry_to_message from_millis topic entry =
     (let message_id = MessageId (fst entry); flds = snd entry in
      case required_field topic message_id flds PAYLOAD_FIELD of
        Inl e \<Rightarrow> Inl e
      | Inr payload_hex \<Rightarrow> (case decode_hex topic message_id payload_hex of
          Inl e \<Rightarrow> Inl e
        | Inr payload \<Rightarrow> (case published_at_from_fields from_millis topic (Some message_id) flds of
            Inl e \<Rightarrow> Inl e
          | Inr published_at \<Rightarrow> Inr \<lparr>bm_id = message_id, bm_topic = topic, bm_payload = payload,
                                    bm_published_at = published_at\<rparr>)))"

text \<open>\<open>.map(stream_entry_to_message).collect()\<close>.\<close>

fun entries_to_messages ::
  "(int \<Rightarrow> datetime option) \<Rightarrow> string \<Rightarrow> stream_entry list \<Rightarrow> bus_error + bus_message list"
where
  "entries_to_messages from_millis topic [] = Inr []"
| "entries_to_messages from_millis topic (e # es) = (case stream_entry_to_message from_millis topic e of
       Inl err \<Rightarrow> Inl err
     | Inr m \<Rightarrow> (case entries_to_messages from_millis topic es of Inl err \<Rightarrow> Inl err | Inr ms \<Rightarrow> Inr (m # ms)))"

subsection \<open>Operations\<close>

definition health_key :: string where
  "health_key = ''__feynman_bus_health__''"

text \<open>\<open>RedisBus::connect\<close>, given the outcome of building and initialising the client.\<close>

definition bus_connect :: "'r redis_client \<Rightarrow> redis_error + 'r \<Rightarrow> bus_error + 'r" where
  "bus_connect Cl client = (case client of
       Inl e \<Rightarrow> Inl (ConnectionFailed (lit e))
     | Inr r \<Rightarrow> (case rc_exists Cl r health_key of
         Inl e \<Rightarrow> Inl (ConnectionFailed (lit e))
       | Inr _ \<Rightarrow> Inr r))"

definition ensure_group :: "'r redis_client \<Rightarrow> 'r \<Rightarrow> string \<Rightarrow> string \<Rightarrow> 'r \<times> (bus_error + unit)" where
  "ensure_group Cl r topic grp = (case rc_xgroup_create Cl r topic grp STREAM_GROUP_START_ID True of
       (r, Inr _) \<Rightarrow> (r, Inr ())
     | (r, Inl e) \<Rightarrow>
         if is_busy_group_error e then (r, Inr ())
         else if is_no_such_key_error e then (r, Inl (TopicNotFound topic))
         else (r, Inl (SubscribeFailed topic grp [] (lit e))))"

definition fetch_message ::
  "(int \<Rightarrow> datetime option) \<Rightarrow> 'r redis_client \<Rightarrow> 'r \<Rightarrow> string \<Rightarrow> string \<Rightarrow> bus_error + bus_message option"
where
  "fetch_message from_millis Cl r topic i = (case rc_xrange Cl r topic i i 1 of
       Inl e \<Rightarrow> Inl (PendingFailed topic ''<lookup>'' (lit e))
     | Inr [] \<Rightarrow> Inr None
     | Inr (entry # _) \<Rightarrow> map_sum id Some (stream_entry_to_message from_millis topic entry))"

fun fetch_messages ::
  "(int \<Rightarrow> datetime option) \<Rightarrow> 'r redis_client \<Rightarrow> 'r \<Rightarrow> string \<Rightarrow> message_id list \<Rightarrow> bus_error + bus_message list"
where
  "fetch_messages from_millis Cl r topic [] = Inr []"
| "fetch_messages from_millis Cl r topic (i # ids) = (case fetch_message from_millis Cl r topic (message_id_str i) of
       Inl e \<Rightarrow> Inl e
     | Inr m \<Rightarrow> (case fetch_messages from_millis Cl r topic ids of
         Inl e \<Rightarrow> Inl e
       | Inr ms \<Rightarrow> Inr (case m of None \<Rightarrow> ms | Some x \<Rightarrow> x # ms)))"

text \<open>\<open>Duration::as_millis\<close> of a duration in nanoseconds, and the conversion to 64 bits.\<close>

definition duration_millis :: "nat \<Rightarrow> string \<Rightarrow> string \<Rightarrow> bus_error + nat" where
  "duration_millis min_idle topic grp =
     (let ms = min_idle div 1000000 in
      if ms < 2 ^ 64 then Inr ms
      else Inl (PendingFailed topic grp (lit ''idle duration exceeds Redis millisecond range'')))"

definition ids_to_strings :: "message_id list \<Rightarrow> string list" where
  "ids_to_strings ids = map message_id_str ids"

text \<open>
  The paging loop of \<open>pending_ids\<close>. Whether it ends depends on the server; it is read on one state
  of the server.
\<close>

partial_function (option) pending_pages ::
  "'r redis_client \<Rightarrow> 'r \<Rightarrow> string \<Rightarrow> string \<Rightarrow> nat \<Rightarrow> string \<Rightarrow> message_id list \<Rightarrow>
   (bus_error + message_id list) option"
where
  "pending_pages Cl r topic grp min_idle_ms start ids =
     (case rc_xpending Cl r topic grp min_idle_ms start ''+'' PENDING_PAGE_SIZE of
        Inl e \<Rightarrow> Some (Inl (map_group_or_pending_error topic grp e))
      | Inr page \<Rightarrow>
          if page = [] then Some (Inr ids)
          else if length page < PENDING_PAGE_SIZE then Some (Inr (ids @ map (MessageId \<circ> fst) page))
          else pending_pages Cl r topic grp min_idle_ms (CHR ''('' # fst (last page))
                 (ids @ map (MessageId \<circ> fst) page))"

definition pending_ids ::
  "'r redis_client \<Rightarrow> 'r \<Rightarrow> string \<Rightarrow> string \<Rightarrow> nat \<Rightarrow> (bus_error + message_id list) option"
where
  "pending_ids Cl r topic grp min_idle = (case duration_millis min_idle topic grp of
       Inl e \<Rightarrow> Some (Inl e)
     | Inr min_idle_ms \<Rightarrow> pending_pages Cl r topic grp min_idle_ms ''-'' [])"

definition recover_pending_messages ::
  "(int \<Rightarrow> datetime option) \<Rightarrow> 'r redis_client \<Rightarrow> 'r \<Rightarrow> string \<Rightarrow> string \<Rightarrow> string \<Rightarrow>
   ('r \<times> (bus_error + bus_message list)) option"
where
  "recover_pending_messages from_millis Cl r topic grp consumer = do {
     found \<leftarrow> pending_ids Cl r topic grp 0;
     Some (case found of
         Inl e \<Rightarrow> (r, Inl e)
       | Inr ids \<Rightarrow>
           if ids = [] then (r, Inr [])
           else (case rc_xclaim Cl r topic grp consumer 0 (ids_to_strings ids) of
               (r, Inl e) \<Rightarrow> (r, Inl (ClaimFailed topic grp consumer (lit e)))
             | (r, Inr claimed) \<Rightarrow> (r, entries_to_messages from_millis topic claimed))) }"

text \<open>The fields \<open>publish\<close> writes, and the operation.\<close>

definition message_fields :: "ext \<Rightarrow> datetime \<Rightarrow> byte list \<Rightarrow> stream_fields" where
  "message_fields X now payload =
     [PAYLOAD_FIELD \<mapsto> encode_hex payload, PUBLISHED_AT_FIELD \<mapsto> int_str (timestamp_millis X now)]"

definition bus_publish ::
  "ext \<Rightarrow> 'r redis_client \<Rightarrow> datetime \<Rightarrow> 'r \<Rightarrow> string \<Rightarrow> byte list \<Rightarrow> 'r \<times> (bus_error + message_id)"
where
  "bus_publish X Cl now r topic payload = (case rc_xadd Cl r topic (message_fields X now payload) of
       (r, Inl e) \<Rightarrow> (r, Inl (PublishFailed topic (lit e)))
     | (r, Inr i) \<Rightarrow> (r, Inr (MessageId i)))"

text \<open>Why the background task of a subscription ended; \<open>None\<close> while it reads.\<close>

datatype task_end = ReceiverDropped | RecoveryFailed bus_error | DecodeFailed bus_error | GroupDisappeared

text \<open>\<open>alive n\<close>: the receiver exists when the \<open>n\<close>-th message is sent.\<close>

fun send_messages :: "(nat \<Rightarrow> bool) \<Rightarrow> bus_message list \<Rightarrow> bus_message list \<Rightarrow> bus_message list \<times> task_end option" where
  "send_messages alive [] sent = (sent, None)"
| "send_messages alive (m # ms) sent =
     (if alive (length sent) then send_messages alive ms (sent @ [m]) else (sent, Some ReceiverDropped))"

fun deliver_entries ::
  "(int \<Rightarrow> datetime option) \<Rightarrow> (nat \<Rightarrow> bool) \<Rightarrow> string \<Rightarrow> stream_entry list \<Rightarrow> bus_message list \<Rightarrow>
   bus_message list \<times> task_end option"
where
  "deliver_entries from_millis alive topic [] sent = (sent, None)"
| "deliver_entries from_millis alive topic (e # es) sent =
     (case stream_entry_to_message from_millis topic e of
        Inl err \<Rightarrow> (sent, Some (DecodeFailed err))
      | Inr m \<Rightarrow> if alive (length sent) then deliver_entries from_millis alive topic es (sent @ [m])
                 else (sent, Some ReceiverDropped))"

text \<open>The reading loop, on the answers of the successive \<open>XREADGROUP\<close> calls.\<close>

fun read_loop ::
  "(int \<Rightarrow> datetime option) \<Rightarrow> (nat \<Rightarrow> bool) \<Rightarrow> string \<Rightarrow> (redis_error + (string \<rightharpoonup> stream_entry list)) list \<Rightarrow>
   bus_message list \<Rightarrow> bus_message list \<times> task_end option"
where
  "read_loop from_millis alive topic [] sent = (sent, None)"
| "read_loop from_millis alive topic (Inr records # reads) sent = (case records topic of
       None \<Rightarrow> read_loop from_millis alive topic reads sent
     | Some entries \<Rightarrow> (case deliver_entries from_millis alive topic entries sent of
         (sent, Some why) \<Rightarrow> (sent, Some why)
       | (sent, None) \<Rightarrow> read_loop from_millis alive topic reads sent))"
| "read_loop from_millis alive topic (Inl e # reads) sent =
     (if is_no_group_error e then (sent, Some GroupDisappeared)
      else read_loop from_millis alive topic reads sent)"

text \<open>The background task: what the receiver gets.\<close>

definition subscription_task ::
  "(int \<Rightarrow> datetime option) \<Rightarrow> 'r redis_client \<Rightarrow> (nat \<Rightarrow> bool) \<Rightarrow> (redis_error + (string \<rightharpoonup> stream_entry list)) list \<Rightarrow>
   'r \<Rightarrow> string \<Rightarrow> string \<Rightarrow> string \<Rightarrow> ('r \<times> bus_message list \<times> task_end option) option"
where
  "subscription_task from_millis Cl alive reads r topic grp consumer = do {
     (r, recovered) \<leftarrow> recover_pending_messages from_millis Cl r topic grp consumer;
     Some (r, case recovered of
         Inl e \<Rightarrow> ([], Some (RecoveryFailed e))
       | Inr ms \<Rightarrow> (case send_messages alive ms [] of
           (sent, Some why) \<Rightarrow> (sent, Some why)
         | (sent, None) \<Rightarrow> read_loop from_millis alive topic reads sent)) }"

definition bus_subscribe ::
  "(int \<Rightarrow> datetime option) \<Rightarrow> 'r redis_client \<Rightarrow> (nat \<Rightarrow> bool) \<Rightarrow> (redis_error + (string \<rightharpoonup> stream_entry list)) list \<Rightarrow>
   'r \<Rightarrow> string \<Rightarrow> string \<Rightarrow> string \<Rightarrow> ('r \<times> (bus_error + bus_message list \<times> task_end option)) option"
where
  "bus_subscribe from_millis Cl alive reads r topic grp consumer = (case ensure_group Cl r topic grp of
       (r, Inl (SubscribeFailed _ _ _ reason)) \<Rightarrow> Some (r, Inl (SubscribeFailed topic grp consumer reason))
     | (r, Inl e) \<Rightarrow> Some (r, Inl e)
     | (r, Inr _) \<Rightarrow> do {
         (r, got) \<leftarrow> subscription_task from_millis Cl alive reads r topic grp consumer;
         Some (r, Inr got) })"

definition bus_ack :: "'r redis_client \<Rightarrow> 'r \<Rightarrow> string \<Rightarrow> string \<Rightarrow> message_id \<Rightarrow> 'r \<times> (bus_error + unit)" where
  "bus_ack Cl r topic grp i = (case rc_xack Cl r topic grp [message_id_str i] of
       (r, Inl e) \<Rightarrow> (r, Inl (map_group_or_ack_error topic grp i e))
     | (r, Inr acked) \<Rightarrow>
         if acked = 0
         then (r, Inl (AckFailed topic grp i (lit ''message was not pending in the consumer group'')))
         else (r, Inr ()))"

definition bus_pending ::
  "(int \<Rightarrow> datetime option) \<Rightarrow> 'r redis_client \<Rightarrow> 'r \<Rightarrow> string \<Rightarrow> string \<Rightarrow> nat \<Rightarrow> (bus_error + bus_message list) option"
where
  "bus_pending from_millis Cl r topic grp min_idle = do {
     found \<leftarrow> pending_ids Cl r topic grp min_idle;
     Some (case found of Inl e \<Rightarrow> Inl e | Inr ids \<Rightarrow> fetch_messages from_millis Cl r topic ids) }"

definition bus_claim ::
  "(int \<Rightarrow> datetime option) \<Rightarrow> 'r redis_client \<Rightarrow> 'r \<Rightarrow> string \<Rightarrow> string \<Rightarrow> string \<Rightarrow> nat \<Rightarrow> message_id list \<Rightarrow>
   'r \<times> (bus_error + bus_message list)"
where
  "bus_claim from_millis Cl r topic grp consumer min_idle ids =
     (if ids = [] then (r, Inr [])
      else (case duration_millis min_idle topic grp of
          Inl e \<Rightarrow> (r, Inl e)
        | Inr min_idle_ms \<Rightarrow>
            (case rc_xclaim Cl r topic grp consumer min_idle_ms (ids_to_strings ids) of
               (r, Inl e) \<Rightarrow> (r, Inl (ClaimFailed topic grp consumer (lit e)))
             | (r, Inr claimed) \<Rightarrow> (r, entries_to_messages from_millis topic claimed))))"

definition bus_health_check :: "'r redis_client \<Rightarrow> 'r \<Rightarrow> bus_error + unit" where
  "bus_health_check Cl r = (case rc_exists Cl r health_key of
       Inl e \<Rightarrow> Inl (HealthCheckFailed (lit e))
     | Inr _ \<Rightarrow> Inr ())"

subsection \<open>Topic metadata\<close>

text \<open>\<open>str::from_utf8(_).is_ok()\<close>.\<close>

definition is_cont :: "nat \<Rightarrow> nat \<Rightarrow> char \<Rightarrow> bool" where
  "is_cont lo hi c \<longleftrightarrow> lo \<le> of_char c \<and> of_char c \<le> hi"

fun valid_utf8 :: "string \<Rightarrow> bool" where
  "valid_utf8 [] \<longleftrightarrow> True"
| "valid_utf8 (a # s) \<longleftrightarrow> (let n = (of_char a :: nat) in
     if n < 0x80 then valid_utf8 s
     else case s of [] \<Rightarrow> False | b # t \<Rightarrow>
       if 0xC2 \<le> n \<and> n \<le> 0xDF then is_cont 0x80 0xBF b \<and> valid_utf8 t
       else case t of [] \<Rightarrow> False | c # u \<Rightarrow>
         if 0xE0 \<le> n \<and> n \<le> 0xEF
         then is_cont (if n = 0xE0 then 0xA0 else 0x80) (if n = 0xED then 0x9F else 0xBF) b \<and>
              is_cont 0x80 0xBF c \<and> valid_utf8 u
         else case u of [] \<Rightarrow> False | d # v \<Rightarrow>
           0xF0 \<le> n \<and> n \<le> 0xF4 \<and>
           is_cont (if n = 0xF0 then 0x90 else 0x80) (if n = 0xF4 then 0x8F else 0xBF) b \<and>
           is_cont 0x80 0xBF c \<and> is_cont 0x80 0xBF d \<and> valid_utf8 v)"

fun value_as_string :: "redis_value option \<Rightarrow> string option" where
  "value_as_string None = None"
| "value_as_string (Some (RvString s)) = Some s"
| "value_as_string (Some (RvBytes b)) = (if valid_utf8 b then Some b else None)"
| "value_as_string (Some (RvInteger i)) = Some (int_str i)"
| "value_as_string (Some (RvDouble d)) = Some d"
| "value_as_string (Some (RvBoolean b)) = Some (if b then ''true'' else ''false'')"
| "value_as_string (Some RvOther) = None"

fun value_as_u64 :: "redis_value option \<Rightarrow> nat option" where
  "value_as_u64 (Some (RvInteger i)) = (if 0 \<le> i \<and> i < 2 ^ 64 then Some (nat i) else None)"
| "value_as_u64 (Some (RvString s)) = parse_unsigned (2 ^ 64) s"
| "value_as_u64 (Some (RvBytes b)) = (if valid_utf8 b then parse_unsigned (2 ^ 64) b else None)"
| "value_as_u64 _ = None"

definition consumer_group_from_value_map ::
  "string \<Rightarrow> (string \<rightharpoonup> redis_value) \<Rightarrow> bus_error + consumer_group_info"
where
  "consumer_group_from_value_map topic vals = (case value_as_string (vals ''name'') of
       None \<Rightarrow> Inl (TopicInfoFailed topic (lit ''xinfo_groups missing name field''))
     | Some name \<Rightarrow> (case value_as_u64 (vals ''consumers'') of
         None \<Rightarrow> Inl (TopicInfoFailed topic
                   [PStr ''xinfo_groups missing consumers field for group '', PStr name])
       | Some consumers \<Rightarrow> (case value_as_u64 (vals ''pending'') of
           None \<Rightarrow> Inl (TopicInfoFailed topic (lit ''xinfo_groups missing pending field''))
         | Some pend \<Rightarrow>
             if consumers < 2 ^ 32
             then Inr \<lparr>cg_name = name, cg_consumers = of_nat consumers, cg_pending = of_nat pend,
                       cg_last_delivered = map_option MessageId
                         (Option.bind (vals ''last-delivered-id'') (value_as_string \<circ> Some))\<rparr>
             else Inl (TopicInfoFailed topic [PStr ''consumer count exceeds u32 range: '',
                    PStr ''out of range integral type conversion attempted'']))))"

fun groups_from_value_maps ::
  "string \<Rightarrow> (string \<rightharpoonup> redis_value) list \<Rightarrow> bus_error + consumer_group_info list"
where
  "groups_from_value_maps topic [] = Inr []"
| "groups_from_value_maps topic (v # vs) = (case consumer_group_from_value_map topic v of
       Inl e \<Rightarrow> Inl e
     | Inr g \<Rightarrow> (case groups_from_value_maps topic vs of Inl e \<Rightarrow> Inl e | Inr gs \<Rightarrow> Inr (g # gs)))"

text \<open>The publication time of the first entry of a range, if there is one.\<close>

definition first_published ::
  "(int \<Rightarrow> datetime option) \<Rightarrow> string \<Rightarrow> redis_error + stream_entry list \<Rightarrow> bus_error + datetime option"
where
  "first_published from_millis topic res = (case res of
       Inl e \<Rightarrow> Inl (map_topic_info_error topic e)
     | Inr [] \<Rightarrow> Inr None
     | Inr (entry # _) \<Rightarrow> map_sum id Some (published_at_from_fields from_millis topic None (snd entry)))"

definition bus_topic_info ::
  "(int \<Rightarrow> datetime option) \<Rightarrow> 'r redis_client \<Rightarrow> 'r \<Rightarrow> string \<Rightarrow> bus_error + topic_info"
where
  "bus_topic_info from_millis Cl r topic = (case rc_xlen Cl r topic of
       Inl e \<Rightarrow> Inl (map_topic_info_error topic e)
     | Inr len \<Rightarrow> (case rc_xinfo_groups Cl r topic of
         Inl e \<Rightarrow> Inl (map_topic_info_error topic e)
       | Inr maps \<Rightarrow> (case groups_from_value_maps topic maps of
           Inl e \<Rightarrow> Inl e
         | Inr groups \<Rightarrow> (case first_published from_millis topic (rc_xrange Cl r topic ''-'' ''+'' 1) of
             Inl e \<Rightarrow> Inl e
           | Inr oldest \<Rightarrow> (case first_published from_millis topic (rc_xrevrange Cl r topic ''+'' ''-'' 1) of
               Inl e \<Rightarrow> Inl e
             | Inr newest \<Rightarrow> Inr \<lparr>ti_length = len, ti_consumer_groups = groups,
                                  ti_oldest_message = oldest, ti_newest_message = newest\<rparr>)))))"

subsection \<open>Specification\<close>

text \<open>
  The documented answer of \<open>XPENDING\<close> on the pending entries \<open>ps\<close> of a group, in order of their
  ids: from \<open>-\<close> the first ones whose idle time is at least the bound, from an exclusive id
  those after it.
\<close>

definition idle_entries :: "nat \<Rightarrow> pending_entry list \<Rightarrow> pending_entry list" where
  "idle_entries ms ps = filter (\<lambda>(_, _, idle, _). ms \<le> unat idle) ps"

definition xpending_law :: "'r redis_client \<Rightarrow> 'r \<Rightarrow> string \<Rightarrow> string \<Rightarrow> pending_entry list \<Rightarrow> bool" where
  "xpending_law Cl r topic grp ps \<longleftrightarrow>
     (\<forall>ms n. rc_xpending Cl r topic grp ms ''-'' ''+'' n = Inr (take n (idle_entries ms ps))) \<and>
     (\<forall>ms n as e bs. idle_entries ms ps = as @ e # bs \<longrightarrow>
        rc_xpending Cl r topic grp ms (CHR ''('' # fst e) ''+'' n = Inr (take n bs))"

text \<open>
  A server with one stream of entries, all of them delivered and pending in the one group: a
  client that satisfies these laws.
\<close>

fun after_id :: "string \<Rightarrow> pending_entry list \<Rightarrow> pending_entry list" where
  "after_id i [] = []"
| "after_id i (p # ps) = (if fst p = i then ps else after_id i ps)"

definition sample_client :: "stream_entry list redis_client" where
  "sample_client = \<lparr>
     rc_exists = (\<lambda>_ _. Inr 0),
     rc_xgroup_create = (\<lambda>r _ _ _ _. (r, Inl ''BUSYGROUP Consumer Group name already exists'')),
     rc_xadd = (\<lambda>r _ flds. (r @ [(''1-0'', flds)], Inr ''1-0'')),
     rc_xrange = (\<lambda>r _ lo _ n. Inr (take n (filter (\<lambda>(i, _). lo = ''-'' \<or> i = lo) r))),
     rc_xrevrange = (\<lambda>r _ _ _ n. Inr (take n (rev r))),
     rc_xpending = (\<lambda>r _ _ ms start _ n.
       let ps = idle_entries ms (map (\<lambda>(i, _). (i, ''c'', 5000, 1)) r) in
       Inr (take n (if start = ''-'' then ps else after_id (tl start) ps))),
     rc_xclaim = (\<lambda>r _ _ _ _ ids. (r, Inr (filter (\<lambda>(i, _). i \<in> set ids) r))),
     rc_xack = (\<lambda>r _ _ ids. (r, Inr 0)),
     rc_xlen = (\<lambda>r _. Inr (of_nat (length r))),
     rc_xinfo_groups = (\<lambda>_ _. Inr [])\<rparr>"

subsection \<open>Round trip of payloads\<close>

lemma hex_val_char: "n < 16 \<Longrightarrow> hex_val (hex_char n) = Some n"
  by (simp add: hex_char_def hex_val_def of_char_of)

lemma hex_char_ascii: "n < 16 \<Longrightarrow> of_char (hex_char n) < (0x80 :: nat) \<and> hex_char n \<noteq> CHR ''+''"
  by (auto simp: hex_char_def of_char_of dest: arg_cong [where f = "of_char :: char \<Rightarrow> nat"])

lemma decode_pair:
  fixes b :: byte
  shows "utf8_error_pair (hex_char (unat b div 16)) (hex_char (unat b mod 16)) = None"
    and "u8_from_hex_pair (hex_char (unat b div 16)) (hex_char (unat b mod 16)) = Some b"
proof -
  have "unat b < 256" using unsigned_less [of b] by simp
  then have d: "unat b div 16 < 16" "unat b mod 16 < 16" by (simp_all add: less_mult_imp_div_less)
  then show "utf8_error_pair (hex_char (unat b div 16)) (hex_char (unat b mod 16)) = None"
    using hex_char_ascii by (simp add: utf8_error_pair_def)
  show "u8_from_hex_pair (hex_char (unat b div 16)) (hex_char (unat b mod 16)) = Some b"
    using d hex_char_ascii [OF d(1)]
    by (simp add: u8_from_hex_pair_def hex_val_char flip: of_nat_mult of_nat_add)
qed

lemma decode_encode_hex: "decode_hex topic i (encode_hex payload) = Inr payload"
proof -
  have "decode_hex_pairs topic i (encode_hex payload) = Inr payload \<and> even (length (encode_hex payload))"
    by (induction payload) (simp_all add: encode_hex_def decode_pair)
  then show ?thesis by (simp add: decode_hex_def)
qed

lemma decode_hex_length:
  "decode_hex topic i s = Inr payload \<Longrightarrow> length s = 2 * length payload"
proof -
  have "decode_hex_pairs topic i s = Inr payload \<Longrightarrow> even (length s) \<Longrightarrow> length s = 2 * length payload"
    by (induction topic i s arbitrary: payload rule: decode_hex_pairs.induct)
      (auto split: option.splits sum.splits)
  then show "decode_hex topic i s = Inr payload \<Longrightarrow> ?thesis"
    by (simp add: decode_hex_def split: if_splits)
qed

lemma parse_int_str:
  assumes "- (2 ^ 63) \<le> k" and "k < 2 ^ 63"
  shows "parse_i64 (int_str k) = Inr k"
proof -
  let ?ds = "nat_str (nat \<bar>k\<bar>)"
  have d: "?ds \<noteq> []" "list_all is_digit_char ?ds" "digits_val ?ds = nat \<bar>k\<bar>"
    by (simp_all add: nat_str_digits)
  show ?thesis
  proof (cases "k < 0")
    case True
    then have "int_str k = CHR ''-'' # ?ds" by (simp add: int_str_def)
    with d True assms show ?thesis by (simp add: parse_i64_def Let_def)
  next
    case False
    then have s: "int_str k = ?ds" by (simp add: int_str_def)
    obtain c cs where c: "?ds = c # cs" using d(1) by (cases ?ds) auto
    then have "c \<noteq> CHR ''-''" "c \<noteq> CHR ''+''" using d(2) by (auto simp: is_digit_char_def)
    with c d False assms s show ?thesis by (simp add: parse_i64_def Let_def)
  qed
qed

subsection \<open>Pending messages\<close>

lemma idle_entries_zero [simp]: "idle_entries 0 ps = ps"
  by (simp add: idle_entries_def)

lemma pending_pages_complete:
  assumes "xpending_law Cl r topic grp ps" and "idle_entries ms ps = as @ bs"
    and "\<And>n. rc_xpending Cl r topic grp ms start ''+'' n = Inr (take n bs)"
  shows "pending_pages Cl r topic grp ms start ids = Some (Inr (ids @ map (MessageId \<circ> fst) bs))"
  using assms(2,3)
proof (induction bs arbitrary: as start ids rule: length_induct)
  case (1 bs)
  let ?page = "take PENDING_PAGE_SIZE bs"
  have p: "rc_xpending Cl r topic grp ms start ''+'' PENDING_PAGE_SIZE = Inr ?page" by (rule 1(3))
  show ?case
  proof (cases "length bs < PENDING_PAGE_SIZE")
    case True
    then show ?thesis using p by (simp add: pending_pages.simps)
  next
    case False
    have pos: "0 < PENDING_PAGE_SIZE" by (simp add: PENDING_PAGE_SIZE_def)
    then have ne: "?page \<noteq> []" using False by auto
    let ?e = "last ?page" and ?rest = "drop PENDING_PAGE_SIZE bs"
    have split: "idle_entries ms ps = (as @ butlast ?page) @ ?e # ?rest"
      using 1(2) ne append_butlast_last_id [OF ne]
      by (metis append.assoc append_Cons append_Nil append_take_drop_id)
    have next_: "rc_xpending Cl r topic grp ms (CHR ''('' # fst ?e) ''+'' n = Inr (take n ?rest)" for n
      using assms(1) split unfolding xpending_law_def by blast
    have "length ?rest < length bs" using False pos by simp
    with 1(1) next_ split have
      "pending_pages Cl r topic grp ms (CHR ''('' # fst ?e) (ids @ map (MessageId \<circ> fst) ?page) =
       Some (Inr ((ids @ map (MessageId \<circ> fst) ?page) @ map (MessageId \<circ> fst) ?rest))"
      by (metis append.assoc append_Cons append_Nil)
    moreover have "map (MessageId \<circ> fst) ?page @ map (MessageId \<circ> fst) ?rest = map (MessageId \<circ> fst) bs"
      by (simp flip: map_append)
    ultimately show ?thesis using p False ne by (subst pending_pages.simps) simp
  qed
qed

lemma pending_ids_all:
  assumes "xpending_law Cl r topic grp ps" and "min_idle div 1000000 < 2 ^ 64"
  shows "pending_ids Cl r topic grp min_idle =
    Some (Inr (map (MessageId \<circ> fst) (idle_entries (min_idle div 1000000) ps)))"
  using pending_pages_complete [OF assms(1), of "min_idle div 1000000" "[]" _ "''-''" "[]"] assms
  by (simp add: pending_ids_def duration_millis_def xpending_law_def)

lemma after_id_split: "distinct (map fst (as @ e # bs)) \<Longrightarrow> after_id (fst e) (as @ e # bs) = bs"
  by (induction as) auto

lemma sample_xpending_law:
  assumes "distinct (map fst r)"
  shows "xpending_law sample_client r topic grp (map (\<lambda>(i, _). (i, ''c'', 5000, 1)) r)"
proof -
  let ?ps = "map (\<lambda>(i, _). (i, ''c'', 5000, 1 :: u64)) r"
  have "distinct (map fst (idle_entries ms ?ps))" for ms
  proof -
    have "map fst ?ps = map fst r" by auto
    then show ?thesis using assms unfolding idle_entries_def
      by (metis distinct_map_filter)
  qed
  then have "after_id (fst e) (idle_entries ms ?ps) = bs" if "idle_entries ms ?ps = as @ e # bs" for ms as e bs
    using that after_id_split by metis
  then show ?thesis unfolding xpending_law_def by (simp add: sample_client_def del: split_paired_All)
qed

subsection \<open>Deliveries\<close>

lemma entries_to_messages_Inl:
  "\<exists>e \<in> set es. \<exists>err. stream_entry_to_message fm topic e = Inl err \<Longrightarrow>
   \<exists>err. entries_to_messages fm topic es = Inl err"
  by (induction es) (auto split: sum.splits, blast)

lemma send_messages_alive:
  "(\<And>n. alive n) \<Longrightarrow> send_messages alive ms sent = (sent @ ms, None)"
  by (induction ms arbitrary: sent) auto

lemma deliver_entries_alive:
  "(\<And>n. alive n) \<Longrightarrow> entries_to_messages fm topic es = Inr ms \<Longrightarrow>
   deliver_entries fm alive topic es sent = (sent @ ms, None)"
  by (induction es arbitrary: sent ms) (auto split: sum.splits)

lemma read_loop_alive:
  assumes "\<And>n. alive n"
    and "list_all2 (\<lambda>rd ms. case rd of
        Inl e \<Rightarrow> \<not> is_no_group_error e \<and> ms = []
      | Inr records \<Rightarrow> entries_to_messages fm topic (case records topic of None \<Rightarrow> [] | Some es \<Rightarrow> es) = Inr ms)
      reads batches"
  shows "read_loop fm alive topic reads sent = (sent @ concat batches, None)"
  using assms(2)
proof (induction reads batches arbitrary: sent rule: list_all2_induct)
  case (Cons rd reads ms batches)
  then show ?case
    by (cases rd) (auto simp: deliver_entries_alive [OF assms(1)] split: option.splits)
qed simp

subsection \<open>Properties\<close>

text \<open>
  C28: What is published is what is read. A payload of arbitrary bytes that \<open>publish\<close> stores is
  returned by a lookup of its message id with the same bytes and the time of publication in
  milliseconds, given that the server returns the entry it has stored and that the time is one
  chrono can represent.
\<close>

theorem published_message_read_back:
  assumes "bus_publish X Cl now r topic payload = (r', Inr i)"
    and "\<And>flds r' k. rc_xadd Cl r topic flds = (r', Inr k) \<Longrightarrow> rc_xrange Cl r' topic k k 1 = Inr [(k, flds)]"
    and "from_millis (timestamp_millis X now) = Some t"
    and "- (2 ^ 63) \<le> timestamp_millis X now" and "timestamp_millis X now < 2 ^ 63"
  shows "fetch_message from_millis Cl r' topic (message_id_str i) =
    Inr (Some \<lparr>bm_id = i, bm_topic = topic, bm_payload = payload, bm_published_at = t\<rparr>)"
proof -
  obtain k where k: "rc_xadd Cl r topic (message_fields X now payload) = (r', Inr k)" "i = MessageId k"
    using assms(1) by (auto simp: bus_publish_def split: prod.splits sum.splits)
  have "PAYLOAD_FIELD \<noteq> PUBLISHED_AT_FIELD" by (simp add: PAYLOAD_FIELD_def PUBLISHED_AT_FIELD_def)
  with assms(2) [OF k(1)] assms(3) parse_int_str [OF assms(4,5)] k(2) show ?thesis
    by (simp add: fetch_message_def stream_entry_to_message_def required_field_def message_fields_def
        decode_encode_hex published_at_from_fields_def)
qed

theorem published_message_read_back_witness:
  "\<exists>r' i. bus_publish ideal_ext sample_client 5000000 [] ''fills'' [0, 255] = (r', Inr i) \<and>
     fetch_message (\<lambda>ms. Some (ms * 1000000)) sample_client r' ''fills'' (message_id_str i) =
       Inr (Some \<lparr>bm_id = i, bm_topic = ''fills'', bm_payload = [0, 255], bm_published_at = 5000000\<rparr>)"
proof -
  obtain r' i where p: "bus_publish ideal_ext sample_client 5000000 [] ''fills'' [0, 255] = (r', Inr i)"
    by (simp add: bus_publish_def sample_client_def)
  have "rc_xrange sample_client r' ''fills'' k k 1 = Inr [(k, flds)]"
    if "rc_xadd sample_client [] ''fills'' flds = (r', Inr k)" for flds r' k
    using that by (auto simp: sample_client_def)
  from published_message_read_back [OF p this, of "\<lambda>ms. Some (ms * 1000000)" 5000000] p
  show ?thesis by auto
qed

text \<open>
  C29: The lookup of pending messages ends and is complete: on a group with any number of pending
  entries the paging loop stops and returns the ids of exactly those that have been idle for the
  requested time, in order and each once.
\<close>

theorem pending_ids_complete:
  assumes "xpending_law Cl r topic grp ps" and "min_idle div 1000000 < 2 ^ 64"
  shows "pending_ids Cl r topic grp min_idle =
    Some (Inr (map (MessageId \<circ> fst) (filter (\<lambda>(_, _, idle, _). min_idle div 1000000 \<le> unat idle) ps)))"
  using pending_ids_all [OF assms] by (simp add: idle_entries_def)

theorem pending_ids_complete_witness:
  "pending_ids sample_client [(''1-0'', Map.empty), (''2-0'', Map.empty)] ''fills'' ''g'' 3000000 =
     Some (Inr [MessageId ''1-0'', MessageId ''2-0''])"
  using pending_ids_complete [OF sample_xpending_law, of "[(''1-0'', Map.empty), (''2-0'', Map.empty)]"
      "3000000" "''fills''" "''g''"] by simp

text \<open>
  C30: Redelivery. While the receiver exists and every entry can be decoded, a subscription yields
  first the messages that were pending in the group, if there are any, and then those of the reads,
  in order, each once; a failed read is retried without losing anything. Nothing is claimed for a
  group without pending messages.
\<close>

theorem subscription_delivers:
  assumes "ensure_group Cl r topic grp = (r1, Inr ())" and "xpending_law Cl r1 topic grp ps"
    and "if ps = [] then r2 = r1 \<and> recovered = []
      else \<exists>claimed. rc_xclaim Cl r1 topic grp consumer 0 (map fst ps) = (r2, Inr claimed) \<and>
        entries_to_messages fm topic claimed = Inr recovered"
    and "\<And>n. alive n"
    and "list_all2 (\<lambda>rd ms. case rd of
        Inl e \<Rightarrow> \<not> is_no_group_error e \<and> ms = []
      | Inr records \<Rightarrow> entries_to_messages fm topic (case records topic of None \<Rightarrow> [] | Some es \<Rightarrow> es) = Inr ms)
      reads batches"
  shows "bus_subscribe fm Cl alive reads r topic grp consumer =
    Some (r2, Inr (recovered @ concat batches, None))"
proof (cases "ps = []")
  case True
  then show ?thesis
    using assms(3) pending_ids_all [OF assms(2), of 0] send_messages_alive [of alive, OF assms(4)]
      read_loop_alive [OF assms(4,5)]
    by (simp add: bus_subscribe_def subscription_task_def recover_pending_messages_def assms(1))
next
  case False
  then obtain claimed where "rc_xclaim Cl r1 topic grp consumer 0 (map fst ps) = (r2, Inr claimed)"
      "entries_to_messages fm topic claimed = Inr recovered" using assms(3) by auto
  with False show ?thesis
    using pending_ids_all [OF assms(2), of 0] send_messages_alive [of alive, OF assms(4)]
      read_loop_alive [OF assms(4,5)]
    by (simp add: bus_subscribe_def subscription_task_def recover_pending_messages_def assms(1)
        ids_to_strings_def comp_def)
qed

theorem subscription_delivers_witness:
  "bus_subscribe (\<lambda>ms. Some (ms * 1000000)) sample_client (\<lambda>_. True) [Inl ''timeout'']
     [(''1-0'', message_fields ideal_ext 5000000 [7])] ''fills'' ''g'' ''c'' =
   Some ([(''1-0'', message_fields ideal_ext 5000000 [7])],
     Inr ([\<lparr>bm_id = MessageId ''1-0'', bm_topic = ''fills'', bm_payload = [7], bm_published_at = 5000000\<rparr>], None))"
proof -
  let ?r = "[(''1-0'', message_fields ideal_ext 5000000 [7])]" and ?fm = "\<lambda>ms :: int. Some (ms * 1000000)"
  let ?m = "\<lparr>bm_id = MessageId ''1-0'', bm_topic = ''fills'', bm_payload = [7], bm_published_at = 5000000\<rparr>"
  have e: "ensure_group sample_client ?r ''fills'' ''g'' = (?r, Inr ())"
    by (simp add: ensure_group_def sample_client_def is_busy_group_error_def)
  have c: "rc_xclaim sample_client ?r ''fills'' ''g'' ''c'' 0
      (map fst (map (\<lambda>(i, _). (i, ''c'', 5000 :: u64, 1 :: u64)) ?r)) = (?r, Inr ?r)"
    by (simp add: sample_client_def)
  have m: "entries_to_messages ?fm ''fills'' ?r = Inr [?m]"
    using parse_int_str [of 5] decode_encode_hex [of "''fills''" "MessageId ''1-0''" "[7]"]
    by (simp add: stream_entry_to_message_def required_field_def message_fields_def
        published_at_from_fields_def PAYLOAD_FIELD_def PUBLISHED_AT_FIELD_def)
  show ?thesis
    using subscription_delivers [OF e sample_xpending_law, of ?r "[?m]" "''c''" ?fm "\<lambda>_. True" "[Inl ''timeout'']" "[[]]"]
      c m by (simp add: is_no_group_error_def)
qed

text \<open>
  C39: One undecodable message blocks its consumer group. If any pending entry of the group is not a
  valid message, every new subscription succeeds but its task ends during recovery and delivers
  nothing, neither the other pending messages nor new ones, and acknowledges nothing.
\<close>

theorem undecodable_message_blocks_group:
  assumes "ensure_group Cl r topic grp = (r1, Inr ())" and "xpending_law Cl r1 topic grp ps" and "ps \<noteq> []"
    and "rc_xclaim Cl r1 topic grp consumer 0 (map fst ps) = (r2, Inr claimed)"
    and "e \<in> set claimed" and "stream_entry_to_message fm topic e = Inl err"
  shows "\<exists>err. bus_subscribe fm Cl alive reads r topic grp consumer =
    Some (r2, Inr ([], Some (RecoveryFailed err)))"
proof -
  obtain err where "entries_to_messages fm topic claimed = Inl err"
    using entries_to_messages_Inl [of claimed fm topic] assms(5,6) by blast
  then show ?thesis
    using assms(3,4) pending_ids_all [OF assms(2), of 0]
    by (simp add: bus_subscribe_def subscription_task_def recover_pending_messages_def assms(1)
        ids_to_strings_def comp_def)
qed

theorem undecodable_message_blocks_group_witness:
  "\<exists>err. bus_subscribe (\<lambda>ms. Some (ms * 1000000)) sample_client (\<lambda>_. True) []
       [(''1-0'', message_fields ideal_ext 5000000 [7]), (''2-0'', Map.empty)] ''fills'' ''g'' ''c'' =
     Some ([(''1-0'', message_fields ideal_ext 5000000 [7]), (''2-0'', Map.empty)],
       Inr ([], Some (RecoveryFailed err)))"
proof -
  let ?r = "[(''1-0'', message_fields ideal_ext 5000000 [7]), (''2-0'', Map.empty)]"
  have e: "ensure_group sample_client ?r ''fills'' ''g'' = (?r, Inr ())"
    by (simp add: ensure_group_def sample_client_def is_busy_group_error_def)
  have c: "rc_xclaim sample_client ?r ''fills'' ''g'' ''c'' 0
      (map fst (map (\<lambda>(i, _). (i, ''c'', 5000 :: u64, 1 :: u64)) ?r)) = (?r, Inr ?r)"
    by (simp add: sample_client_def)
  have b: "stream_entry_to_message (\<lambda>ms. Some (ms * 1000000)) ''fills'' (''2-0'', Map.empty) =
      Inl (MissingField ''fills'' (MessageId ''2-0'') PAYLOAD_FIELD)"
    by (simp add: stream_entry_to_message_def required_field_def)
  show ?thesis
    using undecodable_message_blocks_group [OF e sample_xpending_law _ c _ b] by simp
qed

end
