(* ===== verification/Bootstrap.thy ===== *)
theory Bootstrap
  imports Bus Signal_Bridge
begin

text \<open>
  The engine binary (\<open>bins/feynman-engine/src/main.rs\<close>): command line, configuration with its
  overrides from the environment, and the start-up sequence up to the point where the gRPC health
  service is served. Reading and deserialising the configuration file (crate \<open>config\<close>), dialling
  Redis and the gRPC server are arguments; an \<open>anyhow\<close> error is its outermost context, which is what
  it displays.
\<close>

subsection \<open>Command line\<close>

record cli_args =
  ca_config_path :: string

definition DEFAULT_CONFIG_PATH :: string where
  "DEFAULT_CONFIG_PATH = ''config/default.toml''"

fun cli_parse_loop :: "string list \<Rightarrow> string option \<Rightarrow> msg + string option" where
  "cli_parse_loop [] config_path = Inr config_path"
| "cli_parse_loop (arg # args) config_path =
     (if arg = ''--config'' then
        (case args of
           [] \<Rightarrow> Inl (lit ''missing value for --config'')
         | v # rest \<Rightarrow> cli_parse_loop rest (Some v))
      else Inl [PStr ''unknown argument: '', PStr arg])"

definition cli_parse :: "string list \<Rightarrow> msg + cli_args" where
  "cli_parse args = (case cli_parse_loop args None of
       Inl e \<Rightarrow> Inl e
     | Inr p \<Rightarrow> Inr \<lparr>ca_config_path = (case p of Some v \<Rightarrow> v | None \<Rightarrow> DEFAULT_CONFIG_PATH)\<rparr>)"

subsection \<open>Configuration\<close>

record engine_config =
  eg_mode :: string
  eg_dry_run :: bool
  eg_grpc_port :: u16

record redis_config =
  rd_url :: string

record bootstrap_config =
  bt_engine :: engine_config
  bt_redis :: redis_config

definition parse_bool_env :: "string \<Rightarrow> string \<Rightarrow> msg + bool" where
  "parse_bool_env key val =
     (if val = ''true'' then Inr True
      else if val = ''false'' then Inr False
      else Inl [PStr key, PStr '' must be a boolean, got '', PStr val])"

definition parse_u16_env :: "string \<Rightarrow> string \<Rightarrow> msg + u16" where
  "parse_u16_env key val = (case parse_unsigned (2 ^ 16) val of
       Some n \<Rightarrow> Inr (of_nat n)
     | None \<Rightarrow> Inl [PStr key, PStr '' must be a valid u16, got '', PStr val])"

definition apply_env_overrides ::
  "bootstrap_config \<Rightarrow> (string \<Rightarrow> string option) \<Rightarrow> msg + bootstrap_config"
where
  "apply_env_overrides config env =
     (case (case (env ''FEYNMAN_MODE'', env ''ENGINE_MODE'') of
          (Some feynman_mode, Some engine_mode) \<Rightarrow>
            if feynman_mode \<noteq> engine_mode
            then Inl [PStr ''conflicting engine mode env vars: FEYNMAN_MODE='', PStr feynman_mode,
                   PStr '', ENGINE_MODE='', PStr engine_mode]
            else Inr (config\<lparr>bt_engine := (bt_engine config)\<lparr>eg_mode := feynman_mode\<rparr>\<rparr>)
        | (Some feynman_mode, None) \<Rightarrow> Inr (config\<lparr>bt_engine := (bt_engine config)\<lparr>eg_mode := feynman_mode\<rparr>\<rparr>)
        | (None, Some engine_mode) \<Rightarrow> Inr (config\<lparr>bt_engine := (bt_engine config)\<lparr>eg_mode := engine_mode\<rparr>\<rparr>)
        | (None, None) \<Rightarrow> Inr config) of
       Inl e \<Rightarrow> Inl e
     | Inr config \<Rightarrow> (case (case env ''ENGINE_DRY_RUN'' of
            None \<Rightarrow> Inr config
          | Some v \<Rightarrow> map_sum id (\<lambda>b. config\<lparr>bt_engine := (bt_engine config)\<lparr>eg_dry_run := b\<rparr>\<rparr>)
                        (parse_bool_env ''ENGINE_DRY_RUN'' v)) of
         Inl e \<Rightarrow> Inl e
       | Inr config \<Rightarrow> (case (case env ''ENGINE_GRPC_PORT'' of
              None \<Rightarrow> Inr config
            | Some v \<Rightarrow> map_sum id (\<lambda>p. config\<lparr>bt_engine := (bt_engine config)\<lparr>eg_grpc_port := p\<rparr>\<rparr>)
                          (parse_u16_env ''ENGINE_GRPC_PORT'' v)) of
           Inl e \<Rightarrow> Inl e
         | Inr config \<Rightarrow> (case env ''REDIS_URL'' of
             None \<Rightarrow> Inr config
           | Some redis_url \<Rightarrow>
               if trim_is_empty redis_url then Inl (lit ''REDIS_URL must not be empty'')
               else Inr (config\<lparr>bt_redis := (bt_redis config)\<lparr>rd_url := redis_url\<rparr>\<rparr>)))))"

text \<open>How reading the file can fail.\<close>

datatype load_failure = BuildFailed | DeserializeFailed

definition load_config ::
  "(string \<Rightarrow> load_failure + bootstrap_config) \<Rightarrow> (string \<Rightarrow> string option) \<Rightarrow> string \<Rightarrow> msg + bootstrap_config"
where
  "load_config read env path = (case read path of
       Inl BuildFailed \<Rightarrow> Inl [PStr ''failed to load config from '', PStr path]
     | Inl DeserializeFailed \<Rightarrow> Inl [PStr ''failed to parse bootstrap config from '', PStr path]
     | Inr config \<Rightarrow> apply_env_overrides config env)"

text \<open>\<open>main\<close> up to the gRPC server: the configuration it is started with, or the error \<open>main\<close> exits with.\<close>

definition engine_main ::
  "(string \<Rightarrow> load_failure + bootstrap_config) \<Rightarrow> (string \<Rightarrow> string option) \<Rightarrow> 'r redis_client \<Rightarrow>
   (string \<Rightarrow> redis_error + 'r) \<Rightarrow> string list \<Rightarrow> msg + bootstrap_config"
where
  "engine_main read env Cl dial args = (case cli_parse args of
       Inl e \<Rightarrow> Inl e
     | Inr cli \<Rightarrow> (case load_config read env (ca_config_path cli) of
         Inl e \<Rightarrow> Inl e
       | Inr config \<Rightarrow> (case bus_connect Cl (dial (rd_url (bt_redis config))) of
           Inl _ \<Rightarrow> Inl [PStr ''failed to connect to Redis at '', PStr (rd_url (bt_redis config))]
         | Inr r \<Rightarrow> (case bus_health_check Cl r of
             Inl _ \<Rightarrow> Inl [PStr ''Redis health check failed for '', PStr (rd_url (bt_redis config))]
           | Inr _ \<Rightarrow> Inr config))))"

subsection \<open>Specification\<close>

text \<open>The value of a setting: that of the environment where it is set.\<close>

definition overridden :: "'a option \<Rightarrow> 'a \<Rightarrow> 'a" where
  "overridden ov d = (case ov of Some v \<Rightarrow> v | None \<Rightarrow> d)"

text \<open>The path named by the last \<open>--config\<close>.\<close>

fun config_values :: "string list \<Rightarrow> string list option" where
  "config_values [] = Some []"
| "config_values [a] = None"
| "config_values (a # v # rest) = (if a = ''--config'' then map_option ((#) v) (config_values rest) else None)"

definition sample_config :: bootstrap_config where
  "sample_config = \<lparr>bt_engine = \<lparr>eg_mode = ''live'', eg_dry_run = True, eg_grpc_port = 50051\<rparr>,
     bt_redis = \<lparr>rd_url = ''redis://redis:6379''\<rparr>\<rparr>"

subsection \<open>Lemmas\<close>

lemma cli_parse_loop_values:
  "cli_parse_loop args p = Inr q \<longleftrightarrow>
   (\<exists>vs. config_values args = Some vs \<and> q = (if vs = [] then p else Some (last vs)))"
  by (induction args arbitrary: p rule: config_values.induct) auto

lemma apply_env_overrides_Inr:
  assumes "apply_env_overrides c env = Inr c'"
  shows "eg_mode (bt_engine c') = overridden (env ''FEYNMAN_MODE'') (overridden (env ''ENGINE_MODE'') (eg_mode (bt_engine c))) \<and>
    (env ''FEYNMAN_MODE'' = None \<or> env ''ENGINE_MODE'' = None \<or> env ''FEYNMAN_MODE'' = env ''ENGINE_MODE'') \<and>
    eg_dry_run (bt_engine c') = overridden (map_option (\<lambda>v. v = ''true'') (env ''ENGINE_DRY_RUN'')) (eg_dry_run (bt_engine c)) \<and>
    env ''ENGINE_DRY_RUN'' \<in> {None, Some ''true'', Some ''false''} \<and>
    map_option (parse_unsigned (2 ^ 16)) (env ''ENGINE_GRPC_PORT'') \<noteq> Some None \<and>
    eg_grpc_port (bt_engine c') = overridden
      (map_option of_nat (Option.bind (env ''ENGINE_GRPC_PORT'') (parse_unsigned (2 ^ 16)))) (eg_grpc_port (bt_engine c)) \<and>
    rd_url (bt_redis c') = overridden (env ''REDIS_URL'') (rd_url (bt_redis c)) \<and>
    (env ''REDIS_URL'' = None \<or> \<not> trim_is_empty (rd_url (bt_redis c')))"
  using assms
  by (cases "env ''FEYNMAN_MODE''"; cases "env ''ENGINE_MODE''"; cases "env ''ENGINE_DRY_RUN''";
      cases "env ''ENGINE_GRPC_PORT''"; cases "env ''REDIS_URL''")
    (auto simp: apply_env_overrides_def overridden_def parse_bool_env_def parse_u16_env_def
      split: if_splits option.splits sum.splits)

subsection \<open>Properties\<close>

text \<open>
  C38: The engine serves only what it was configured to. When it reaches the health service, the
  arguments were pairs of \<open>--config\<close> and a path and the last path was read; mode, dry run, port and
  Redis URL are those of the environment where it sets them and of the file otherwise; the two mode
  variables did not contradict each other, the overrides were well formed, and Redis had answered
  at the configured URL.
\<close>

theorem engine_serves_configured:
  assumes "engine_main read env Cl dial args = Inr cfg"
  shows "\<exists>vs base r. config_values args = Some vs \<and>
    read (if vs = [] then ''config/default.toml'' else last vs) = Inr base \<and>
    eg_mode (bt_engine cfg) =
      overridden (env ''FEYNMAN_MODE'') (overridden (env ''ENGINE_MODE'') (eg_mode (bt_engine base))) \<and>
    (env ''FEYNMAN_MODE'' = None \<or> env ''ENGINE_MODE'' = None \<or> env ''FEYNMAN_MODE'' = env ''ENGINE_MODE'') \<and>
    eg_dry_run (bt_engine cfg) =
      overridden (map_option (\<lambda>v. v = ''true'') (env ''ENGINE_DRY_RUN'')) (eg_dry_run (bt_engine base)) \<and>
    env ''ENGINE_DRY_RUN'' \<in> {None, Some ''true'', Some ''false''} \<and>
    eg_grpc_port (bt_engine cfg) = overridden
      (map_option of_nat (Option.bind (env ''ENGINE_GRPC_PORT'') (parse_unsigned (2 ^ 16))))
      (eg_grpc_port (bt_engine base)) \<and>
    map_option (parse_unsigned (2 ^ 16)) (env ''ENGINE_GRPC_PORT'') \<noteq> Some None \<and>
    rd_url (bt_redis cfg) = overridden (env ''REDIS_URL'') (rd_url (bt_redis base)) \<and>
    dial (rd_url (bt_redis cfg)) = Inr r \<and> (\<exists>n. rc_exists Cl r ''__feynman_bus_health__'' = Inr n)"
proof -
  from assms obtain cli where cli: "cli_parse args = Inr cli" "load_config read env (ca_config_path cli) = Inr cfg"
      "\<exists>r. bus_connect Cl (dial (rd_url (bt_redis cfg))) = Inr r"
    by (auto simp: engine_main_def split: sum.splits)
  from cli(1) obtain vs where vs: "config_values args = Some vs"
      "ca_config_path cli = (if vs = [] then ''config/default.toml'' else last vs)"
    by (auto simp: cli_parse_def cli_parse_loop_values DEFAULT_CONFIG_PATH_def split: sum.splits)
  from cli(2) obtain base where fl: "read (ca_config_path cli) = Inr base"
      "apply_env_overrides base env = Inr cfg"
    by (auto simp: load_config_def split: sum.splits load_failure.splits)
  from cli(3) obtain r where "dial (rd_url (bt_redis cfg)) = Inr r"
      "\<exists>n. rc_exists Cl r ''__feynman_bus_health__'' = Inr n"
    by (auto simp: bus_connect_def health_key_def split: sum.splits)
  with vs fl apply_env_overrides_Inr [OF fl(2)] show ?thesis by auto
qed

theorem engine_serves_configured_witness:
  "\<exists>cfg. engine_main (\<lambda>_. Inr sample_config) (\<lambda>k. if k = ''FEYNMAN_MODE'' then Some ''paper'' else None)
       sample_client (\<lambda>_. Inr []) [''--config'', ''/tmp/custom.toml''] = Inr cfg \<and>
     eg_mode (bt_engine cfg) = ''paper''"
proof -
  let ?env = "\<lambda>k. if k = ''FEYNMAN_MODE'' then Some ''paper'' else None"
  obtain cfg where c: "engine_main (\<lambda>_. Inr sample_config) ?env sample_client (\<lambda>_. Inr [])
      [''--config'', ''/tmp/custom.toml''] = Inr cfg"
    by (simp add: engine_main_def cli_parse_def load_config_def apply_env_overrides_def bus_connect_def
        bus_health_check_def sample_client_def)
  from engine_serves_configured [OF c] c show ?thesis by (auto simp: overridden_def)
qed

end
