(* ===== verification/Spec2Isabelle.thy ===== *)
theory Spec2Isabelle
  imports Order_Lifecycle Venue_Health Risk_Manager Paper_Concurrency Engine_History Trading_System Bootstrap
begin

text \<open>
  Verification of the Feynman execution engine, a trading engine in Rust: agents emit signals, the
  gateway turns them into orders, two layers of risk control decide on them, a sequencer serialises
  all changes of the engine state and journals them, and adapters talk to the venues.

  \<^bold>\<open>How the parts interact.\<close> A signal becomes a draft (\<open>SignalOrderBridge\<close>). A draft passes the
  typestate pipeline: validated, risk checked, routed. The sequencer owns the engine state and takes
  one command at a time, high priority first. For a submitted order it asks the engine core for the
  risk decision, hands the routed order to the venue channel, records the order and commits events
  and a snapshot to the journal. The submit task takes orders from the channel, calls the venue's
  adapter and reports back with commands. The message bus connects processes; the binary loads the
  configuration and checks Redis before it serves.

  \<^bold>\<open>Theories and sources.\<close> Paths are below \<open>src/crates\<close> unless they start with \<open>bins\<close>.
  \<^item> \<open>Prelude\<close>: decimals, instants, words, messages, the record \<open>ext\<close> of third-party operations and
    the lemmas shared by the components.
  \<^item> \<open>Ids\<close>: \<open>types/src/ids.rs\<close>. Client order ids parse back and are distinct.
  \<^item> \<open>Domain\<close>: \<open>types/src/signal.rs\<close>, \<open>portfolio.rs\<close>, \<open>risk.rs\<close>; data only.
  \<^item> \<open>Pipeline\<close> and \<open>Order_Lifecycle\<close>: \<open>types/src/pipeline.rs\<close>. The live order as a step function
    with its reachable states: quantities are conserved, terminal states absorb, the order's data
    survives the pipeline.
  \<^item> \<open>Venue_Health\<close>: \<open>types/src/clock.rs\<close>, \<open>venue.rs\<close>, \<open>health.rs\<close>. The clock, connection health and the
    overall status.
  \<^item> \<open>Market\<close>: \<open>types/src/market_data.rs\<close>, \<open>pnl.rs\<close>, \<open>fees.rs\<close>, \<open>reconciliation.rs\<close>, \<open>event.rs\<close>. Which
    books pass validation, and exactness of mark-to-market.
  \<^item> \<open>Exposure\<close>: \<open>project_net_and_gross\<close> of \<open>risk/src/lib.rs\<close>, shared by both layers of risk control.
  \<^item> \<open>Circuit_Breaker\<close>: \<open>risk/src/circuit_breaker.rs\<close>. The bank runs its gates in the documented order;
    passing means being within every compiled-in limit; a daily-loss halt stays until a reset.
    Interfaces \<open>circuit_breaker\<close> and \<open>latching_breaker\<close>, interpreted on the breakers.
  \<^item> \<open>Risk_Manager\<close>: \<open>risk/src/lib.rs\<close>. Exactly which limits an order must meet not to be rejected, and
    what an approval and a resize guarantee.
  \<^item> \<open>Signal_Bridge\<close>, \<open>Fill_Simulator\<close>, \<open>Paper_Adapter\<close>, \<open>Venue_Submit\<close>: \<open>gateway/src/lib.rs\<close>. Drafts are
    well formed and sized from the agent's allocated capital; the simulated execution is the depth's
    and the best possible; every order is reported on. The adapter interface is the record
    \<open>venue_adapter\<close> with the contract \<open>venue_adapter_contract\<close>, interpreted on the paper adapter and on
    adapters that keep the default of the post-acknowledgement actions; the paper adapter keeps it
    also when other calls act between the critical sections of a submission.
  \<^item> \<open>Paper_Concurrency\<close>: the critical sections of concurrent calls of the paper adapter, interleaved. No
    order is filled beyond its quantity as long as no two submissions under one client order id
    overlap; two that do overlap fill the order twice.
  \<^item> \<open>Engine\<close>: \<open>engine-core/src/lib.rs\<close>. State, commands and the traits \<open>EngineCore\<close> and
    \<open>EventJournal\<close> as records of operations, with the contracts \<open>engine_core_contract\<close>, its extension
    \<open>order_flow_contract\<close> and \<open>journal_contract\<close>; interpreted on the in-memory implementations of \<open>sequencer_tests.rs\<close>.
  \<^item> \<open>Sequencer\<close>, \<open>Sequencer_Recovery\<close>, \<open>Sequencer_Invariant\<close>: \<open>engine-core/src/sequencer.rs\<close>. Every
    handler, the commit, the main loop with its queues, and the start. One command at a time: no ghost
    orders, idempotent submission, venue reports along the life cycle, events journaled as the handler
    produced them. Whole runs, which may end by an error, a panic or a failed commit: recovery of the
    last committed state, and that the loop processes every queued command.
  \<^item> \<open>Engine_History\<close>: the whole life of an engine, over commands that succeed or fail and over restarts
    on the journal left behind: orders match the cache in every session and no client order id is
    used twice.
  \<^item> \<open>Journal\<close>: \<open>engine-core/src/journal.rs\<close>. The SQLite journal with its tables, transactions,
    schema versions and migration. It refines the in-memory journal and keeps \<open>journal_contract\<close>
    under any schedule of database faults, hence the recovery theorem holds for it.
  \<^item> \<open>Trading_System\<close>: the sequencer, the bounded venue channel and the submit task as one transition
    system, with clients, fill streams and other users of the adapters as its environment. No order is
    handed over twice and no pending order is lost, under every interleaving; the engine comes to rest
    with no order waiting. Limits of the design are shown as well: a fill that overtakes the
    acknowledgement of its order makes the engine refuse the acknowledgement and end; orders that are
    pending at a restart are not sent again; a commit that fails forgets an order that was already
    handed over.
  \<^item> \<open>Bus\<close>: \<open>bus/src/lib.rs\<close> and \<open>bus/src/redis.rs\<close>. Publishing, subscribing, acknowledging, claiming,
    pending messages and metadata of Redis streams.
  \<^item> \<open>Bootstrap\<close>: \<open>bins/feynman-engine/src/main.rs\<close>.

  \<^bold>\<open>State and operations.\<close> A struct is a record whose fields carry a prefix, an enum a datatype; an
  operation takes the object and returns it changed. An \<open>Err\<close> is \<open>Inl\<close>, a panic \<open>None\<close>. A hash
  map is a map; where the code iterates over one, the order is an argument. Channels are the lists
  of what was sent; whether a bounded channel has room and whether a receiver still exists are
  arguments. Each critical section under a lock and each command of the sequencer is one step, and
  histories are sequences of steps; an operation that locks more than once is the composition of its
  sections, and \<open>Paper_Concurrency\<close> interleaves those of different calls. In \<open>Trading_System\<close> the room in
  the channels follows from what waits in them; the submission of an order, the receipt of each
  report and the collection of the actions behind an acknowledgement are separate steps. The
  environment may send any command at any time, fills of any order included, except the
  acknowledgements and submission failures, which only the submit task sends in the code; it may change
  the adapters within their contract between any two steps, also so that a submission behaves as
  with other calls between its sections.

  \<^bold>\<open>Bounds and fuel.\<close> The main loop is read on the queued commands when all senders are gone; its
  number of steps is bounded by the number of queued commands, and \<open>Sequencer_Invariant\<close> shows that
  a larger bound changes nothing. The paging loop of the bus ends only if the server behaves; it is
  a \<open>partial_function\<close> and is shown to end for a server that answers as documented. All other
  recursion is structural. Sequence numbers, counters, ports and epochs are words; that a counter
  does not run out is a hypothesis where it matters.

  \<^bold>\<open>Parameters.\<close> \<open>ext\<close>: decimal arithmetic (rounding to 28 places, panic on overflow), and
  timestamps; \<open>ideal_ext\<close> is an instance with exact arithmetic, and exactness on decimal grids is a
  named hypothesis, as is a bound on the rounding error of quotients up to a given magnitude. \<open>codec\<close>: MessagePack and RFC 3339. \<open>db_env\<close>: which stages of a database
  operation fail. \<open>redis_client\<close>: the Redis client and server. The fee model, the price source and the
  venue adapters are traits of the program that a caller supplies.

  \<^bold>\<open>Not modelled.\<close> \<open>observability\<close> declares traits and dashboard data without behaviour; \<open>api\<close> is a
  placeholder; the protocol schema generates no code here. \<open>ExecutionGateway\<close>, \<open>Router\<close>,
  \<open>PipelineStage\<close>, \<open>OrderValidator\<close> and \<open>Reconciler\<close> are traits without implementation. \<open>WallClock\<close>
  reads the system time, which is an argument. Left out as effects outside the program: log output,
  the checkpoint of the database, the delay of a retry, and scheduling inside a lock. The test cases
  of the repository are not modelled.
\<close>

end
